theory Spec2Isabelle
  imports Complex_Main "HOL-Library.Log_Nat"
begin

section \<open>Errors and numbers\<close>

text \<open>
  The scripts run on a JavaScript host. An exception ends the running handler; it is the
  left summand of a result. \<open>TypeError\<close> is what the runtime raises when a property of
  \<open>undefined\<close> is read, \<open>Error\<close> carries the message of an explicit \<open>throw new Error\<close>.
\<close>

datatype error = TypeError | Error string | NaNLocation

text \<open>
  A JavaScript number is an IEEE 754 binary64 value, \<open>jsnum\<close>: a finite value is the
  rational it denotes, every arithmetic result is rounded to nearest, ties to even, with
  gradual underflow and overflow to infinity. Negative zero is identified with zero,
  which \<open>===\<close> does as well; the scripts divide by constants that are not zero and
  by a square root, which is never negative zero. Counters and indices that the scripts only increment by
  one, item counts, growth stages, durability and the coordinates of blocks are integers
  far below \<open>2^53\<close>, where binary64 arithmetic is exact: they are \<open>int\<close>, or integer-valued
  \<open>real\<close> in the positions of blocks.
\<close>

definition pow2 :: "int \<Rightarrow> rat" where
  "pow2 k = (if 0 \<le> k then 2 ^ nat k else 1 / 2 ^ nat (- k))"

definition ilog2 :: "rat \<Rightarrow> int" where
  \<comment> \<open>\<open>\<lfloor>log\<^sub>2 r\<rfloor>\<close> for \<open>0 < r\<close>, from the bit lengths of numerator and denominator\<close>
  "ilog2 r =
     (let (p, q) = quotient_of r; k = bitlen p - bitlen q
      in if pow2 k \<le> r then k else k - 1)"

definition roundHalfEven :: "rat \<Rightarrow> int" where
  "roundHalfEven s =
     (let f = \<lfloor>s\<rfloor>; d = s - of_int f
      in if d < 1 / 2 then f else if 1 / 2 < d then f + 1
         else if even f then f else f + 1)"

definition fl :: "rat \<Rightarrow> rat" where
  \<comment> \<open>round to 53 significant bits; below \<open>2^-1022\<close> the spacing stays \<open>2^-1074\<close>\<close>
  "fl r =
     (if r = 0 then 0
      else let e = max (ilog2 \<bar>r\<bar>) (- 1022); u = pow2 (e - 52)
           in of_int (roundHalfEven (r / u)) * u)"

definition representable :: "rat \<Rightarrow> bool" where
  \<comment> \<open>\<open>r\<close> is the value of a finite binary64 number\<close>
  "representable r \<longleftrightarrow> fl r = r \<and> \<bar>r\<bar> < 2 ^ 1024"

datatype jsnum = Num rat | PosInf | NegInf | NaN

definition rounded :: "rat \<Rightarrow> jsnum" where
  "rounded r =
     (let v = fl r
      in if 2 ^ 1024 \<le> v then PosInf else if v \<le> - (2 ^ 1024) then NegInf else Num v)"

fun negate :: "jsnum \<Rightarrow> jsnum" where
  "negate (Num r) = Num (- r)"
| "negate PosInf = NegInf"
| "negate NegInf = PosInf"
| "negate NaN = NaN"

instantiation jsnum :: "{plus, minus}"
begin

fun plus_jsnum :: "jsnum \<Rightarrow> jsnum \<Rightarrow> jsnum" where
  "plus_jsnum NaN _ = NaN"
| "plus_jsnum _ NaN = NaN"
| "plus_jsnum (Num a) (Num b) = rounded (a + b)"
| "plus_jsnum PosInf NegInf = NaN"
| "plus_jsnum NegInf PosInf = NaN"
| "plus_jsnum PosInf _ = PosInf"
| "plus_jsnum NegInf _ = NegInf"
| "plus_jsnum (Num a) b = b"

definition minus_jsnum :: "jsnum \<Rightarrow> jsnum \<Rightarrow> jsnum" where
  "minus_jsnum a b = a + negate b"

instance ..

end

text \<open>
  Products and quotients, and the comparisons \<open><=\<close> and \<open><\<close>, which are false when an
  operand is \<open>NaN\<close>.
\<close>

instantiation jsnum :: "{times, divide, ord}"
begin

fun times_jsnum :: "jsnum \<Rightarrow> jsnum \<Rightarrow> jsnum" where
  "times_jsnum NaN _ = NaN"
| "times_jsnum _ NaN = NaN"
| "times_jsnum (Num a) (Num b) = rounded (a * b)"
| "times_jsnum (Num a) PosInf = (if a = 0 then NaN else if 0 < a then PosInf else NegInf)"
| "times_jsnum (Num a) NegInf = (if a = 0 then NaN else if 0 < a then NegInf else PosInf)"
| "times_jsnum PosInf (Num b) = (if b = 0 then NaN else if 0 < b then PosInf else NegInf)"
| "times_jsnum NegInf (Num b) = (if b = 0 then NaN else if 0 < b then NegInf else PosInf)"
| "times_jsnum PosInf PosInf = PosInf"
| "times_jsnum PosInf NegInf = NegInf"
| "times_jsnum NegInf PosInf = NegInf"
| "times_jsnum NegInf NegInf = PosInf"

fun divide_jsnum :: "jsnum \<Rightarrow> jsnum \<Rightarrow> jsnum" where
  "divide_jsnum NaN _ = NaN"
| "divide_jsnum _ NaN = NaN"
| "divide_jsnum (Num a) (Num b) =
     (if b = 0 then (if a = 0 then NaN else if 0 < a then PosInf else NegInf)
      else rounded (a / b))"
| "divide_jsnum (Num a) _ = Num 0"
| "divide_jsnum PosInf (Num b) = (if 0 \<le> b then PosInf else NegInf)"
| "divide_jsnum NegInf (Num b) = (if 0 \<le> b then NegInf else PosInf)"
| "divide_jsnum _ _ = NaN"

fun less_eq_jsnum :: "jsnum \<Rightarrow> jsnum \<Rightarrow> bool" where
  "less_eq_jsnum NaN _ = False"
| "less_eq_jsnum _ NaN = False"
| "less_eq_jsnum (Num a) (Num b) = (a \<le> b)"
| "less_eq_jsnum NegInf _ = True"
| "less_eq_jsnum _ PosInf = True"
| "less_eq_jsnum _ _ = False"

fun less_jsnum :: "jsnum \<Rightarrow> jsnum \<Rightarrow> bool" where
  "less_jsnum NaN _ = False"
| "less_jsnum _ NaN = False"
| "less_jsnum (Num a) (Num b) = (a < b)"
| "less_jsnum NegInf NegInf = False"
| "less_jsnum NegInf _ = True"
| "less_jsnum PosInf PosInf = False"
| "less_jsnum _ PosInf = True"
| "less_jsnum _ _ = False"

instance ..

end

instantiation jsnum :: inverse
begin

definition inverse_jsnum :: "jsnum \<Rightarrow> jsnum" where
  "inverse_jsnum a = Num 1 div a"

instance ..

end

definition strictEquals :: "jsnum \<Rightarrow> jsnum \<Rightarrow> bool" where
  \<comment> \<open>\<open>a === b\<close> on numbers: \<open>NaN\<close> equals nothing\<close>
  "strictEquals a b \<longleftrightarrow> a \<noteq> NaN \<and> a = b"

definition toNum :: "int \<Rightarrow> jsnum" where
  \<comment> \<open>an integer as a number\<close>
  "toNum k = rounded (of_int k)"

definition asInteger :: "jsnum \<Rightarrow> int" where
  \<comment> \<open>the integer that an integer-valued number denotes; the item counts of the scripts
      are sums of floors and integers\<close>
  "asInteger a = (case a of Num q \<Rightarrow> \<lfloor>q\<rfloor> | _ \<Rightarrow> 0)"

fun Math_floor :: "jsnum \<Rightarrow> jsnum" where
  "Math_floor (Num q) = Num (of_int \<lfloor>q\<rfloor>)"
| "Math_floor a = a"

fun Math_round :: "jsnum \<Rightarrow> jsnum" where
  \<comment> \<open>the nearest integer, a tie towards \<open>+\<infinity>\<close>\<close>
  "Math_round (Num q) = Num (of_int \<lfloor>q + 1 / 2\<rfloor>)"
| "Math_round a = a"

text \<open>
  \<open>Math.sqrt\<close> is correctly rounded: the integer square root of the scaled argument gives
  the 53-bit number just below the root, and the comparison with the midpoint decides
  between it and the next one.
\<close>

function isqrt :: "int \<Rightarrow> int" where
  "isqrt n =
     (if n < 1 then 0
      else if n < 4 then 1
      else (let s = 2 * isqrt (n div 4)
            in if (s + 1) * (s + 1) \<le> n then s + 1 else s))"
  by pat_completeness auto
termination
  by (relation "measure nat") auto

declare isqrt.simps [simp del]

definition sqrtRounded :: "rat \<Rightarrow> rat" where
  "sqrtRounded r =
     (if r \<le> 0 then 0
      else let e = ilog2 r div 2; u = pow2 (e - 52);
               n = isqrt \<lfloor>r / (u * u)\<rfloor>;
               lo = of_int n * u; mid = lo + u / 2
           in if r < mid * mid then lo
              else if mid * mid < r then lo + u
              else if even n then lo else lo + u)"

fun Math_sqrt :: "jsnum \<Rightarrow> jsnum" where
  "Math_sqrt (Num q) = (if q < 0 then NaN else Num (sqrtRounded q))"
| "Math_sqrt PosInf = PosInf"
| "Math_sqrt a = NaN"

definition square :: "jsnum \<Rightarrow> jsnum" where
  \<comment> \<open>\<open>a ** 2\<close> and \<open>Math.pow(a, 2)\<close>, taken as the correctly rounded square\<close>
  "square a = a * a"

definition Math_PI :: jsnum where
  "Math_PI = Num (884279719003555 / 2 ^ 48)"

section \<open>Vectors (classes/Vector3, vectorUtils)\<close>

datatype 'a Vector3 = Vector3 (vx: 'a) (vy: 'a) (vz: 'a)

text \<open>
  The helpers throw when an argument is missing (\<open>undefined\<close> or \<open>null\<close>, here \<open>None\<close>);
  a \<open>Vector3\<close> object is always truthy.
\<close>

definition areVectorsEqual :: "jsnum Vector3 option \<Rightarrow> jsnum Vector3 option \<Rightarrow> error + bool" where
  "areVectorsEqual vector1 vector2 =
     (case (vector1, vector2) of
        (Some v1, Some v2) \<Rightarrow>
          Inr (strictEquals (vx v1) (vx v2) \<and> strictEquals (vy v1) (vy v2)
               \<and> strictEquals (vz v1) (vz v2))
      | _ \<Rightarrow> Inl (Error ''Both arguments must be objects with x, y, and z properties.''))"

definition addVectors :: "'a::plus Vector3 option \<Rightarrow> 'a Vector3 option \<Rightarrow> error + 'a Vector3" where
  "addVectors vector1 vector2 =
     (case (vector1, vector2) of
        (Some v1, Some v2) \<Rightarrow> Inr (Vector3 (vx v1 + vx v2) (vy v1 + vy v2) (vz v1 + vz v2))
      | _ \<Rightarrow> Inl (Error ''Both arguments must be objects with x, y, and z properties.''))"

definition subtractVectors :: "'a::minus Vector3 option \<Rightarrow> 'a Vector3 option \<Rightarrow> error + 'a Vector3" where
  "subtractVectors vector1 vector2 =
     (case (vector1, vector2) of
        (Some v1, Some v2) \<Rightarrow> Inr (Vector3 (vx v1 - vx v2) (vy v1 - vy v2) (vz v1 - vz v2))
      | _ \<Rightarrow> Inl (Error ''Both arguments must be objects with x, y, and z properties.''))"

definition floorVector :: "jsnum Vector3 option \<Rightarrow> error + jsnum Vector3" where
  "floorVector vector =
     (case vector of
        Some v \<Rightarrow> Inr (Vector3 (Math_floor (vx v)) (Math_floor (vy v)) (Math_floor (vz v)))
      | None \<Rightarrow> Inl (Error ''Argument must be an object with x, y, and z properties.''))"

section \<open>Items, containers and the world\<close>

text \<open>
  An item stack as the scripts read it: type, count, the largest count one slot holds,
  tags, the levels of the enchantable component (absent on an item that cannot be
  enchanted) and the durability component (absent on an item that does not wear).
\<close>

record Durability =
  damage :: int
  maxDurability :: int

record ItemStack =
  typeId :: string
  amount :: int
  maxAmount :: int
  tags :: "string list"
  enchantable :: "(string \<rightharpoonup> int) option"
  durability :: "Durability option"

text \<open>
  A container is the list of its slots; an entity is named by its id and has a container
  only if it has an inventory component. A block is named by the integer coordinates of
  its cell; \<open>loaded\<close> tells whether the host hands out a block for a cell at all.
\<close>

type_synonym Container = "ItemStack option list"

type_synonym Entity = nat

type_synonym Block = "int Vector3"

record BlockData =
  blockTypeId :: string
  states :: "string \<rightharpoonup> int"

record Player =
  entityId :: Entity
  location :: "jsnum Vector3"
  viewDirection :: "jsnum Vector3"
  selectedSlotIndex :: nat

text \<open>
  The world is what the host owns and the scripts read and change: the blocks, the
  containers, and the calls that leave a trace (items added to a container, items
  spawned, blocks destroyed by command, sounds, console warnings), each logged in call
  order. \<open>randoms\<close> is the sequence of the finite values \<open>Math.random()\<close> returns, and
  \<open>drawn\<close> counts how many have been taken.
\<close>

record World =
  cells :: "Block \<Rightarrow> BlockData"
  loaded :: "Block \<Rightarrow> bool"
  containers :: "Entity \<rightharpoonup> Container"
  deposits :: "(Entity \<times> ItemStack) list"
  spawnedItems :: "(ItemStack \<times> real Vector3) list"
  destroyed :: "Block list"
  sounds :: "(Entity \<times> string) list"
  warnings :: "string list"
  randoms :: "nat \<Rightarrow> rat"
  drawn :: nat

text \<open>
  What the host and the modules outside this repository's scripts provide is a
  parameter: the stack size of an item type, what \<open>Container.addItem\<close> does to the
  slots, the default states of a block type, the raycast, the registry of block types,
  \<open>parseInt\<close>, the list exported by \<open>./ScytheDestructable\<close>, and the approximations of sine
  and cosine that the language leaves to the implementation.
\<close>

record Host =
  stackSize :: "string \<Rightarrow> int"
  addItem :: "Container \<Rightarrow> ItemStack \<Rightarrow> Container"
  defaultStates :: "string \<Rightarrow> (string \<rightharpoonup> int)"
  getBlockFromRay :: "World \<Rightarrow> real Vector3 \<Rightarrow> real Vector3 \<Rightarrow> string list \<Rightarrow> Block option"
  blockTypeExists :: "string \<Rightarrow> bool"
  parseInt :: "string option \<Rightarrow> jsnum"
  scytheDestructable :: "string list"
  sinApprox :: "rat \<Rightarrow> rat"
  cosApprox :: "rat \<Rightarrow> rat"

definition newItemStack :: "Host \<Rightarrow> string \<Rightarrow> int \<Rightarrow> ItemStack" where
  \<comment> \<open>\<open>new ItemStack(itemType, amount)\<close>\<close>
  "newItemStack h itemType n =
     \<lparr>typeId = itemType, amount = n, maxAmount = stackSize h itemType, tags = [],
      enchantable = None, durability = None\<rparr>"

definition Math_random :: "World \<Rightarrow> jsnum \<times> World" where
  "Math_random w = (Num (randoms w (drawn w)), w\<lparr>drawn := drawn w + 1\<rparr>)"

fun Math_sin :: "Host \<Rightarrow> jsnum \<Rightarrow> jsnum" where
  \<comment> \<open>the language fixes the sine of zero; elsewhere the value is the host's\<close>
  "Math_sin h (Num q) = (if q = 0 then Num 0 else rounded (sinApprox h q))"
| "Math_sin h a = NaN"

fun Math_cos :: "Host \<Rightarrow> jsnum \<Rightarrow> jsnum" where
  "Math_cos h (Num q) = (if q = 0 then Num 1 else rounded (cosApprox h q))"
| "Math_cos h a = NaN"

definition container_addItem :: "Host \<Rightarrow> Entity \<Rightarrow> ItemStack \<Rightarrow> World \<Rightarrow> World" where
  \<comment> \<open>\<open>container.addItem(itemStack)\<close> on the container of \<open>entity\<close>\<close>
  "container_addItem h entity itemStack w =
     (case containers w entity of
        None \<Rightarrow> w
      | Some c \<Rightarrow> w\<lparr>containers := (containers w)(entity \<mapsto> addItem h c itemStack),
                     deposits := deposits w @ [(entity, itemStack)]\<rparr>)"

subsection \<open>InventoryLibrary\<close>

definition getEntityContainer :: "World \<Rightarrow> Entity \<Rightarrow> Container option" where
  "getEntityContainer w entity = containers w entity"

text \<open>
  A slot handle is the entity and the slot index. \<open>getSlot\<close> on a missing container is a
  \<open>TypeError\<close>; the selected slot of a player is a slot of the player's container.
\<close>

definition getHeldSlot :: "World \<Rightarrow> Player \<Rightarrow> error + (Entity \<times> nat)" where
  "getHeldSlot w player =
     (let heldSlotIndex = selectedSlotIndex player
      in case getEntityContainer w (entityId player) of
           None \<Rightarrow> Inl TypeError
         | Some playerContainer \<Rightarrow> Inr (entityId player, heldSlotIndex))"

definition slot_getItem :: "World \<Rightarrow> Entity \<times> nat \<Rightarrow> ItemStack option" where
  "slot_getItem w slot =
     (case containers w (fst slot) of
        None \<Rightarrow> None
      | Some c \<Rightarrow> if snd slot < length c then c ! snd slot else None)"

definition slot_setItem :: "Entity \<times> nat \<Rightarrow> ItemStack option \<Rightarrow> World \<Rightarrow> World" where
  "slot_setItem slot item w =
     (case containers w (fst slot) of
        None \<Rightarrow> w
      | Some c \<Rightarrow> w\<lparr>containers := (containers w)(fst slot \<mapsto> c[snd slot := item])\<rparr>)"

definition getHeldItem :: "World \<Rightarrow> Player \<Rightarrow> error + ItemStack option" where
  "getHeldItem w player =
     (case getHeldSlot w player of
        Inl e \<Rightarrow> Inl e
      | Inr heldSlot \<Rightarrow> Inr (slot_getItem w heldSlot))"

definition setHeldItem :: "Player \<Rightarrow> ItemStack option \<Rightarrow> World \<Rightarrow> (error + unit) \<times> World" where
  "setHeldItem player itemStack w =
     (case getHeldSlot w player of
        Inl e \<Rightarrow> (Inl e, w)
      | Inr playerHeldSlot \<Rightarrow>
          (case itemStack of
             Some i \<Rightarrow> (Inr (), slot_setItem playerHeldSlot (Some i) w)
           | None \<Rightarrow> (Inr (), slot_setItem playerHeldSlot None w)))"

definition clearHeldItem :: "Player \<Rightarrow> World \<Rightarrow> (error + unit) \<times> World" where
  "clearHeldItem player w =
     (case getHeldSlot w player of
        Inl e \<Rightarrow> (Inl e, w)
      | Inr playerHeldSlot \<Rightarrow> (Inr (), slot_setItem playerHeldSlot None w))"

datatype ContainerOrEntity = IsContainer Container | IsEntity Entity

definition getContainerSlots :: "World \<Rightarrow> ContainerOrEntity \<Rightarrow> (ItemStack option \<times> nat) list" where
  \<comment> \<open>each slot, read by its item, with its index\<close>
  "getContainerSlots w containerOrEntity =
     (let container = (case containerOrEntity of
                         IsEntity e \<Rightarrow> getEntityContainer w e
                       | IsContainer c \<Rightarrow> Some c)
      in case container of
           None \<Rightarrow> []
         | Some c \<Rightarrow> zip c [0 ..< length c])"

definition getAvailableSpaceForItemStack ::
  "World \<Rightarrow> ContainerOrEntity \<Rightarrow> ItemStack \<Rightarrow> bool \<Rightarrow> int" where
  "getAvailableSpaceForItemStack w containerOrEntity itemstack onlyConsiderExistingStacks =
     (let slots = getContainerSlots w containerOrEntity;
          itemStackMaxCount = maxAmount itemstack
      in foldl (\<lambda>totalAvailableSpace (currentSlotItem, index).
                  case currentSlotItem of
                    None \<Rightarrow>
                      if \<not> onlyConsiderExistingStacks
                      then totalAvailableSpace + itemStackMaxCount
                      else totalAvailableSpace
                  | Some current \<Rightarrow>
                      if typeId current = typeId itemstack
                      then totalAvailableSpace + (itemStackMaxCount - amount current)
                      else totalAvailableSpace)
           0 slots)"

definition giveEntityItems :: "Host \<Rightarrow> Entity \<Rightarrow> ItemStack \<Rightarrow> World \<Rightarrow> int \<times> World" where
  "giveEntityItems h entity itemStack w =
     (case getEntityContainer w entity of
        None \<Rightarrow> (amount itemStack, w)
      | Some container \<Rightarrow>
          (let availableSpace =
                 getAvailableSpaceForItemStack w (IsContainer container) itemStack False;
               itemsToAdd = min (amount itemStack) availableSpace;
               w' = (if 0 < itemsToAdd
                     then container_addItem h entity
                            (newItemStack h (typeId itemStack) itemsToAdd) w
                     else w)
           in (amount itemStack - itemsToAdd, w')))"

subsection \<open>Strings\<close>

fun split :: "char \<Rightarrow> string \<Rightarrow> string list" where
  \<comment> \<open>\<open>str.split(sep)\<close> for a separator of one character\<close>
  "split sep [] = [[]]"
| "split sep (c # cs) =
     (if c = sep then [] # split sep cs
      else (case split sep cs of
              [] \<Rightarrow> [[c]]
            | part # parts \<Rightarrow> (c # part) # parts))"

definition element :: "'a list \<Rightarrow> nat \<Rightarrow> 'a option" where
  \<comment> \<open>\<open>array[i]\<close>, \<open>undefined\<close> past the end\<close>
  "element xs i = (if i < length xs then Some (xs ! i) else None)"

definition startsWith :: "string \<Rightarrow> string \<Rightarrow> bool" where
  "startsWith str pre \<longleftrightarrow> take (length pre) str = pre"

fun String_includes :: "string \<Rightarrow> string \<Rightarrow> bool" where
  \<comment> \<open>\<open>str.includes(part)\<close>\<close>
  "String_includes [] part = (part = [])"
| "String_includes (c # cs) part = (startsWith (c # cs) part \<or> String_includes cs part)"

definition interpolate :: "string option \<Rightarrow> string" where
  \<comment> \<open>a value inside a template literal\<close>
  "interpolate v = (case v of None \<Rightarrow> ''undefined'' | Some str \<Rightarrow> str)"

subsection \<open>main: random helpers\<close>

definition getRandomFloat :: "jsnum \<Rightarrow> jsnum \<Rightarrow> World \<Rightarrow> (error + jsnum) \<times> World" where
  "getRandomFloat lo hi w =
     (if hi < lo then (Inl (Error ''Min should not be greater than max.''), w)
      else (let (r, w') = Math_random w;
                randomFloat = r * (hi - lo) + lo
            in (Inr (Math_round (randomFloat * Num 10) / Num 10), w')))"

definition getRandomInt :: "jsnum \<Rightarrow> jsnum \<Rightarrow> World \<Rightarrow> (error + jsnum) \<times> World" where
  "getRandomInt lo hi w =
     (if hi < lo then (Inl (Error ''min should be less than or equal to max''), w)
      else (let (r, w') = Math_random w
            in (Inr (Math_floor (r * (hi - lo + Num 1)) + lo), w')))"

subsection \<open>ItemUtils\<close>

definition Block_center :: "Block \<Rightarrow> real Vector3" where
  "Block_center block =
     Vector3 (of_int (vx block) + 1 / 2) (of_int (vy block) + 1 / 2) (of_int (vz block) + 1 / 2)"

definition Block_location :: "Block \<Rightarrow> real Vector3" where
  "Block_location block = Vector3 (of_int (vx block)) (of_int (vy block)) (of_int (vz block))"

definition spawnItems :: "Host \<Rightarrow> Block \<Rightarrow> string \<Rightarrow> int \<Rightarrow> World \<Rightarrow> World" where
  "spawnItems h block itemId quantity w =
     w\<lparr>spawnedItems := spawnedItems w @ [(newItemStack h itemId quantity, Block_center block)]\<rparr>"

definition successProbability :: jsnum where
  "successProbability = Num 8 / Num 15"

function additionalDropsLoop :: "int \<Rightarrow> int \<Rightarrow> int \<Rightarrow> World \<Rightarrow> int \<times> World" where
  \<comment> \<open>\<open>for (let i = 0; i < trials; i++)\<close>, from \<open>i\<close> on\<close>
  "additionalDropsLoop i trials additionalDrops w =
     (if i < trials
      then (let (r, w') = Math_random w
            in additionalDropsLoop (i + 1) trials
                 (if r < successProbability then additionalDrops + 1 else additionalDrops) w')
      else (additionalDrops, w))"
  by pat_completeness auto
termination
  by (relation "measure (\<lambda>(i, trials, additionalDrops, w). nat (trials - i))") auto

declare additionalDropsLoop.simps [simp del]

definition calculateDrops :: "int \<Rightarrow> World \<Rightarrow> jsnum \<times> World" where
  "calculateDrops fortuneLevel w =
     (let clampedFortune = max 0 (min fortuneLevel 3);
          (r, w1) = Math_random w;
          initialDrops = Math_floor (r * toNum (clampedFortune + 1)) + Num 1;
          trials = 3 + clampedFortune;
          (additionalDrops, w2) = additionalDropsLoop 0 trials 0 w1
      in (initialDrops + toNum additionalDrops, w2))"

definition getFortuneLevel :: "ItemStack \<Rightarrow> int" where
  "getFortuneLevel itemStack =
     (case enchantable itemStack of
        None \<Rightarrow> 0
      | Some enchantComponent \<Rightarrow>
          (case enchantComponent ''fortune'' of
             None \<Rightarrow> 0
           | Some level \<Rightarrow> level))"

definition getDropCount :: "ItemStack option \<Rightarrow> World \<Rightarrow> jsnum \<times> World" where
  "getDropCount itemStack w =
     (let fortuneLevel = (case itemStack of None \<Rightarrow> 0 | Some i \<Rightarrow> getFortuneLevel i)
      in calculateDrops fortuneLevel w)"

definition isItemSeed :: "string \<Rightarrow> bool" where
  "isItemSeed itemId \<longleftrightarrow>
     itemId \<in> set [''minecraft:wheat_seeds'', ''minecraft:beetroot_seeds'',
                    ''minecraft:carrot'', ''minecraft:potato'']"

definition getItemPropertyTag :: "ItemStack \<Rightarrow> string \<Rightarrow> string option" where
  "getItemPropertyTag itemStack propertyName =
     (let itemTags = tags itemStack
      in case find (\<lambda>tag. startsWith tag propertyName) itemTags of
           None \<Rightarrow> None
         | Some tag \<Rightarrow> element (split CHR '':'' tag) 1)"

subsection \<open>BlockUtils: classification and single crops\<close>

definition Block_typeId :: "World \<Rightarrow> Block \<Rightarrow> string" where
  "Block_typeId w block = blockTypeId (cells w block)"

definition Block_setType :: "Host \<Rightarrow> Block \<Rightarrow> string \<Rightarrow> World \<Rightarrow> World" where
  \<comment> \<open>\<open>block.setType(id)\<close>: the cell holds the default permutation of the new type\<close>
  "Block_setType h block newType w =
     w\<lparr>cells := (cells w)(block := \<lparr>blockTypeId = newType, states = defaultStates h newType\<rparr>)\<rparr>"

definition isBlockScytheDestructable :: "Host \<Rightarrow> World \<Rightarrow> Block \<Rightarrow> bool" where
  "isBlockScytheDestructable h w block \<longleftrightarrow> Block_typeId w block \<in> set (scytheDestructable h)"

definition destroyBlock :: "Host \<Rightarrow> Block \<Rightarrow> World \<Rightarrow> World" where
  \<comment> \<open>the command \<open>setblock x y z air destroy\<close>\<close>
  "destroyBlock h block w =
     (Block_setType h block ''minecraft:air'' w)\<lparr>destroyed := destroyed w @ [block]\<rparr>"

definition isBlockCrop :: "World \<Rightarrow> Block \<Rightarrow> bool" where
  "isBlockCrop w block \<longleftrightarrow>
     Block_typeId w block \<in> set [''minecraft:wheat'', ''minecraft:carrots'',
                                  ''minecraft:potatoes'', ''minecraft:beetroot'']"

definition getBlockState :: "World \<Rightarrow> Block \<Rightarrow> string \<Rightarrow> int option" where
  \<comment> \<open>the value of a numeric state, \<open>None\<close> where the block has no such state\<close>
  "getBlockState w block stateId = states (cells w block) stateId"

definition isCropRipe :: "World \<Rightarrow> Block \<Rightarrow> bool" where
  "isCropRipe w crop \<longleftrightarrow> (let growthStage = getBlockState w crop ''growth'' in growthStage = Some 7)"

definition isBlockSugarcane :: "Host \<Rightarrow> World \<Rightarrow> Block \<Rightarrow> bool" where
  "isBlockSugarcane h w block \<longleftrightarrow>
     (let sugarcaneId = (if \<not> blockTypeExists h ''minecraft:reeds''
                         then ''minecraft:sugarcane'' else ''minecraft:reeds'')
      in Block_typeId w block = sugarcaneId)"

definition isBlockBamboo :: "World \<Rightarrow> Block \<Rightarrow> bool" where
  "isBlockBamboo w block \<longleftrightarrow> Block_typeId w block = ''minecraft:bamboo''"

definition getCropDropItemId :: "World \<Rightarrow> Block \<Rightarrow> string list" where
  "getCropDropItemId w crop =
     (let t = Block_typeId w crop
      in if t = ''minecraft:carrots'' then [''minecraft:carrot'']
         else if t = ''minecraft:potatoes'' then [''minecraft:potato'']
         else if t = ''minecraft:wheat'' then [''minecraft:wheat'', ''minecraft:wheat_seeds'']
         else if t = ''minecraft:beetroot'' then [''minecraft:beetroot'', ''minecraft:beetroot_seeds'']
         else [])"

definition Dimension_getBlock :: "World \<Rightarrow> real Vector3 \<Rightarrow> Block option" where
  \<comment> \<open>\<open>dimension.getBlock(location)\<close>: the block of the cell that holds the location\<close>
  "Dimension_getBlock w blockLocation =
     (let cell = Vector3 \<lfloor>vx blockLocation\<rfloor> \<lfloor>vy blockLocation\<rfloor> \<lfloor>vz blockLocation\<rfloor>
      in if loaded w cell then Some cell else None)"

definition finitePosition :: "jsnum Vector3 \<Rightarrow> real Vector3 option" where
  \<comment> \<open>the position that three finite numbers denote\<close>
  "finitePosition v =
     (case (vx v, vy v, vz v) of
        (Num x, Num y, Num z) \<Rightarrow> Some (Vector3 (of_rat x) (of_rat y) (of_rat z))
      | _ \<Rightarrow> None)"

definition getBlock :: "World \<Rightarrow> jsnum Vector3 \<Rightarrow> error + Block option" where
  \<comment> \<open>\<open>getBlock(blockLocation, dimension)\<close>. What the host does with a location that has a
      \<open>NaN\<close> or infinite coordinate is not the scripts' to decide: the model ends there
      with \<open>NaNLocation\<close>.\<close>
  "getBlock w blockLocation =
     (case finitePosition blockLocation of
        None \<Rightarrow> Inl NaNLocation
      | Some position \<Rightarrow> Inr (Dimension_getBlock w position))"

definition harvestDrop ::
  "Host \<Rightarrow> Block \<Rightarrow> Player \<Rightarrow> ItemStack option \<Rightarrow> string \<Rightarrow> World \<Rightarrow> World" where
  \<comment> \<open>the body of \<open>dropItemIds.forEach\<close> in \<open>harvestCrop\<close>\<close>
  "harvestDrop h crop player scythe itemId w =
     (let (drops, w1) = getDropCount scythe w;
          dropQuantity = (if isItemSeed itemId then drops - Num 1 else drops);
          (remainder, w2) =
             (if Num 0 < dropQuantity
              then giveEntityItems h (entityId player)
                     (newItemStack h itemId (asInteger dropQuantity)) w1
              else (0, w1))
      in if 0 < remainder then spawnItems h crop itemId remainder w2 else w2)"

definition harvestCrop :: "Host \<Rightarrow> Block \<Rightarrow> Player \<Rightarrow> World \<Rightarrow> (error + unit) \<times> World" where
  "harvestCrop h crop player w =
     (case getHeldItem w player of
        Inl e \<Rightarrow> (Inl e, w)
      | Inr scythe \<Rightarrow>
          (let cropName = element (split CHR '':'' (Block_typeId w crop)) 1
           in if \<not> isCropRipe w crop then (Inr (), w)
              else (let dropItemIds = getCropDropItemId w crop;
                        w1 = foldl (\<lambda>w' itemId. harvestDrop h crop player scythe itemId w')
                               w dropItemIds
                    in (Inr (), Block_setType h crop (''djc:fake_'' @ interpolate cropName) w1))))"

subsection \<open>BlockUtils: stacked plants\<close>

definition Block_above :: "World \<Rightarrow> Block \<Rightarrow> Block option" where
  \<comment> \<open>\<open>block.above()\<close>\<close>
  "Block_above w block =
     Dimension_getBlock w (Vector3 (of_int (vx block)) (of_int (vy block) + 1) (of_int (vz block)))"

definition isBlockWithinDistance :: "Block \<Rightarrow> Player \<Rightarrow> jsnum \<Rightarrow> bool" where
  "isBlockWithinDistance block player distance =
     (let blockLocation = Vector3 (toNum (vx block)) (toNum (vy block)) (toNum (vz block));
          playerLocation = location player;
          squaredDistance = square (vx blockLocation - vx playerLocation)
                          + square (vy blockLocation - vy playerLocation)
                          + square (vz blockLocation - vz playerLocation)
      in squaredDistance \<le> square distance)"

definition harvestSinglePlant ::
  "Host \<Rightarrow> Player \<Rightarrow> Block \<Rightarrow> string \<Rightarrow> string \<Rightarrow> int \<Rightarrow> World \<Rightarrow> (error + unit) \<times> World" where
  \<comment> \<open>\<open>getFortuneLevel\<close> reads a component of the held item: an empty hand is a \<open>TypeError\<close>\<close>
  "harvestSinglePlant h player block dropId fakeBlockId defaultQuantity w =
     (case getHeldItem w player of
        Inl e \<Rightarrow> (Inl e, w)
      | Inr None \<Rightarrow> (Inl TypeError, w)
      | Inr (Some held) \<Rightarrow>
          (let fortuneLevel = getFortuneLevel held
           in case getRandomInt (Num 0) (toNum fortuneLevel) w of
                (Inl e, w1) \<Rightarrow> (Inl e, w1)
              | (Inr extra, w1) \<Rightarrow>
                  (let (remainder, w2) =
                         giveEntityItems h (entityId player)
                           (newItemStack h dropId (asInteger (toNum defaultQuantity + extra))) w1;
                       w3 = (if 0 < remainder then spawnItems h block dropId remainder w2 else w2)
                   in if isBlockWithinDistance block player (Num 10)
                      then (Inr (), Block_setType h block fakeBlockId w3)
                      else (Inr (), Block_setType h block ''minecraft:air'' w3))))"

definition maxY :: real where
  "maxY = 319"

function stackedPlantLoop :: "World \<Rightarrow> Block \<Rightarrow> int \<Rightarrow> Block list \<Rightarrow> error + Block list" where
  \<comment> \<open>\<open>while (proceed)\<close> in \<open>getStackedPlant\<close>, at \<open>step\<close> with the blocks found so far\<close>
  "stackedPlantLoop w bottomPlant step found =
     (let origin = Block_location bottomPlant;
          plantId = Block_typeId w bottomPlant
      in case addVectors (Some origin) (Some (Vector3 0 (of_int step) 0)) of
           Inl e \<Rightarrow> Inl e
         | Inr currentLocation \<Rightarrow>
             if maxY < vy currentLocation then Inr found
             else (case Dimension_getBlock w currentLocation of
                     None \<Rightarrow> Inr found
                   | Some currentBlock \<Rightarrow>
                       if Block_typeId w currentBlock \<noteq> plantId then Inr found
                       else stackedPlantLoop w bottomPlant (step + 1) (found @ [currentBlock])))"
  by pat_completeness auto
termination
  by (relation "measure (\<lambda>(w, bottomPlant, step, found). nat (320 - (vy bottomPlant + step)))")
     (auto simp: addVectors_def Block_location_def maxY_def)

declare stackedPlantLoop.simps [simp del]

definition getStackedPlant :: "World \<Rightarrow> Block option \<Rightarrow> error + Block list" where
  \<comment> \<open>reading \<open>bottomPlant.dimension\<close> of \<open>undefined\<close> is a \<open>TypeError\<close>\<close>
  "getStackedPlant w bottomPlant =
     (case bottomPlant of
        None \<Rightarrow> Inl TypeError
      | Some bottom \<Rightarrow> stackedPlantLoop w bottom 1 [])"

definition getSupportBlock :: "Host \<Rightarrow> Block \<Rightarrow> World \<Rightarrow> Block option \<times> World" where
  "getSupportBlock h startBlock w =
     (let plantId = Block_typeId w startBlock;
          origin = Block_center startBlock;
          direction = Vector3 0 (- 1) 0
      in case getBlockFromRay h w origin direction [plantId] of
           None \<Rightarrow> (None, w\<lparr>warnings := warnings w @ [''Support block could not be found for: '' @ plantId]\<rparr>)
         | Some hit \<Rightarrow> (Some hit, w))"

fun forEach :: "('a \<Rightarrow> World \<Rightarrow> (error + unit) \<times> World) \<Rightarrow> 'a list \<Rightarrow> World \<Rightarrow> (error + unit) \<times> World" where
  \<comment> \<open>\<open>array.forEach(callback)\<close>; an exception in the callback ends the iteration\<close>
  "forEach callback [] w = (Inr (), w)"
| "forEach callback (a # as) w =
     (case callback a w of
        (Inl e, w') \<Rightarrow> (Inl e, w')
      | (Inr u, w') \<Rightarrow> forEach callback as w')"

definition harvestSugarcane :: "Host \<Rightarrow> Block \<Rightarrow> Player \<Rightarrow> World \<Rightarrow> (error + unit) \<times> World" where
  \<comment> \<open>\<open>supportBlock.above()\<close> on \<open>undefined\<close> is a \<open>TypeError\<close>\<close>
  "harvestSugarcane h block player w =
     (case getSupportBlock h block w of
        (None, w1) \<Rightarrow> (Inl TypeError, w1)
      | (Some supportBlock, w1) \<Rightarrow>
          (let bottomSugarcane = Block_above w1 supportBlock
           in case getStackedPlant w1 bottomSugarcane of
                Inl e \<Rightarrow> (Inl e, w1)
              | Inr sugarcaneBlocks \<Rightarrow>
                  forEach (\<lambda>sugarCane. harvestSinglePlant h player sugarCane
                                          ''minecraft:sugar_cane'' ''djc:fake_sugar_cane'' 1)
                    sugarcaneBlocks w1))"

definition harvestBamboo :: "Host \<Rightarrow> Block \<Rightarrow> Player \<Rightarrow> World \<Rightarrow> (error + unit) \<times> World" where
  "harvestBamboo h block player w =
     (case getSupportBlock h block w of
        (None, w1) \<Rightarrow> (Inl TypeError, w1)
      | (Some supportBlock, w1) \<Rightarrow>
          (let bottomBamboo = Block_above w1 supportBlock
           in case getStackedPlant w1 bottomBamboo of
                Inl e \<Rightarrow> (Inl e, w1)
              | Inr bambooBlocks \<Rightarrow>
                  forEach (\<lambda>bamboo. harvestSinglePlant h player bamboo
                                       ''minecraft:bamboo'' ''djc:fake_bamboo'' 1)
                    bambooBlocks w1))"

subsection \<open>BlockUtils: the sweep\<close>

fun someAt :: "Block option list \<Rightarrow> jsnum Vector3 \<Rightarrow> error + bool" where
  \<comment> \<open>\<open>blocks.some((b) => b.x === l.x && b.y === l.y && b.z === l.z)\<close>; reading \<open>b.x\<close> of an
      \<open>undefined\<close> entry is a \<open>TypeError\<close>\<close>
  "someAt [] l = Inr False"
| "someAt (None # bs) l = Inl TypeError"
| "someAt (Some b # bs) l =
     (if strictEquals (toNum (vx b)) (vx l) \<and> strictEquals (toNum (vy b)) (vy l)
         \<and> strictEquals (toNum (vz b)) (vz l)
      then Inr True
      else someAt bs l)"

text \<open>
  The inner loop \<open>for (let angle = -arcWidth / 2; angle <= arcWidth / 2; angle += 1)\<close>, from
  \<open>angle\<close> on. \<open>center\<close> is the floored position of the player, \<open>direction\<close> the normalised
  horizontal view direction. In binary64 \<open>angle + 1\<close> is \<open>angle\<close> again once the angle is
  large, and the loop then never ends: not returning is the value \<open>None\<close>. Both blocks
  are looked up before the list is searched for duplicates.
\<close>

partial_function (option) sweepAngles ::
  "Host \<Rightarrow> World \<Rightarrow> jsnum Vector3 \<Rightarrow> jsnum \<times> jsnum \<Rightarrow> jsnum \<Rightarrow> jsnum \<Rightarrow> jsnum
     \<Rightarrow> Block option list \<Rightarrow> (error + Block option list) option" where
  "sweepAngles h w center direction arcWidth distance angle found =
     (if angle \<le> arcWidth / Num 2
      then (let angleRadians = angle * (Math_PI / Num 180);
                sweepX = fst direction * Math_cos h angleRadians
                       - snd direction * Math_sin h angleRadians;
                sweepZ = fst direction * Math_sin h angleRadians
                       + snd direction * Math_cos h angleRadians;
                targetX = vx center + Math_round (sweepX * distance);
                targetZ = vz center + Math_round (sweepZ * distance);
                currentLevelBlockLocation = Vector3 targetX (vy center) targetZ;
                upperLevelBlockLocation = Vector3 targetX (vy center + Num 1) targetZ
            in case getBlock w currentLevelBlockLocation of
                 Inl e \<Rightarrow> Some (Inl e)
               | Inr currentLevelBlock \<Rightarrow>
                   (case getBlock w upperLevelBlockLocation of
                      Inl e \<Rightarrow> Some (Inl e)
                    | Inr upperLevelBlock \<Rightarrow>
                        (case someAt found currentLevelBlockLocation of
                           Inl e \<Rightarrow> Some (Inl e)
                         | Inr isCurrentDuplicate \<Rightarrow>
                             (case someAt found upperLevelBlockLocation of
                                Inl e \<Rightarrow> Some (Inl e)
                              | Inr isUpperDuplicate \<Rightarrow>
                                  sweepAngles h w center direction arcWidth distance
                                    (angle + Num 1)
                                    (found
                                     @ (if \<not> isCurrentDuplicate then [currentLevelBlock] else [])
                                     @ (if \<not> isUpperDuplicate then [upperLevelBlock] else []))))))
      else Some (Inr found))"

text \<open>
  The outer loop \<open>for (let distance = 1; distance <= arcRange; distance++)\<close>. The range is
  the result of \<open>parseInt\<close>; no distance is below \<open>NaN\<close>.
\<close>

partial_function (option) sweepDistances ::
  "Host \<Rightarrow> World \<Rightarrow> jsnum Vector3 \<Rightarrow> jsnum \<times> jsnum \<Rightarrow> jsnum \<Rightarrow> jsnum \<Rightarrow> jsnum
     \<Rightarrow> Block option list \<Rightarrow> (error + Block option list) option" where
  "sweepDistances h w center direction arcWidth arcRange distance found =
     (if distance \<le> arcRange
      then (case sweepAngles h w center direction arcWidth distance
                   (negate arcWidth / Num 2) found of
              None \<Rightarrow> None
            | Some (Inl e) \<Rightarrow> Some (Inl e)
            | Some (Inr found') \<Rightarrow>
                sweepDistances h w center direction arcWidth arcRange (distance + Num 1) found')
      else Some (Inr found))"

definition getBlocksInSweep ::
  "Host \<Rightarrow> World \<Rightarrow> Player \<Rightarrow> jsnum \<Rightarrow> jsnum \<Rightarrow> (error + Block option list) option" where
  \<comment> \<open>\<open>halfArcWidthCos\<close> is computed and never used\<close>
  "getBlocksInSweep h w player arcWidth arcRange =
     (let playerLocation = location player;
          center = Vector3 (Math_floor (vx playerLocation)) (Math_floor (vy playerLocation))
                     (Math_floor (vz playerLocation));
          view = viewDirection player;
          horizontalMagnitude = Math_sqrt (square (vx view) + square (vz view));
          direction = (vx view / horizontalMagnitude, vz view / horizontalMagnitude)
      in case sweepDistances h w center direction arcWidth arcRange (Num 1) [] of
           None \<Rightarrow> None
         | Some (Inl e) \<Rightarrow> Some (Inl e)
         | Some (Inr found) \<Rightarrow>
             (case addVectors (Some (location player)) (Some (Vector3 (Num 0) (Num 1) (Num 0))) of
                Inl e \<Rightarrow> Some (Inl e)
              | Inr aboveActor \<Rightarrow>
                  (case getBlock w aboveActor of
                     Inl e \<Rightarrow> Some (Inl e)
                   | Inr block \<Rightarrow> Some (Inr (found @ [block])))))"

subsection \<open>Sequencing with exceptions\<close>

definition andThen ::
  "(World \<Rightarrow> (error + 'a) \<times> World) \<Rightarrow> ('a \<Rightarrow> World \<Rightarrow> (error + 'b) \<times> World)
     \<Rightarrow> World \<Rightarrow> (error + 'b) \<times> World" where
  \<comment> \<open>one statement after another; an exception skips what follows and keeps the world
      as it is at the throw\<close>
  "andThen first following w =
     (case first w of
        (Inl e, w') \<Rightarrow> (Inl e, w')
      | (Inr a, w') \<Rightarrow> following a w')"

definition succeed :: "'a \<Rightarrow> World \<Rightarrow> (error + 'a) \<times> World" where
  "succeed a w = (Inr a, w)"

definition effect :: "(World \<Rightarrow> World) \<Rightarrow> World \<Rightarrow> (error + unit) \<times> World" where
  "effect change w = (Inr (), change w)"

definition player_playSound :: "Player \<Rightarrow> string \<Rightarrow> World \<Rightarrow> World" where
  \<comment> \<open>\<open>player.playSound(id, options)\<close>; pitch and volume are not recorded\<close>
  "player_playSound player soundId w = w\<lparr>sounds := sounds w @ [(entityId player, soundId)]\<rparr>"

subsection \<open>BlockUtils: harvesting and destroying along the sweep\<close>

fun harvestBlocks ::
  "Host \<Rightarrow> Player \<Rightarrow> Block option list \<Rightarrow> int \<Rightarrow> World \<Rightarrow> (error + int) \<times> World" where
  \<comment> \<open>\<open>for (let block of blocksToHarvest)\<close> in \<open>multiHarvestArc\<close>, with the count so far;
      reading \<open>block.typeId\<close> of \<open>undefined\<close> is a \<open>TypeError\<close>\<close>
  "harvestBlocks h player [] processedBlockCount w = (Inr processedBlockCount, w)"
| "harvestBlocks h player (None # rest) processedBlockCount w = (Inl TypeError, w)"
| "harvestBlocks h player (Some block # rest) processedBlockCount w =
     (if isBlockCrop w block
      then (if isCropRipe w block
            then (case harvestCrop h block player w of
                    (Inl e, w') \<Rightarrow> (Inl e, w')
                  | (Inr u, w') \<Rightarrow> harvestBlocks h player rest (processedBlockCount + 1) w')
            else harvestBlocks h player rest processedBlockCount w)
      else if isBlockSugarcane h w block
      then (case harvestSugarcane h block player w of
              (Inl e, w') \<Rightarrow> (Inl e, w')
            | (Inr u, w') \<Rightarrow> harvestBlocks h player rest (processedBlockCount + 1) w')
      else if isBlockBamboo w block
      then (case harvestBamboo h block player w of
              (Inl e, w') \<Rightarrow> (Inl e, w')
            | (Inr u, w') \<Rightarrow> harvestBlocks h player rest (processedBlockCount + 1) w')
      else if isBlockScytheDestructable h w block
      then harvestBlocks h player rest (processedBlockCount + 1) (destroyBlock h block w)
      else harvestBlocks h player rest processedBlockCount w)"

definition multiHarvestArc ::
  "Host \<Rightarrow> Player \<Rightarrow> jsnum \<Rightarrow> jsnum \<Rightarrow> World \<Rightarrow> ((error + int) \<times> World) option" where
  \<comment> \<open>\<open>None\<close> where the sweep does not return\<close>
  "multiHarvestArc h player arcWidth arcRange w =
     (case getBlocksInSweep h w player arcWidth arcRange of
        None \<Rightarrow> None
      | Some (Inl e) \<Rightarrow> Some (Inl e, w)
      | Some (Inr blocksToHarvest) \<Rightarrow>
          Some (andThen (getRandomFloat (Num 1) (Num (3 / 2))) (\<lambda>pitch.
                andThen (effect (player_playSound player ''scythe.whoosh'')) (\<lambda>u.
                harvestBlocks h player blocksToHarvest 0)) w))"

fun destroyBlocks ::
  "Host \<Rightarrow> Block option list \<Rightarrow> int \<Rightarrow> World \<Rightarrow> (error + int) \<times> World" where
  \<comment> \<open>\<open>for (let block of blocksToDestroy)\<close> in \<open>destroyBlocksArc\<close>\<close>
  "destroyBlocks h [] processedBlockCount w = (Inr processedBlockCount, w)"
| "destroyBlocks h (None # rest) processedBlockCount w = (Inl TypeError, w)"
| "destroyBlocks h (Some block # rest) processedBlockCount w =
     (if Block_typeId w block \<in> set (scytheDestructable h)
      then destroyBlocks h rest (processedBlockCount + 1) (destroyBlock h block w)
      else destroyBlocks h rest processedBlockCount w)"

definition destroyBlocksArc ::
  "Host \<Rightarrow> Player \<Rightarrow> jsnum \<Rightarrow> jsnum \<Rightarrow> World \<Rightarrow> ((error + int) \<times> World) option" where
  "destroyBlocksArc h player arcWidth arcRange w =
     (case getBlocksInSweep h w player arcWidth arcRange of
        None \<Rightarrow> None
      | Some (Inl e) \<Rightarrow> Some (Inl e, w)
      | Some (Inr blocksToDestroy) \<Rightarrow>
          Some (andThen (getRandomFloat (Num 1) (Num (3 / 2))) (\<lambda>pitch.
                andThen (effect (player_playSound player ''scythe.whoosh'')) (\<lambda>u.
                destroyBlocks h blocksToDestroy 0)) w))"

subsection \<open>The handlers (OnUseOnScytheHarvest, main)\<close>

definition shingFeedback :: "Player \<Rightarrow> ItemStack \<Rightarrow> int \<Rightarrow> World \<Rightarrow> (error + unit) \<times> World" where
  \<comment> \<open>in \<open>onUseOn\<close>: \<open>if (!scythe.typeId.includes("wooden") && ...) { ... }\<close>; the pitch is
      drawn before the sound is played, and \<open>Math.random()\<close> before \<open>harvestAmount > 1\<close> is
      tested\<close>
  "shingFeedback player scythe harvestAmount =
     (if \<not> String_includes (typeId scythe) ''wooden''
         \<and> \<not> String_includes (typeId scythe) ''stone''
      then andThen (getRandomInt (rounded (4 / 5)) (rounded (7 / 5))) (\<lambda>pitch.
           andThen (effect (player_playSound player ''scythe.shing'')) (\<lambda>u.
           andThen (\<lambda>w. let (r, w') = Math_random w in (Inr r, w')) (\<lambda>r.
             if Num 1 / Num 5 < r \<and> 1 < harvestAmount
             then andThen (getRandomInt (rounded (4 / 5)) (rounded (7 / 5))) (\<lambda>pitch'.
                  effect (player_playSound player ''scythe.shing''))
             else succeed ())))
      else succeed ())"

definition wearHeldItem :: "Player \<Rightarrow> ItemStack \<Rightarrow> World \<Rightarrow> (error + unit) \<times> World" where
  \<comment> \<open>the same lines in both handlers, from \<open>const modifiedItem = item.clone()\<close> to
      \<open>setHeldItem(player, modifiedItem)\<close>: reading \<open>durability.damage\<close> of a missing component
      is a \<open>TypeError\<close>, and the clone with the raised damage is the record update\<close>
  "wearHeldItem player item =
     (case durability item of
        None \<Rightarrow> (\<lambda>w. (Inl TypeError, w))
      | Some d \<Rightarrow>
          if maxDurability d < damage d + 1
          then andThen (clearHeldItem player) (\<lambda>u.
               effect (player_playSound player ''random.break''))
          else setHeldItem player (Some (item\<lparr>durability := Some (d\<lparr>damage := damage d + 1\<rparr>)\<rparr>)))"

definition onUseOn ::
  "Host \<Rightarrow> Player \<Rightarrow> ItemStack \<Rightarrow> World \<Rightarrow> ((error + unit) \<times> World) option" where
  \<comment> \<open>\<open>OnUseOnScytheHarvest.onUseOn\<close> for the event with source \<open>player\<close> and item stack
      \<open>scythe\<close>\<close>
  "onUseOn h player scythe w =
     (let reach = parseInt h (getItemPropertyTag scythe ''reach'')
      in case multiHarvestArc h player (Num 180) reach w of
           None \<Rightarrow> None
         | Some (Inl e, w1) \<Rightarrow> Some (Inl e, w1)
         | Some (Inr harvestAmount, w1) \<Rightarrow>
             Some (if 0 < harvestAmount
                   then andThen (shingFeedback player scythe harvestAmount) (\<lambda>u.
                        wearHeldItem player scythe) w1
                   else succeed () w1))"

definition entityHitBlock ::
  "Host \<Rightarrow> string \<Rightarrow> Player \<Rightarrow> World \<Rightarrow> ((error + unit) \<times> World) option" where
  \<comment> \<open>the \<open>entityHitBlock\<close> subscription of \<open>main\<close>, for a damaging entity of type
      \<open>entityTypeId\<close>\<close>
  "entityHitBlock h entityTypeId entity w =
     (if entityTypeId \<noteq> ''minecraft:player'' then Some (Inr (), w)
      else (case getHeldItem w entity of
              Inl e \<Rightarrow> Some (Inl e, w)
            | Inr None \<Rightarrow> Some (Inr (), w)
            | Inr (Some heldItem) \<Rightarrow>
                if ''scythe'' \<notin> set (tags heldItem) then Some (Inr (), w)
                else if typeId heldItem \<noteq> ''djc:wooden_scythe''
                then (let reach = parseInt h (getItemPropertyTag heldItem ''reach'')
                      in case destroyBlocksArc h entity (Num 180) reach w of
                           None \<Rightarrow> None
                         | Some (Inl e, w1) \<Rightarrow> Some (Inl e, w1)
                         | Some (Inr processedBlockCount, w1) \<Rightarrow>
                             Some (if 0 < processedBlockCount then wearHeldItem entity heldItem w1
                                   else succeed () w1))
                else Some (Inr (), w)))"

section \<open>What the theorems observe\<close>

text \<open>
  Predicates and measures that the theorems use to speak about the code: the well-formed
  data of the host, what a run added to containers or spawned, the shape of a plant
  column, the state of the held tool.
\<close>

definition tiny :: rat where
  \<comment> \<open>half the spacing of the subnormal numbers\<close>
  "tiny = 1 / 2 ^ 1075"

definition valueOf :: "jsnum \<Rightarrow> rat" where
  \<comment> \<open>the value of a finite number\<close>
  "valueOf a = (case a of Num q \<Rightarrow> q | _ \<Rightarrow> 0)"

text \<open>The round trip \<open>subtractVectors(addVectors(a, b), b)\<close>, with the exception passed on.\<close>

definition addThenSubtract :: "'a::{plus,minus} Vector3 \<Rightarrow> 'a Vector3 \<Rightarrow> error + 'a Vector3" where
  "addThenSubtract a b =
     (case addVectors (Some a) (Some b) of
        Inl e \<Rightarrow> Inl e
      | Inr s \<Rightarrow> subtractVectors (Some s) (Some b))"

definition finiteNum :: "jsnum \<Rightarrow> bool" where
  "finiteNum u = (case u of Num a \<Rightarrow> representable a | _ \<Rightarrow> False)"

definition finiteVector :: "jsnum Vector3 \<Rightarrow> bool" where
  "finiteVector v \<longleftrightarrow> finiteNum (vx v) \<and> finiteNum (vy v) \<and> finiteNum (vz v)"

definition exactSum :: "jsnum \<Rightarrow> jsnum \<Rightarrow> bool" where
  \<comment> \<open>the mathematical sum of two finite numbers is itself a finite binary64 value\<close>
  "exactSum u v =
     (case (u, v) of
        (Num a, Num b) \<Rightarrow> representable a \<and> representable b \<and> representable (a + b)
      | _ \<Rightarrow> False)"

text \<open>
  The host keeps every stack within the stack size of its type: a count of at least one
  and at most \<open>maxAmount\<close>, which is the same for all stacks of one type.
\<close>

definition hostStack :: "Host \<Rightarrow> ItemStack \<Rightarrow> bool" where
  "hostStack h s \<longleftrightarrow> maxAmount s = stackSize h (typeId s) \<and> 1 \<le> amount s \<and> amount s \<le> maxAmount s"

definition hostContainer :: "Host \<Rightarrow> Container \<Rightarrow> bool" where
  "hostContainer h c \<longleftrightarrow> list_all (\<lambda>slot. case slot of None \<Rightarrow> True | Some s \<Rightarrow> hostStack h s) c"

definition totalDeposited :: "World \<Rightarrow> int" where
  "totalDeposited w = sum_list (map (\<lambda>(entity, itemStack). amount itemStack) (deposits w))"

definition totalSpawned :: "World \<Rightarrow> int" where
  "totalSpawned w = sum_list (map (\<lambda>(itemStack, place). amount itemStack) (spawnedItems w))"

definition unitRandoms :: "World \<Rightarrow> bool" where
  \<comment> \<open>every value of the random source is a binary64 number in \<open>[0, 1)\<close>, as
      \<open>Math.random()\<close> promises\<close>
  "unitRandoms w \<longleftrightarrow>
     (\<forall>k. representable (randoms w k) \<and> 0 \<le> randoms w k \<and> randoms w k < 1)"

definition successes :: "(nat \<Rightarrow> rat) \<Rightarrow> nat \<Rightarrow> nat \<Rightarrow> int" where
  \<comment> \<open>how many of the \<open>n\<close> draws from position \<open>start\<close> on are below the binary64
      quotient \<open>8 / 15\<close>\<close>
  "successes rs start n =
     int (length (filter (\<lambda>k. rs (start + k) < fl (8 / 15)) [0 ..< n]))"

definition dropBase :: "(nat \<Rightarrow> rat) \<Rightarrow> nat \<Rightarrow> int \<Rightarrow> int" where
  \<comment> \<open>the base count for the draw at position \<open>pos\<close> at the clamped fortune level \<open>f\<close>: the
      floor of the binary64 product, plus one\<close>
  "dropBase rs pos f = \<lfloor>fl (rs pos * of_int (f + 1))\<rfloor> + 1"

definition shiftUp :: "Block \<Rightarrow> nat \<Rightarrow> Block" where
  \<comment> \<open>the cell \<open>i\<close> levels above\<close>
  "shiftUp block i = Vector3 (vx block) (vy block + int i) (vz block)"

definition plantColumn :: "World \<Rightarrow> Block \<Rightarrow> nat \<Rightarrow> bool" where
  \<comment> \<open>from \<open>bottom\<close> up there are exactly \<open>n\<close> blocks of the type of \<open>bottom\<close>, the topmost
      within the build height\<close>
  "plantColumn w bottom n \<longleftrightarrow>
     0 < n
     \<and> (\<forall>i < n. loaded w (shiftUp bottom i)
                 \<and> Block_typeId w (shiftUp bottom i) = Block_typeId w bottom)
     \<and> \<not> (loaded w (shiftUp bottom n)
           \<and> Block_typeId w (shiftUp bottom n) = Block_typeId w bottom)
     \<and> vy bottom + int n - 1 \<le> 319"

subsection \<open>What a harvest hands out\<close>

definition hostKeepsStacks :: "Host \<Rightarrow> bool" where
  \<comment> \<open>every item type stacks to at least one, and \<open>Container.addItem\<close> leaves a container
      whose stacks are within the stack sizes\<close>
  "hostKeepsStacks h \<longleftrightarrow>
     (\<forall>t. 1 \<le> stackSize h t) \<and> (\<forall>c s. hostContainer h c \<longrightarrow> hostContainer h (addItem h c s))"

definition hasInventory :: "Host \<Rightarrow> World \<Rightarrow> Player \<Rightarrow> bool" where
  "hasInventory h w player \<longleftrightarrow>
     (case containers w (entityId player) of None \<Rightarrow> False | Some c \<Rightarrow> hostContainer h c)"

definition depositedTo :: "Entity \<Rightarrow> string \<Rightarrow> World \<Rightarrow> int" where
  \<comment> \<open>how many items of a type were added to the container of an entity\<close>
  "depositedTo entity itemId w =
     sum_list (map (\<lambda>(e, s). if e = entity \<and> typeId s = itemId then amount s else 0)
                   (deposits w))"

definition spawnedAt :: "real Vector3 \<Rightarrow> string \<Rightarrow> World \<Rightarrow> int" where
  \<comment> \<open>how many items of a type were spawned at a place\<close>
  "spawnedAt place itemId w =
     sum_list (map (\<lambda>(s, p). if p = place \<and> typeId s = itemId then amount s else 0)
                   (spawnedItems w))"

definition handedOut :: "Player \<Rightarrow> Block \<Rightarrow> string \<Rightarrow> World \<Rightarrow> int" where
  \<comment> \<open>items of a type added to the player's inventory or spawned at the centre of the block\<close>
  "handedOut player block itemId w =
     depositedTo (entityId player) itemId w + spawnedAt (Block_center block) itemId w"

definition handedOutBy :: "Player \<Rightarrow> Block \<Rightarrow> string \<Rightarrow> World \<Rightarrow> World \<Rightarrow> int" where
  \<comment> \<open>what the step from \<open>w\<close> to \<open>w'\<close> handed out\<close>
  "handedOutBy player block itemId w w' =
     handedOut player block itemId w' - handedOut player block itemId w"

definition allHandedOutBy :: "World \<Rightarrow> World \<Rightarrow> int" where
  \<comment> \<open>all items added to any container or spawned anywhere by the step from \<open>w\<close> to \<open>w'\<close>\<close>
  "allHandedOutBy w w' =
     (totalDeposited w' + totalSpawned w') - (totalDeposited w + totalSpawned w)"

definition clampedFortune :: "ItemStack option \<Rightarrow> int" where
  \<comment> \<open>the level of the fortune enchantment on the held item, 0 for an empty hand, for an
      item that cannot be enchanted and for one without fortune, clamped to \<open>[0, 3]\<close>\<close>
  "clampedFortune held =
     max 0 (min (case held of
                   None \<Rightarrow> 0
                 | Some i \<Rightarrow>
                     (case enchantable i of
                        None \<Rightarrow> 0
                      | Some levels \<Rightarrow> (case levels ''fortune'' of None \<Rightarrow> 0 | Some level \<Rightarrow> level)))
            3)"

definition fakeVariant :: "string \<Rightarrow> string" where
  \<comment> \<open>\<open>minecraft:name\<close> becomes \<open>djc:fake_name\<close>\<close>
  "fakeVariant t = ''djc:fake_'' @ drop (length ''minecraft:'') t"

definition dropSample :: "(nat \<Rightarrow> rat) \<Rightarrow> nat \<Rightarrow> int \<Rightarrow> int" where
  \<comment> \<open>the count \<open>calculateDrops\<close> samples at the clamped fortune level \<open>f\<close> when its first draw
      is the one at position \<open>pos\<close>: base plus bonus\<close>
  "dropSample rs pos f = dropBase rs pos f + successes rs (pos + 1) (nat (3 + f))"

definition seedShare :: "string \<Rightarrow> int" where
  \<comment> \<open>the one item of a seed id that replants the crop\<close>
  "seedShare itemId = (if isItemSeed itemId then 1 else 0)"

definition spaceFor :: "Host \<Rightarrow> World \<Rightarrow> Player \<Rightarrow> string \<Rightarrow> int" where
  \<comment> \<open>the room the player's inventory has for items of a type, as
      \<open>getAvailableSpaceForItemStack\<close> counts it\<close>
  "spaceFor h w player itemId =
     getAvailableSpaceForItemStack w (IsEntity (entityId player)) (newItemStack h itemId 1) False"

definition afterDrops ::
  "Host \<Rightarrow> Block \<Rightarrow> Player \<Rightarrow> ItemStack option \<Rightarrow> string list \<Rightarrow> World \<Rightarrow> nat \<Rightarrow> World" where
  \<comment> \<open>the world when \<open>dropItemIds.forEach\<close> has handled the first \<open>k\<close> drop ids\<close>
  "afterDrops h crop player scythe ids w k =
     foldl (\<lambda>w' itemId. harvestDrop h crop player scythe itemId w') w (take k ids)"

definition givenAndSpawned ::
  "Host \<Rightarrow> Player \<Rightarrow> Block \<Rightarrow> string \<Rightarrow> int \<Rightarrow> World \<Rightarrow> World \<Rightarrow> bool" where
  \<comment> \<open>from \<open>w\<close> to \<open>w'\<close>, of \<open>quantity\<close> items of a type as many as the inventory has room
      for were added to it, in one call of \<open>addItem\<close>, and the rest was spawned at the
      centre of the block, in one stack; nothing else was added or spawned\<close>
  "givenAndSpawned h player block itemId quantity w w' \<longleftrightarrow>
     (let given = min quantity (spaceFor h w player itemId)
      in 0 \<le> given
         \<and> deposits w' = deposits w
              @ (if 0 < given then [(entityId player, newItemStack h itemId given)] else [])
         \<and> containers w' =
             containers (if 0 < given
                         then container_addItem h (entityId player) (newItemStack h itemId given) w
                         else w)
         \<and> spawnedItems w' = spawnedItems w
              @ (if given < quantity
                 then [(newItemStack h itemId (quantity - given), Block_center block)] else []))"

definition dropStep :: "Host \<Rightarrow> Player \<Rightarrow> Block \<Rightarrow> string \<Rightarrow> int \<Rightarrow> World \<Rightarrow> World \<Rightarrow> bool" where
  \<comment> \<open>what one pass of the body of \<open>dropItemIds.forEach\<close> establishes\<close>
  "dropStep h player crop itemId f w w' \<longleftrightarrow>
     hasInventory h w' player \<and> cells w' = cells w
     \<and> randoms w' = randoms w \<and> drawn w' = drawn w + nat (4 + f)
     \<and> givenAndSpawned h player crop itemId
          (dropSample (randoms w) (drawn w) f - seedShare itemId) w w'
     \<and> handedOutBy player crop itemId w w' = dropSample (randoms w) (drawn w) f - seedShare itemId
     \<and> (\<forall>j. j \<noteq> itemId \<longrightarrow> handedOutBy player crop j w w' = 0)
     \<and> allHandedOutBy w w' = handedOutBy player crop itemId w w'"

subsection \<open>Where the sweep looks\<close>

definition unitComponent :: "rat \<Rightarrow> rat \<Rightarrow> rat" where
  \<comment> \<open>the first component of the normalised horizontal direction \<open>(a, b)\<close>, as binary64
      arithmetic gives it\<close>
  "unitComponent a b = fl (a / sqrtRounded (fl (fl (a * a) + fl (b * b))))"

definition horizontalStep :: "rat \<Rightarrow> rat \<Rightarrow> int" where
  \<comment> \<open>the step of the sweep along the first axis at distance 1 and angle 0\<close>
  "horizontalStep a b = \<lfloor>unitComponent a b + 1 / 2\<rfloor>"

definition viewWithin :: "Player \<Rightarrow> bool" where
  \<comment> \<open>the horizontal components of the view direction are finite, and the larger of
      their magnitudes lies between \<open>2^-500\<close> and \<open>2^500\<close>, where squaring neither
      underflows nor overflows\<close>
  "viewWithin player \<longleftrightarrow>
     (case (vx (viewDirection player), vz (viewDirection player)) of
        (Num a, Num b) \<Rightarrow>
          representable a \<and> representable b
          \<and> 1 / 2 ^ 500 \<le> max \<bar>a\<bar> \<bar>b\<bar> \<and> max \<bar>a\<bar> \<bar>b\<bar> \<le> 2 ^ 500
      | _ \<Rightarrow> False)"

definition locationWithin :: "Player \<Rightarrow> bool" where
  \<comment> \<open>the coordinates of the player are finite and at most \<open>2^52\<close> in magnitude, where
      adding one to a whole number is exact\<close>
  "locationWithin player \<longleftrightarrow>
     (case (vx (location player), vy (location player), vz (location player)) of
        (Num x, Num y, Num z) \<Rightarrow>
          representable x \<and> representable y \<and> representable z
          \<and> \<bar>x\<bar> \<le> 2 ^ 52 \<and> \<bar>y\<bar> \<le> 2 ^ 52 \<and> \<bar>z\<bar> \<le> 2 ^ 52
      | _ \<Rightarrow> False)"

definition blockAt :: "World \<Rightarrow> Block \<Rightarrow> Block option" where
  \<comment> \<open>the block the host hands out for a cell\<close>
  "blockAt w cell = (if loaded w cell then Some cell else None)"

definition heldSlotOf :: "Player \<Rightarrow> Entity \<times> nat" where
  "heldSlotOf player = (entityId player, selectedSlotIndex player)"

definition holdsSlot :: "World \<Rightarrow> Player \<Rightarrow> bool" where
  \<comment> \<open>the player has an inventory and the selected slot is one of its slots\<close>
  "holdsSlot w player \<longleftrightarrow>
     (case containers w (entityId player) of
        None \<Rightarrow> False
      | Some c \<Rightarrow> selectedSlotIndex player < length c)"

definition wornTool :: "ItemStack \<Rightarrow> ItemStack option" where
  \<comment> \<open>the tool after one point of damage: gone if that exceeds the maximum, else a copy
      with the damage raised by one\<close>
  "wornTool tool =
     (case durability tool of
        None \<Rightarrow> None
      | Some d \<Rightarrow>
          if maxDurability d < damage d + 1 then None
          else Some (tool\<lparr>durability := Some (d\<lparr>damage := damage d + 1\<rparr>)\<rparr>))"

definition breaks :: "ItemStack \<Rightarrow> bool" where
  "breaks tool \<longleftrightarrow>
     (case durability tool of None \<Rightarrow> False | Some d \<Rightarrow> maxDurability d < damage d + 1)"

subsection \<open>The held tool\<close>

definition wearOutcome :: "Player \<Rightarrow> ItemStack \<Rightarrow> World \<Rightarrow> World \<Rightarrow> bool" where
  \<comment> \<open>from \<open>w1\<close>, the world after the pass, to \<open>w'\<close>: the held slot holds the worn tool, or
      nothing when it broke, the only change to a container is that write, and
      \<open>random.break\<close> is the last sound exactly when the tool broke\<close>
  "wearOutcome player tool w1 w' \<longleftrightarrow>
     slot_getItem w' (heldSlotOf player) = wornTool tool
     \<and> containers w' = containers (slot_setItem (heldSlotOf player) (wornTool tool) w1)
     \<and> cells w' = cells w1 \<and> deposits w' = deposits w1 \<and> spawnedItems w' = spawnedItems w1
     \<and> (if breaks tool
         then sounds w' \<noteq> [] \<and> last (sounds w') = (entityId player, ''random.break'')
         else (entityId player, ''random.break'') \<notin> set (drop (length (sounds w1)) (sounds w')))"

section \<open>Example data\<close>

text \<open>
  A host with stacks of 64, a player at \<open>(0.5, 64, 0.5)\<close> looking along the x axis with an
  iron scythe in hand, the same player at other places and with other view directions,
  and a small farm. The sine and cosine of the example host are the
  first terms of their series; the examples run the sweep at the angle 0 only.
\<close>

definition highThenLow :: "nat \<Rightarrow> rat" where
  "highThenLow k = (if k = 0 then 3 / 4 else 0)"

definition exampleWorld :: World where
  "exampleWorld =
     \<lparr>cells = (\<lambda>b. \<lparr>blockTypeId = ''minecraft:air'', states = Map.empty\<rparr>),
      loaded = (\<lambda>b. True), containers = Map.empty, deposits = [], spawnedItems = [],
      destroyed = [], sounds = [], warnings = [], randoms = (\<lambda>k. 0), drawn = 0\<rparr>"

fun placeInFirstEmpty :: "ItemStack \<Rightarrow> Container \<Rightarrow> Container" where
  "placeInFirstEmpty s [] = []"
| "placeInFirstEmpty s (None # c) = Some s # c"
| "placeInFirstEmpty s (Some i # c) = Some i # placeInFirstEmpty s c"

definition exampleHost :: Host where
  \<comment> \<open>stacks of 64; an added stack goes to the first empty slot, cut to the stack size\<close>
  "exampleHost =
     \<lparr>stackSize = (\<lambda>t. 64),
      addItem = (\<lambda>c s. placeInFirstEmpty
                         (s\<lparr>amount := max 1 (min (amount s) 64), maxAmount := 64\<rparr>) c),
      defaultStates = (\<lambda>t. Map.empty),
      getBlockFromRay = (\<lambda>w origin direction excludeTypes. None),
      blockTypeExists = (\<lambda>t. True),
      parseInt = (\<lambda>str. if str = Some ''0'' then Num 0 else NaN),
      scytheDestructable = [''minecraft:tallgrass''],
      sinApprox = (\<lambda>q. q - q * q * q / 6),
      cosApprox = (\<lambda>q. 1 - q * q / 2)\<rparr>"

definition ironScythe :: ItemStack where
  "ironScythe =
     \<lparr>typeId = ''djc:iron_scythe'', amount = 1, maxAmount = 64, tags = [''scythe'', ''reach:0''],
      enchantable = Some Map.empty,
      durability = Some \<lparr>damage = 0, maxDurability = 250\<rparr>\<rparr>"

definition wornScythe :: ItemStack where
  \<comment> \<open>the iron scythe at its last point of durability\<close>
  "wornScythe = ironScythe\<lparr>durability := Some \<lparr>damage = 250, maxDurability = 250\<rparr>\<rparr>"

definition fortuneScythe :: ItemStack where
  \<comment> \<open>the iron scythe with Fortune III\<close>
  "fortuneScythe = ironScythe\<lparr>enchantable := Some [''fortune'' \<mapsto> 3]\<rparr>"

definition examplePlayer :: Player where
  "examplePlayer =
     \<lparr>entityId = 7, location = Vector3 (Num (1 / 2)) (Num 64) (Num (1 / 2)),
      viewDirection = Vector3 (Num 1) (Num 0) (Num 0), selectedSlotIndex = 0\<rparr>"

definition farPlayer :: Player where
  \<comment> \<open>the same player at \<open>x = 2^53\<close>\<close>
  "farPlayer = examplePlayer\<lparr>location := Vector3 (Num (2 ^ 53)) (Num 64) (Num 0)\<rparr>"

definition diagonalPlayer :: Player where
  \<comment> \<open>the same player looking 60 degrees off the \<open>x\<close> axis: \<open>(0.5, 0, 0.8660254037844387)\<close>\<close>
  "diagonalPlayer =
     examplePlayer\<lparr>viewDirection := Vector3 (Num (1 / 2)) (Num 0) (Num (7800463371553963 / 2 ^ 53))\<rparr>"

definition edgePlayer :: Player where
  \<comment> \<open>the same player one unit in the last place below \<open>y = 64\<close>\<close>
  "edgePlayer =
     examplePlayer\<lparr>location := Vector3 (Num (1 / 2)) (Num (64 - 1 / 2 ^ 47)) (Num (1 / 2))\<rparr>"

definition steepPlayer :: Player where
  \<comment> \<open>the same player looking up, \<open>2^-600\<close> off the vertical\<close>
  "steepPlayer = examplePlayer\<lparr>viewDirection := Vector3 (Num (1 / 2 ^ 600)) (Num 1) (Num 0)\<rparr>"

definition wheat :: "int \<Rightarrow> ItemStack" where
  "wheat n = newItemStack exampleHost ''minecraft:wheat'' n"

definition farmBlocks :: "Block \<Rightarrow> BlockData" where
  \<comment> \<open>tall grass at \<open>(0, 65, 0)\<close>, ripe wheat at \<open>(2, 64, 0)\<close>, young wheat at \<open>(3, 64, 0)\<close>,
      three reeds on dirt at \<open>(5, 64..66, 0)\<close>\<close>
  "farmBlocks b =
     (if b = Vector3 0 65 0
      then \<lparr>blockTypeId = ''minecraft:tallgrass'', states = Map.empty\<rparr>
      else if b = Vector3 2 64 0
      then \<lparr>blockTypeId = ''minecraft:wheat'', states = [''growth'' \<mapsto> 7]\<rparr>
      else if b = Vector3 3 64 0
      then \<lparr>blockTypeId = ''minecraft:wheat'', states = [''growth'' \<mapsto> 3]\<rparr>
      else if b = Vector3 5 63 0
      then \<lparr>blockTypeId = ''minecraft:dirt'', states = Map.empty\<rparr>
      else if b \<in> set [Vector3 5 64 0, Vector3 5 65 0, Vector3 5 66 0]
      then \<lparr>blockTypeId = ''minecraft:reeds'', states = Map.empty\<rparr>
      else \<lparr>blockTypeId = ''minecraft:air'', states = Map.empty\<rparr>)"

definition farmWorld :: World where
  "farmWorld =
     exampleWorld\<lparr>cells := farmBlocks,
                   containers := [7 \<mapsto> [Some ironScythe, Some (wheat 62)]]\<rparr>"

definition fortuneFarm :: World where
  \<comment> \<open>the farm with the enchanted scythe in hand and one empty slot\<close>
  "fortuneFarm = farmWorld\<lparr>containers := [7 \<mapsto> [Some fortuneScythe, None]]\<rparr>"

definition farmAfterPass :: World where
  \<comment> \<open>\<open>farmWorld\<close> after a pass with reach 0 by \<open>examplePlayer\<close>: one random value drawn, the
      whoosh played, the tall grass above the player destroyed\<close>
  "farmAfterPass =
     destroyBlock exampleHost (Vector3 0 65 0)
       (player_playSound examplePlayer ''scythe.whoosh'' (farmWorld\<lparr>drawn := 1\<rparr>))"

section \<open>Theorems\<close>

subsection \<open>Binary64 arithmetic\<close>

lemma pow2_powi: "pow2 k = 2 powi k"
  by (simp add: pow2_def power_int_def power_one_over inverse_eq_divide)

lemma pow2_pos [simp]: "0 < pow2 k"
  by (simp add: pow2_powi)

lemma pow2_add: "pow2 (a + b) = pow2 a * pow2 b"
  by (simp add: pow2_powi power_int_add)

lemma pow2_diff: "pow2 (a - b) = pow2 a / pow2 b"
  by (simp add: pow2_powi power_int_diff)

lemma pow2_mono: "a \<le> b \<Longrightarrow> pow2 a \<le> pow2 b"
  by (simp add: pow2_powi power_int_increasing)

lemma pow2_strict_mono: "a < b \<Longrightarrow> pow2 a < pow2 b"
  by (simp add: pow2_powi power_int_strict_increasing)

lemma pow2_less_cancel: "pow2 a < pow2 b \<Longrightarrow> a < b"
  using pow2_mono [of b a] by (cases "a < b") simp_all

lemma pow2_le_cancel: "pow2 a \<le> pow2 b \<Longrightarrow> a \<le> b"
  using pow2_strict_mono [of b a] by (cases "a \<le> b") simp_all

lemma pow2_nat: "0 \<le> k \<Longrightarrow> pow2 k = 2 ^ nat k"
  by (simp add: pow2_def)

lemma pow2_numeral [simp]: "pow2 (numeral n) = 2 ^ numeral n" "pow2 0 = 1" "pow2 1 = 2"
  by (simp_all add: pow2_def)

lemma pow2_Suc: "pow2 (k + 1) = 2 * pow2 k"
  by (simp add: pow2_add)

lemma pow2_nonneg [simp]: "0 \<le> pow2 k"
  using pow2_pos [of k] by (rule less_imp_le)

lemma ilog2_bounds:
  assumes "0 < r"
  shows "pow2 (ilog2 r) \<le> r" and "r < pow2 (ilog2 r + 1)"
proof -
  obtain p q where pq: "quotient_of r = (p, q)" by (cases "quotient_of r")
  then have q: "0 < q" by (rule quotient_of_denom_pos)
  from pq have r: "r = of_int p / of_int q" by (rule quotient_of_div)
  with assms q have p: "0 < p" by (simp add: zero_less_divide_iff)
  define P where "P = bitlen p"
  define Q where "Q = bitlen q"
  from bitlen_bounds [OF p] have bp: "2 ^ nat (P - 1) \<le> p" "p < 2 ^ nat P"
    by (simp_all add: P_def)
  from bitlen_bounds [OF q] have bq: "2 ^ nat (Q - 1) \<le> q" "q < 2 ^ nat Q"
    by (simp_all add: Q_def)
  have P1: "1 \<le> P" using p by (simp add: P_def bitlen_alt_def)
  have Q1: "1 \<le> Q" using q by (simp add: Q_def bitlen_alt_def)
  have rp: "pow2 (P - 1) \<le> of_int p" "of_int p < pow2 P"
  proof -
    have "(of_int (2 ^ nat (P - 1)) :: rat) \<le> of_int p" using bp(1) by (simp only: of_int_le_iff)
    then show "pow2 (P - 1) \<le> of_int p" using P1 by (simp add: pow2_nat)
    have "(of_int p :: rat) < of_int (2 ^ nat P)" using bp(2) by (simp only: of_int_less_iff)
    then show "of_int p < pow2 P" using P1 by (simp add: pow2_nat)
  qed
  have rq: "pow2 (Q - 1) \<le> of_int q" "of_int q < pow2 Q"
  proof -
    have "(of_int (2 ^ nat (Q - 1)) :: rat) \<le> of_int q" using bq(1) by (simp only: of_int_le_iff)
    then show "pow2 (Q - 1) \<le> of_int q" using Q1 by (simp add: pow2_nat)
    have "(of_int q :: rat) < of_int (2 ^ nat Q)" using bq(2) by (simp only: of_int_less_iff)
    then show "of_int q < pow2 Q" using Q1 by (simp add: pow2_nat)
  qed
  have qpos: "(0::rat) < of_int q" using q by simp
  have ppos: "(0::rat) < of_int p" using p by simp
  have lo: "pow2 (P - Q - 1) < r"
  proof -
    have "pow2 (P - Q - 1) * of_int q < pow2 (P - Q - 1) * pow2 Q"
      using rq(2) by (intro mult_strict_left_mono) simp_all
    also have "\<dots> = pow2 (P - 1)" by (simp add: pow2_add [symmetric])
    also have "\<dots> \<le> of_int p" by (rule rp(1))
    finally show ?thesis using qpos by (simp add: r pos_less_divide_eq)
  qed
  have hi: "r < pow2 (P - Q + 1)"
  proof -
    have "of_int p < pow2 P" by (rule rp(2))
    also have "\<dots> = pow2 (P - Q + 1) * pow2 (Q - 1)" by (simp add: pow2_add [symmetric])
    also have "\<dots> \<le> pow2 (P - Q + 1) * of_int q"
      using rq(1) by (intro mult_left_mono) simp_all
    finally show ?thesis using qpos by (simp add: r pos_divide_less_eq)
  qed
  have il: "ilog2 r = (if pow2 (P - Q) \<le> r then P - Q else P - Q - 1)"
    by (simp add: ilog2_def pq P_def Q_def Let_def)
  show "pow2 (ilog2 r) \<le> r" using lo by (simp add: il)
  show "r < pow2 (ilog2 r + 1)" using hi by (simp add: il)
qed

lemma ilog2_unique:
  assumes "pow2 k \<le> r" and "r < pow2 (k + 1)"
  shows "ilog2 r = k"
proof -
  have pos: "0 < r" using pow2_pos [of k] assms(1) by (rule less_le_trans)
  note b = ilog2_bounds [OF pos]
  from b(1) assms(2) have "pow2 (ilog2 r) < pow2 (k + 1)" by simp
  then have "ilog2 r < k + 1" by (rule pow2_less_cancel)
  moreover from assms(1) b(2) have "pow2 k < pow2 (ilog2 r + 1)" by simp
  then have "k < ilog2 r + 1" by (rule pow2_less_cancel)
  ultimately show ?thesis by simp
qed

lemma roundHalfEven_error: "\<bar>of_int (roundHalfEven s) - s\<bar> \<le> 1 / 2"
proof -
  have "of_int \<lfloor>s\<rfloor> \<le> s" "s < of_int \<lfloor>s\<rfloor> + 1" by linarith+
  then show ?thesis
    by (auto simp: roundHalfEven_def Let_def abs_le_iff)
qed

lemma roundHalfEven_of_int [simp]: "roundHalfEven (of_int k) = k"
  by (simp add: roundHalfEven_def)

lemma roundHalfEven_ge: "of_int k \<le> s \<Longrightarrow> k \<le> roundHalfEven s"
proof -
  assume "of_int k \<le> s"
  then have "k \<le> \<lfloor>s\<rfloor>" by (simp add: le_floor_iff)
  then show ?thesis by (simp add: roundHalfEven_def Let_def)
qed

lemma roundHalfEven_le: "s \<le> of_int k \<Longrightarrow> roundHalfEven s \<le> k"
proof -
  assume le: "s \<le> of_int k"
  show ?thesis
  proof (cases "s = of_int k")
    case True
    then show ?thesis by simp
  next
    case False
    with le have "s < of_int k" by simp
    then have "\<lfloor>s\<rfloor> < k" by (simp add: floor_less_iff)
    then show ?thesis by (simp add: roundHalfEven_def Let_def)
  qed
qed

lemma fl_unfold:
  "r \<noteq> 0 \<Longrightarrow>
   fl r = of_int (roundHalfEven (r / pow2 (max (ilog2 \<bar>r\<bar>) (- 1022) - 52)))
          * pow2 (max (ilog2 \<bar>r\<bar>) (- 1022) - 52)"
  by (simp add: fl_def Let_def)

lemma pow2_neq0 [simp]: "pow2 k \<noteq> 0"
  using pow2_pos [of k] by (rule less_imp_neq [symmetric])

lemma fl_zero [simp]: "fl 0 = 0"
  by (simp add: fl_def)

lemma fl_error:
  assumes "r \<noteq> 0"
  shows "\<bar>fl r - r\<bar> \<le> pow2 (max (ilog2 \<bar>r\<bar>) (- 1022) - 52) / 2"
proof -
  define u where "u = pow2 (max (ilog2 \<bar>r\<bar>) (- 1022) - 52)"
  have u: "0 < u" by (simp add: u_def)
  have "fl r - r = (of_int (roundHalfEven (r / u)) - r / u) * u"
    using u by (simp add: fl_unfold [OF assms] u_def [symmetric] left_diff_distrib)
  then have "\<bar>fl r - r\<bar> = \<bar>of_int (roundHalfEven (r / u)) - r / u\<bar> * u"
    using u by (simp add: abs_mult)
  also have "\<dots> \<le> (1 / 2) * u"
    using u roundHalfEven_error [of "r / u"] by (intro mult_right_mono) simp_all
  finally show ?thesis by (simp add: u_def)
qed

lemma tiny_pos: "0 < tiny"
  by (simp add: tiny_def)

lemma tiny_eq: "pow2 (- 1074) / 2 = tiny"
  by (simp add: tiny_def pow2_def)

lemma fl_rel_error: "\<bar>fl r - r\<bar> \<le> \<bar>r\<bar> / 2 ^ 53 + tiny"
proof (cases "r = 0")
  case True
  then show ?thesis using tiny_pos by simp
next
  case False
  then have pos: "0 < \<bar>r\<bar>" by simp
  note e = fl_error [OF False]
  show ?thesis
  proof (cases "- 1022 \<le> ilog2 \<bar>r\<bar>")
    case True
    then have "pow2 (max (ilog2 \<bar>r\<bar>) (- 1022) - 52) = pow2 (ilog2 \<bar>r\<bar>) / 2 ^ 52"
      by (simp add: max_def pow2_diff)
    also have "\<dots> \<le> \<bar>r\<bar> / 2 ^ 52"
      using ilog2_bounds(1) [OF pos] by (simp add: divide_right_mono)
    finally have "pow2 (max (ilog2 \<bar>r\<bar>) (- 1022) - 52) / 2 \<le> \<bar>r\<bar> / 2 ^ 53" by simp
    with e tiny_pos show ?thesis by simp
  next
    case False
    then have "pow2 (max (ilog2 \<bar>r\<bar>) (- 1022) - 52) = pow2 (- 1074)"
      by (simp add: max_def)
    then have "pow2 (max (ilog2 \<bar>r\<bar>) (- 1022) - 52) / 2 = tiny"
      by (simp only: tiny_eq)
    with e have "\<bar>fl r - r\<bar> \<le> tiny" by simp
    moreover have "0 \<le> \<bar>r\<bar> / 2 ^ 53" by simp
    ultimately show ?thesis by linarith
  qed
qed

lemma roundHalfEven_nonneg: "0 \<le> s \<Longrightarrow> 0 \<le> roundHalfEven s"
  using roundHalfEven_ge [of 0 s] by simp

lemma roundHalfEven_nonpos: "s \<le> 0 \<Longrightarrow> roundHalfEven s \<le> 0"
  using roundHalfEven_le [of s 0] by simp

lemma fl_nonneg: "0 \<le> r \<Longrightarrow> 0 \<le> fl r"
  by (cases "r = 0") (simp_all add: fl_unfold roundHalfEven_nonneg)

lemma fl_nonpos: "r \<le> 0 \<Longrightarrow> fl r \<le> 0"
  by (cases "r = 0")
     (simp_all add: fl_unfold roundHalfEven_nonpos mult_le_0_iff divide_le_0_iff)

lemma fl_of_multiple:
  assumes n: "\<bar>n\<bar> \<le> 2 ^ 53" and e: "- 1022 \<le> e"
  shows "fl (of_int n * pow2 (e - 52)) = of_int n * pow2 (e - 52)"
proof (cases "n = 0")
  case True
  then show ?thesis by simp
next
  case False
  define u where "u = pow2 (e - 52)"
  define y where "y = of_int n * u"
  have u: "0 < u" by (simp add: u_def)
  have y0: "y \<noteq> 0" using False u by (simp add: y_def)
  have absy: "\<bar>y\<bar> = of_int \<bar>n\<bar> * u" using u by (simp add: y_def abs_mult)
  have top: "pow2 (e + 1) = 2 ^ 53 * u"
  proof -
    have "pow2 (e + 1) = pow2 (53 + (e - 52))" by (rule arg_cong [where f = pow2]) simp
    also have "\<dots> = pow2 53 * pow2 (e - 52)" by (rule pow2_add)
    finally show ?thesis by (simp add: u_def)
  qed
  have "(of_int \<bar>n\<bar> :: rat) \<le> of_int (2 ^ 53)" using n by (simp only: of_int_le_iff)
  then have nle: "(of_int \<bar>n\<bar> :: rat) \<le> 2 ^ 53" by simp
  then have yle: "\<bar>y\<bar> \<le> pow2 (e + 1)"
    using u by (simp add: absy top)
  define E' where "E' = ilog2 \<bar>y\<bar>"
  define e' where "e' = max E' (- 1022)"
  have ypos: "0 < \<bar>y\<bar>" using y0 by simp
  have lo: "pow2 E' \<le> \<bar>y\<bar>" unfolding E'_def by (rule ilog2_bounds(1) [OF ypos])
  with yle have "pow2 E' \<le> pow2 (e + 1)" by simp
  then have E'le: "E' \<le> e + 1" by (rule pow2_le_cancel)
  with e have e'le: "e' \<le> e + 1" by (simp add: e'_def)
  have "\<exists>m. y / pow2 (e' - 52) = of_int m"
  proof (cases "e' \<le> e")
    case True
    have "y / pow2 (e' - 52) = of_int n * (pow2 (e - 52) / pow2 (e' - 52))"
      by (simp add: y_def u_def)
    also have "pow2 (e - 52) / pow2 (e' - 52) = pow2 (e - e')"
      by (simp add: pow2_diff [symmetric])
    also have "\<dots> = of_int (2 ^ nat (e - e'))"
      using True by (simp add: pow2_nat)
    finally have "y / pow2 (e' - 52) = of_int (n * 2 ^ nat (e - e'))"
      by (simp only: of_int_mult)
    then show ?thesis ..
  next
    case False
    with e'le have e': "e' = e + 1" by simp
    with e have "E' = e + 1" by (simp add: e'_def max_def split: if_splits)
    with lo have "2 ^ 53 * u \<le> of_int \<bar>n\<bar> * u" by (simp add: top absy)
    with u have "(2 ^ 53 :: rat) \<le> of_int \<bar>n\<bar>" by simp
    with nle have "(of_int \<bar>n\<bar> :: rat) = of_int (2 ^ 53)" by simp
    then have "\<bar>n\<bar> = 2 ^ 53" by (simp only: of_int_eq_iff)
    then have "n = 2 ^ 53 \<or> n = - (2 ^ 53)" by arith
    then have "even n" by auto
    then have "n = 2 * (n div 2)" by simp
    then have "(of_int n :: rat) = 2 * of_int (n div 2)"
      by (metis of_int_mult of_int_numeral)
    moreover have "pow2 (e' - 52) = 2 * u"
      by (simp add: e' u_def pow2_Suc [symmetric] algebra_simps)
    ultimately have "y / pow2 (e' - 52) = of_int (n div 2)"
      using u by (simp add: y_def)
    then show ?thesis ..
  qed
  then obtain m where m: "y / pow2 (e' - 52) = of_int m" ..
  have "fl y = of_int (roundHalfEven (y / pow2 (e' - 52))) * pow2 (e' - 52)"
    by (simp add: fl_unfold [OF y0] e'_def E'_def)
  also have "\<dots> = of_int m * pow2 (e' - 52)" by (simp add: m)
  also have "\<dots> = y" by (simp add: m [symmetric])
  finally show ?thesis by (simp add: y_def u_def)
qed

lemma fl_multiple:
  "\<exists>n e. \<bar>n\<bar> \<le> 2 ^ 53 \<and> - 1022 \<le> e \<and> fl r = of_int n * pow2 (e - 52)
         \<and> (r \<noteq> 0 \<longrightarrow> e = max (ilog2 \<bar>r\<bar>) (- 1022))"
proof (cases "r = 0")
  case True
  have "\<bar>0::int\<bar> \<le> 2 ^ 53 \<and> - 1022 \<le> (0::int) \<and> fl r = of_int 0 * pow2 (0 - 52)
         \<and> (r \<noteq> 0 \<longrightarrow> (0::int) = max (ilog2 \<bar>r\<bar>) (- 1022))"
    using True by simp
  then show ?thesis by blast
next
  case False
  define e where "e = max (ilog2 \<bar>r\<bar>) (- 1022)"
  define u where "u = pow2 (e - 52)"
  define n where "n = roundHalfEven (r / u)"
  have u: "0 < u" by (simp add: u_def)
  have pos: "0 < \<bar>r\<bar>" using False by simp
  have top: "pow2 (e + 1) = 2 ^ 53 * u"
  proof -
    have "pow2 (e + 1) = pow2 (53 + (e - 52))" by (rule arg_cong [where f = pow2]) simp
    also have "\<dots> = pow2 53 * pow2 (e - 52)" by (rule pow2_add)
    finally show ?thesis by (simp add: u_def)
  qed
  have "\<bar>r\<bar> < pow2 (ilog2 \<bar>r\<bar> + 1)" by (rule ilog2_bounds(2) [OF pos])
  also have "\<dots> \<le> pow2 (e + 1)" by (intro pow2_mono) (simp add: e_def)
  finally have "\<bar>r\<bar> < 2 ^ 53 * u" by (simp add: top)
  then have "\<bar>r\<bar> / u < 2 ^ 53" using u by (simp add: pos_divide_less_eq)
  moreover have "\<bar>r / u\<bar> = \<bar>r\<bar> / u" using u by (simp add: abs_divide abs_of_pos)
  ultimately have "\<bar>r / u\<bar> < 2 ^ 53" by (simp only:)
  then have "r / u < 2 ^ 53" "- (2 ^ 53) < r / u" by (simp_all only: abs_less_iff minus_less_iff)
  then have b: "r / u \<le> of_int (2 ^ 53)" "of_int (- (2 ^ 53)) \<le> r / u"
    by simp_all
  from roundHalfEven_le [OF b(1)] roundHalfEven_ge [OF b(2)]
  have "\<bar>n\<bar> \<le> 2 ^ 53" by (simp add: n_def abs_le_iff)
  moreover have "- 1022 \<le> e" by (simp add: e_def)
  moreover have "fl r = of_int n * pow2 (e - 52)"
    by (simp add: fl_unfold [OF False] n_def u_def e_def)
  ultimately show ?thesis using e_def by blast
qed

lemma fl_idem [simp]: "fl (fl r) = fl r"
proof -
  from fl_multiple [of r] obtain n e where
    "\<bar>n\<bar> \<le> 2 ^ 53" "- 1022 \<le> e" "fl r = of_int n * pow2 (e - 52)" by blast
  then show ?thesis by (simp add: fl_of_multiple)
qed

lemma fl_of_int:
  assumes "\<bar>k\<bar> \<le> 2 ^ 53"
  shows "fl (of_int k) = of_int k"
  using fl_of_multiple [OF assms, of 52] by simp

lemma representable_of_int: "\<bar>k\<bar> \<le> 2 ^ 53 \<Longrightarrow> representable (of_int k)"
proof -
  assume k: "\<bar>k\<bar> \<le> 2 ^ 53"
  then have "\<bar>k\<bar> < 2 ^ 1024" by simp
  then have "(of_int \<bar>k\<bar> :: rat) < of_int (2 ^ 1024)" by (simp only: of_int_less_iff)
  then have "\<bar>of_int k :: rat\<bar> < 2 ^ 1024" by simp
  with fl_of_int [OF k] show ?thesis by (simp add: representable_def)
qed

lemma representable_below_one:
  assumes "representable r" and "r < 1"
  shows "r \<le> 1 - 1 / 2 ^ 53"
proof (cases "r \<le> 1 / 2")
  case True
  then show ?thesis by simp
next
  case False
  then have half: "1 / 2 < r" by simp
  then have pos: "0 < r" by simp
  have "pow2 (- 1) \<le> r" using half by (simp add: pow2_def)
  moreover have "r < pow2 (- 1 + 1)" using assms(2) by simp
  ultimately have E: "ilog2 r = - 1" by (rule ilog2_unique)
  from assms(1) have "fl r = r" by (simp add: representable_def)
  moreover have "fl r = of_int (roundHalfEven (r / pow2 (- 53))) * pow2 (- 53)"
    using pos E by (simp add: fl_unfold)
  ultimately have r: "r = of_int (roundHalfEven (r / pow2 (- 53))) / 2 ^ 53"
    by (simp add: pow2_def)
  define n where "n = roundHalfEven (r / pow2 (- 53))"
  from r assms(2) have "(of_int n :: rat) < of_int (2 ^ 53)"
    by (simp add: n_def pos_divide_less_eq)
  then have "n < 2 ^ 53" by (simp only: of_int_less_iff)
  then have "n \<le> 2 ^ 53 - 1" by simp
  then have "(of_int n :: rat) \<le> of_int (2 ^ 53 - 1)" by (simp only: of_int_le_iff)
  then have "(of_int n :: rat) / 2 ^ 53 \<le> (2 ^ 53 - 1) / 2 ^ 53"
    by (simp add: divide_right_mono)
  then show ?thesis using r by (simp add: n_def diff_divide_distrib)
qed

lemma isqrt_bounds: "0 \<le> n \<Longrightarrow> 0 \<le> isqrt n \<and> isqrt n * isqrt n \<le> n \<and> n < (isqrt n + 1) * (isqrt n + 1)"
proof (induction n rule: isqrt.induct)
  case (1 n)
  show ?case
  proof (cases "n < 4")
    case True
    with "1.prems" show ?thesis by (subst (1 2 3 4 5) isqrt.simps) auto
  next
    case False
    define s0 where "s0 = isqrt (n div 4)"
    from False have "\<not> n < 1" by simp
    from "1.IH" [OF this False] "1.prems"
    have IH: "0 \<le> s0" "s0 * s0 \<le> n div 4" "n div 4 < (s0 + 1) * (s0 + 1)"
      by (simp_all add: s0_def)
    have eq: "isqrt n = (if (2 * s0 + 1) * (2 * s0 + 1) \<le> n then 2 * s0 + 1 else 2 * s0)"
      using False by (subst isqrt.simps) (simp add: s0_def Let_def)
    have d: "4 * (n div 4) \<le> n" "n < 4 * (n div 4) + 4" by simp_all
    have lo: "(2 * s0) * (2 * s0) \<le> n"
    proof -
      have "(2 * s0) * (2 * s0) = 4 * (s0 * s0)" by simp
      also have "\<dots> \<le> 4 * (n div 4)" using IH(2) by simp
      finally show ?thesis using d(1) by simp
    qed
    have hi: "n < (2 * s0 + 2) * (2 * s0 + 2)"
    proof -
      have "n div 4 + 1 \<le> (s0 + 1) * (s0 + 1)" using IH(3) by simp
      then have "4 * (n div 4) + 4 \<le> 4 * ((s0 + 1) * (s0 + 1))" by simp
      also have "\<dots> = (2 * s0 + 2) * (2 * s0 + 2)" by (simp add: algebra_simps)
      finally show ?thesis using d(2) by simp
    qed
    show ?thesis
    proof (cases "(2 * s0 + 1) * (2 * s0 + 1) \<le> n")
      case True
      with hi IH(1) show ?thesis by (simp add: eq add.commute)
    next
      case False
      with lo IH(1) show ?thesis by (simp add: eq)
    qed
  qed
qed

lemma sqrtRounded_bounds:
  assumes "0 < r"
  shows "0 < sqrtRounded r"
    and "(99 / 100) * (sqrtRounded r * sqrtRounded r) \<le> r"
    and "r \<le> (101 / 100) * (sqrtRounded r * sqrtRounded r)"
proof -
  define E where "E = ilog2 r"
  define e where "e = E div 2"
  define u where "u = pow2 (e - 52)"
  define k where "k = \<lfloor>r / (u * u)\<rfloor>"
  define n where "n = isqrt k"
  define lo where "lo = of_int n * u"
  define m where "m = sqrtRounded r"
  have u: "0 < u" by (simp add: u_def)
  have uu: "u * u = pow2 (2 * e - 104)"
    by (simp add: u_def pow2_add [symmetric])
  have e2: "2 * e \<le> E" "E \<le> 2 * e + 1" by (simp_all add: e_def)
  have "pow2 (2 * e) \<le> pow2 E" using e2(1) by (rule pow2_mono)
  also have "\<dots> \<le> r" unfolding E_def by (rule ilog2_bounds(1) [OF assms])
  finally have rlo: "pow2 (2 * e) \<le> r" .
  have "pow2 (2 * e) = pow2 (104 + (2 * e - 104))" by (rule arg_cong [where f = pow2]) simp
  also have "\<dots> = 2 ^ 104 * (u * u)" by (simp only: pow2_add uu pow2_numeral)
  finally have "2 ^ 104 * (u * u) \<le> r" using rlo by simp
  then have "2 ^ 104 \<le> r / (u * u)" using u by (simp add: pos_le_divide_eq)
  then have "of_int (2 ^ 104) \<le> r / (u * u)" by simp
  then have klo: "2 ^ 104 \<le> k" unfolding k_def by (simp only: le_floor_iff)
  then have k0: "0 \<le> k" by simp
  note sq = isqrt_bounds [OF k0, folded n_def]
  have nlo: "2 ^ 52 \<le> n"
  proof (rule ccontr)
    assume "\<not> 2 ^ 52 \<le> n"
    then have "n + 1 \<le> 2 ^ 52" by simp
    with sq have "(n + 1) * (n + 1) \<le> 2 ^ 52 * 2 ^ 52"
      by (intro mult_mono) simp_all
    with sq klo show False by simp
  qed
  have kle: "of_int k \<le> r / (u * u)" "r / (u * u) < of_int k + 1"
    unfolding k_def by linarith+
  have "of_int (n * n) \<le> (of_int k :: rat)" using sq by (simp only: of_int_le_iff)
  with kle(1) have "of_int n * of_int n \<le> r / (u * u)" by simp
  then have "of_int n * of_int n * (u * u) \<le> r" using u by (simp add: pos_le_divide_eq)
  then have lo2: "lo * lo \<le> r" by (simp add: lo_def algebra_simps)
  have "k + 1 \<le> (n + 1) * (n + 1)" using sq by simp
  then have "(of_int (k + 1) :: rat) \<le> of_int ((n + 1) * (n + 1))" by (simp only: of_int_le_iff)
  with kle(2) have "r / (u * u) < (of_int n + 1) * (of_int n + 1)" by simp
  then have "r < (of_int n + 1) * (of_int n + 1) * (u * u)" using u by (simp add: pos_divide_less_eq)
  then have hi2: "r < (lo + u) * (lo + u)" by (simp add: lo_def algebra_simps)
  have "(2 ^ 52 :: rat) = of_int (2 ^ 52)" by simp
  also have "\<dots> \<le> of_int n" using nlo by (simp only: of_int_le_iff)
  finally have "2 ^ 52 * u \<le> lo" using u by (simp add: lo_def)
  then have ulo: "1000 * u \<le> lo" "0 < lo" using u by simp_all
  have m: "m = lo \<or> m = lo + u"
    using assms
    unfolding m_def sqrtRounded_def Let_def lo_def n_def k_def u_def e_def E_def
    by auto
  have mpos: "0 < m" using m ulo u by auto
  have ml: "lo \<le> m" "m \<le> lo + u" using m u by auto
  have um: "1000 * u \<le> m" using ulo ml by simp
  have up: "r \<le> (101 / 100) * (m * m)"
  proof -
    have "lo + u \<le> m + m / 1000" using ml um by simp
    then have "(lo + u) * (lo + u) \<le> (m + m / 1000) * (m + m / 1000)"
      using ulo u by (intro mult_mono) simp_all
    also have "\<dots> = (1002001 / 1000000) * (m * m)" by (simp add: algebra_simps)
    finally have "r \<le> (1002001 / 1000000) * (m * m)" using hi2 by simp
    moreover have "(1002001 / 1000000) * (m * m) \<le> (101 / 100) * (m * m)"
      using mpos by (intro mult_right_mono) simp_all
    ultimately show ?thesis by (rule order_trans)
  qed
  have low: "(99 / 100) * (m * m) \<le> r"
  proof -
    have "m \<le> lo + lo / 1000" using ml ulo by simp
    then have "m * m \<le> (lo + lo / 1000) * (lo + lo / 1000)"
      using mpos by (intro mult_mono) simp_all
    also have "\<dots> = (1002001 / 1000000) * (lo * lo)" by (simp add: algebra_simps)
    also have "\<dots> \<le> (1002001 / 1000000) * r"
      using lo2 by (intro mult_left_mono) simp_all
    finally have "(99 / 100) * (m * m) \<le> (99 / 100) * ((1002001 / 1000000) * r)"
      by (intro mult_left_mono) simp_all
    also have "\<dots> \<le> r" using assms by simp
    finally show ?thesis .
  qed
  show "0 < sqrtRounded r" using mpos by (simp add: m_def)
  show "r \<le> (101 / 100) * (sqrtRounded r * sqrtRounded r)" using up by (simp add: m_def)
  show "(99 / 100) * (sqrtRounded r * sqrtRounded r) \<le> r" using low by (simp add: m_def)
qed

lemma fl_close: "\<bar>fl r - r\<bar> \<le> \<bar>r\<bar> / 1000 + tiny"
proof -
  have "\<bar>r\<bar> / 2 ^ 53 \<le> \<bar>r\<bar> / 1000"
    by (intro divide_left_mono) simp_all
  with fl_rel_error [of r] show ?thesis by linarith
qed

lemma tiny_small: "1000 * tiny \<le> 1 / 2 ^ 1000"
  by (simp add: tiny_def)

lemma square_mono_abs:
  fixes a b :: rat
  assumes "\<bar>b\<bar> \<le> \<bar>a\<bar>"
  shows "b * b \<le> a * a"
proof -
  have "\<bar>b\<bar> * \<bar>b\<bar> \<le> \<bar>a\<bar> * \<bar>a\<bar>" using assms by (intro mult_mono) simp_all
  then show ?thesis by simp
qed

lemma normalise_bounds:
  fixes a b :: rat
  assumes ba: "\<bar>b\<bar> \<le> \<bar>a\<bar>" and lo: "1 / 2 ^ 500 \<le> \<bar>a\<bar>" and hi: "\<bar>a\<bar> \<le> 2 ^ 500"
  defines "S \<equiv> fl (fl (a * a) + fl (b * b))"
  defines "m \<equiv> sqrtRounded S"
  shows "\<bar>fl (a * a)\<bar> \<le> 2 ^ 1001" and "\<bar>fl (b * b)\<bar> \<le> 2 ^ 1001"
    and "\<bar>fl (a * a) + fl (b * b)\<bar> \<le> 2 ^ 1002" and "0 < S" and "S \<le> 2 ^ 1002" and "0 < m"
    and "(7 / 10) * m \<le> \<bar>a\<bar>" and "\<bar>a\<bar> \<le> (102 / 100) * m"
proof -
  define A where "A = a * a"
  define B where "B = b * b"
  define fa where "fa = fl A"
  define fb where "fb = fl B"
  define s0 where "s0 = fa + fb"
  have A_abs: "A = \<bar>a\<bar> * \<bar>a\<bar>" by (simp add: A_def)
  have "(1 / 2 ^ 500) * (1 / 2 ^ 500) \<le> \<bar>a\<bar> * \<bar>a\<bar>"
    using lo by (intro mult_mono) simp_all
  then have Alo: "1 / 2 ^ 1000 \<le> A" by (simp add: A_abs)
  have "\<bar>a\<bar> * \<bar>a\<bar> \<le> 2 ^ 500 * 2 ^ 500"
    using hi by (intro mult_mono) simp_all
  then have Ahi: "A \<le> 2 ^ 1000" by (simp add: A_abs)
  have Apos: "0 < A" using Alo by (rule less_le_trans [rotated]) simp
  have t: "tiny \<le> A / 1000" using tiny_small Alo by simp
  have B0: "0 \<le> B" by (simp add: B_def)
  have BA: "B \<le> A" unfolding A_def B_def using ba by (rule square_mono_abs)
  have fa: "(998 / 1000) * A \<le> fa" "fa \<le> (1002 / 1000) * A"
    using fl_close [of A] Apos t by (simp_all add: fa_def abs_le_iff)
  have fb: "0 \<le> fb" "fb \<le> (1002 / 1000) * A"
    using fl_close [of B] fl_nonneg [OF B0] B0 BA t by (simp_all add: fb_def abs_le_iff)
  have s0: "(998 / 1000) * A \<le> s0" "s0 \<le> (2004 / 1000) * A"
    using fa fb by (simp_all add: s0_def)
  then have s0pos: "0 \<le> s0" using Apos by simp
  have S_eq: "S = fl s0" by (simp add: S_def s0_def fa_def fb_def A_def B_def)
  have S: "(99 / 100) * A \<le> S" "S \<le> (201 / 100) * A"
    using fl_close [of s0] s0 s0pos t Apos by (simp_all add: S_eq abs_le_iff)
  then have Spos: "0 < S" using Apos by simp
  note sq = sqrtRounded_bounds [OF Spos, folded m_def]
  have mm_hi: "m * m \<le> (204 / 100) * A" using sq(2) S(2) Apos by linarith
  have mm_lo: "(97 / 100) * A \<le> m * m" using sq(3) S(1) Apos by linarith
  have lower: "(7 / 10) * m \<le> \<bar>a\<bar>"
  proof (rule ccontr)
    assume "\<not> (7 / 10) * m \<le> \<bar>a\<bar>"
    then have "\<bar>a\<bar> \<le> (7 / 10) * m" by simp
    then have "\<bar>a\<bar> * \<bar>a\<bar> \<le> ((7 / 10) * m) * ((7 / 10) * m)"
      by (intro mult_mono) (use sq(1) in simp_all)
    then have "A \<le> (49 / 100) * (m * m)" by (simp add: A_abs)
    with mm_hi Apos show False by linarith
  qed
  have upper: "\<bar>a\<bar> \<le> (102 / 100) * m"
  proof (rule ccontr)
    assume "\<not> \<bar>a\<bar> \<le> (102 / 100) * m"
    then have "(102 / 100) * m \<le> \<bar>a\<bar>" by simp
    then have "((102 / 100) * m) * ((102 / 100) * m) \<le> \<bar>a\<bar> * \<bar>a\<bar>"
      by (intro mult_mono) (use sq(1) in simp_all)
    then have "(10404 / 10000) * (m * m) \<le> A" by (simp add: A_abs)
    with mm_lo Apos sq(1) show False by linarith
  qed
  show "\<bar>fl (a * a)\<bar> \<le> 2 ^ 1001" using fa Ahi Apos by (simp add: fa_def A_def abs_le_iff)
  show "\<bar>fl (b * b)\<bar> \<le> 2 ^ 1001" using fb Ahi by (simp add: fb_def B_def abs_le_iff)
  show "\<bar>fl (a * a) + fl (b * b)\<bar> \<le> 2 ^ 1002"
    using s0 s0pos Ahi by (simp add: s0_def fa_def fb_def A_def B_def abs_le_iff)
  show "0 < S" by (rule Spos)
  show "S \<le> 2 ^ 1002" using S(2) Ahi by simp
  show "0 < m" by (rule sq(1))
  show "(7 / 10) * m \<le> \<bar>a\<bar>" by (rule lower)
  show "\<bar>a\<bar> \<le> (102 / 100) * m" by (rule upper)
qed

lemma rounded_representable: "representable r \<Longrightarrow> rounded r = Num r"
  by (auto simp: representable_def rounded_def Let_def)

lemma rounded_finite:
  assumes "\<bar>r\<bar> \<le> 2 ^ 1002"
  shows "rounded r = Num (fl r)"
proof -
  have "tiny \<le> 1" using tiny_small by (simp add: tiny_def)
  with fl_close [of r] assms have "\<bar>fl r\<bar> \<le> 2 ^ 1002 + 2 ^ 1002 / 1000 + 1" by linarith
  also have "\<dots> < 2 ^ 1024" by simp
  finally have "\<bar>fl r\<bar> < 2 ^ 1024" .
  then show ?thesis by (simp add: rounded_def Let_def abs_less_iff not_le)
qed

lemma rounded_fl [simp]: "rounded (fl r) = rounded r"
  by (simp add: rounded_def)

lemma rounded_of_int: "\<bar>k\<bar> \<le> 2 ^ 53 \<Longrightarrow> rounded (of_int k) = Num (of_int k)"
  using rounded_representable [OF representable_of_int] .

lemma toNum_small: "\<bar>k\<bar> \<le> 2 ^ 53 \<Longrightarrow> toNum k = Num (of_int k)"
  by (simp add: toNum_def rounded_of_int)

lemma rounded_zero [simp]: "rounded 0 = Num 0"
  by (simp add: rounded_def)

lemma fl_int_bounds:
  assumes "\<bar>x\<bar> < 2 ^ 53"
  shows "of_int k \<le> x \<Longrightarrow> of_int k \<le> fl x" and "x \<le> of_int k \<Longrightarrow> fl x \<le> of_int k"
proof -
  have *: "of_int k \<le> fl x \<and> fl x \<le> of_int k'" if k: "of_int k \<le> x" "x \<le> of_int k'" for k k'
  proof (cases "x = 0")
    case True
    with k show ?thesis by simp
  next
    case False
    define e where "e = max (ilog2 \<bar>x\<bar>) (- 1022)"
    define u where "u = pow2 (e - 52)"
    have u: "0 < u" by (simp add: u_def)
    have pos: "0 < \<bar>x\<bar>" using False by simp
    have "pow2 (ilog2 \<bar>x\<bar>) \<le> \<bar>x\<bar>" by (rule ilog2_bounds(1) [OF pos])
    also have "\<dots> < pow2 53" using assms by simp
    finally have "ilog2 \<bar>x\<bar> < 53" by (rule pow2_less_cancel)
    then have e: "e \<le> 52" by (simp add: e_def)
    have inv: "1 / u = of_int (2 ^ nat (52 - e))"
    proof -
      have "pow2 (52 - e) * pow2 (e - 52) = pow2 0" by (simp add: pow2_add [symmetric])
      then have "1 / u = pow2 (52 - e)" using u by (simp add: u_def field_simps)
      also have "\<dots> = 2 ^ nat (52 - e)" using e by (simp add: pow2_nat)
      finally show ?thesis by simp
    qed
    have scale: "of_int j / u = of_int (j * 2 ^ nat (52 - e))" for j
    proof -
      have "of_int j / u = of_int j * (1 / u)" by simp
      also have "\<dots> = of_int (j * 2 ^ nat (52 - e))" by (simp only: inv of_int_mult)
      finally show ?thesis .
    qed
    have "of_int k / u \<le> x / u" "x / u \<le> of_int k' / u"
      using k u by (simp_all add: divide_right_mono)
    then have "k * 2 ^ nat (52 - e) \<le> roundHalfEven (x / u)"
      "roundHalfEven (x / u) \<le> k' * 2 ^ nat (52 - e)"
      by (simp_all add: scale roundHalfEven_ge roundHalfEven_le)
    then have "(of_int (k * 2 ^ nat (52 - e)) :: rat) \<le> of_int (roundHalfEven (x / u))"
      "(of_int (roundHalfEven (x / u)) :: rat) \<le> of_int (k' * 2 ^ nat (52 - e))"
      by (simp_all only: of_int_le_iff)
    then have "of_int k / u \<le> of_int (roundHalfEven (x / u))"
      "of_int (roundHalfEven (x / u)) \<le> of_int k' / u"
      by (simp_all only: scale)
    then have "of_int k \<le> of_int (roundHalfEven (x / u)) * u"
      "of_int (roundHalfEven (x / u)) * u \<le> of_int k'"
      using u by (simp_all add: pos_divide_le_eq pos_le_divide_eq)
    then show ?thesis by (simp add: fl_unfold [OF False] u_def e_def)
  qed
  show "of_int k \<le> x \<Longrightarrow> of_int k \<le> fl x"
    using * [of k "\<lceil>x\<rceil>"] by simp
  show "x \<le> of_int k \<Longrightarrow> fl x \<le> of_int k"
    using * [of "\<lfloor>x\<rfloor>" k] by simp
qed

lemma fl_fractions:
  "fl (3 / 4) = 3 / 4" "fl (3 / 2) = 3 / 2" "fl (1 / 2) = 1 / 2"
  "fl (8 / 15) = 4803839602528529 / 2 ^ 53"
  by code_simp+

lemma fl_examples:
  "fl 0 = 0" "fl 1 = 1" "fl 2 = 2" "fl 3 = 3" "fl 4 = 4" "fl 5 = 5" "fl 6 = 6" "fl 7 = 7"
  "fl 9 = 9"
  "fl 9007199254740992 = 9007199254740992"
  "fl 9007199254740993 = 9007199254740992"
  by code_simp+

lemma representable_examples:
  "representable 0" "representable 1" "representable 2" "representable 3"
  "representable 4" "representable 5" "representable 6" "representable 7" "representable 9"
  "representable 9007199254740992" "representable (3 / 4)" "representable (1 / 2)"
  by (simp_all add: representable_def fl_examples fl_fractions)

subsection \<open>The vector round trip\<close>

lemma exactSum_round_trip: "exactSum u v \<Longrightarrow> (u + v) - v = u"
  by (auto simp: exactSum_def minus_jsnum_def rounded_representable
           split: jsnum.splits)

text \<open>
  C9 (as amended). For vectors \<open>a\<close> and \<open>b\<close> of finite numbers whose component-wise sums
  are exactly representable (no rounding and no overflow in the addition),
  \<open>subtractVectors(addVectors(a, b), b)\<close> returns \<open>a\<close>, component by component.
\<close>

theorem add_subtract_round_trip_exact:
  assumes "exactSum (vx a) (vx b)" and "exactSum (vy a) (vy b)" and "exactSum (vz a) (vz b)"
  shows "addThenSubtract a b = Inr a"
  using assms
  by (cases a) (simp add: addThenSubtract_def addVectors_def subtractVectors_def
                   exactSum_round_trip)

theorem add_subtract_round_trip_exact_witness:
  "exactSum (Num 1) (Num 4) \<and> exactSum (Num 2) (Num 5) \<and> exactSum (Num 3) (Num 6)
   \<and> addThenSubtract (Vector3 (Num 1) (Num 2) (Num 3)) (Vector3 (Num 4) (Num 5) (Num 6))
      = Inr (Vector3 (Num 1) (Num 2) (Num 3))"
proof -
  have h: "exactSum (Num 1) (Num 4)" "exactSum (Num 2) (Num 5)" "exactSum (Num 3) (Num 6)"
    by (simp_all add: exactSum_def representable_examples)
  show ?thesis
    using h add_subtract_round_trip_exact
            [of "Vector3 (Num 1) (Num 2) (Num 3)" "Vector3 (Num 4) (Num 5) (Num 6)"]
    by simp
qed

text \<open>
  C9 (as stated) fails on binary64 numbers: with \<open>a = (1, 0, 0)\<close> and
  \<open>b = (2^53, 0, 0)\<close>, both finite, the sum \<open>1 + 2^53\<close> rounds to \<open>2^53\<close> and the
  round trip returns \<open>(0, 0, 0)\<close>.
\<close>

theorem add_subtract_round_trip_counterexample:
  "finiteVector (Vector3 (Num 1) (Num 0) (Num 0))
   \<and> finiteVector (Vector3 (Num 9007199254740992) (Num 0) (Num 0))
   \<and> addThenSubtract (Vector3 (Num 1) (Num 0) (Num 0))
        (Vector3 (Num 9007199254740992) (Num 0) (Num 0))
      = Inr (Vector3 (Num 0) (Num 0) (Num 0))
   \<and> addThenSubtract (Vector3 (Num 1) (Num 0) (Num 0))
        (Vector3 (Num 9007199254740992) (Num 0) (Num 0))
      \<noteq> Inr (Vector3 (Num 1) (Num 0) (Num 0))"
  by (simp add: finiteVector_def finiteNum_def representable_examples addThenSubtract_def
      addVectors_def subtractVectors_def minus_jsnum_def rounded_def fl_examples)

subsection \<open>Drop counts\<close>

lemma successes_0: "successes rs start 0 = 0"
  by (simp add: successes_def)

lemma successes_Suc:
  "successes rs start (Suc n) =
     (if rs start < fl (8 / 15) then 1 else 0) + successes rs (Suc start) n"
proof -
  have "[0 ..< Suc n] = 0 # map Suc [0 ..< n]"
    by (simp add: upt_conv_Cons map_Suc_upt del: upt_Suc)
  then show ?thesis
    by (simp add: successes_def filter_map o_def del: upt_Suc)
qed

lemma successes_bounds: "0 \<le> successes rs start n \<and> successes rs start n \<le> int n"
proof -
  have "length (filter (\<lambda>k. rs (start + k) < fl (8 / 15)) [0 ..< n]) \<le> length [0 ..< n]"
    by (rule length_filter_le)
  then show ?thesis by (simp add: successes_def)
qed

lemma successProbability_eq: "successProbability = Num (fl (8 / 15))"
  by (simp add: successProbability_def rounded_finite)

lemma additionalDropsLoop_count:
  "i \<le> trials \<Longrightarrow>
   additionalDropsLoop i trials a w =
     (a + successes (randoms w) (drawn w) (nat (trials - i)),
      w\<lparr>drawn := drawn w + nat (trials - i)\<rparr>)"
proof (induction i trials a w rule: additionalDropsLoop.induct)
  case (1 i trials a w)
  show ?case
  proof (cases "i < trials")
    case False
    with "1.prems" have "trials - i = 0" by simp
    with False show ?thesis
      by (subst additionalDropsLoop.simps) (simp add: successes_0)
  next
    case True
    then have n: "nat (trials - i) = Suc (nat (trials - (i + 1)))" by simp
    have le: "i + 1 \<le> trials" using True by simp
    have "(Num (randoms w (drawn w)), w\<lparr>drawn := drawn w + 1\<rparr>) = Math_random w"
      by (simp add: Math_random_def)
    note IH = "1.IH" [OF True refl this le]
    show ?thesis
      apply (subst additionalDropsLoop.simps)
      apply (simp only: n successes_Suc)
      using True IH
      apply (simp add: Math_random_def successProbability_eq)
      done
  qed
qed

lemma dropBase_bounds:
  assumes r: "representable r" "0 \<le> r" "r < 1" and f: "0 \<le> f"
  shows "1 \<le> \<lfloor>fl (r * of_int (f + 1))\<rfloor> + 1" and "\<lfloor>fl (r * of_int (f + 1))\<rfloor> + 1 \<le> f + 1"
proof -
  define K :: rat where "K = of_int (f + 1)"
  have K: "1 \<le> K" using f by (simp add: K_def)
  have x0: "0 \<le> r * K" using r(2) K by simp
  from fl_nonneg [OF x0] show "1 \<le> \<lfloor>fl (r * of_int (f + 1))\<rfloor> + 1"
    by (simp add: K_def)
  define x where "x = r * K"
  have "r \<le> 1 - 1 / 2 ^ 53" using r(1,3) by (rule representable_below_one)
  then have "r * K \<le> (1 - 1 / 2 ^ 53) * K"
    using K by (intro mult_right_mono) simp_all
  then have xK: "x \<le> K - K / 2 ^ 53" by (simp add: x_def algebra_simps)
  have "\<bar>fl x - x\<bar> \<le> \<bar>x\<bar> / 2 ^ 53 + tiny" by (rule fl_rel_error)
  moreover have "\<bar>x\<bar> = x" using x0 by (simp add: x_def)
  ultimately have fx: "fl x \<le> x + x / 2 ^ 53 + tiny" by (simp add: abs_le_iff)
  have "x / 2 ^ 53 \<le> (K - K / 2 ^ 53) / 2 ^ 53" using xK by (rule divide_right_mono) simp
  then have x2: "x / 2 ^ 53 \<le> K / 2 ^ 53 - K / 2 ^ 106" by (simp add: diff_divide_distrib)
  have t: "tiny < K / 2 ^ 106"
  proof -
    have "tiny < 1 / 2 ^ 106" by (simp add: tiny_def)
    also have "\<dots> \<le> K / 2 ^ 106" using K by (simp add: divide_right_mono)
    finally show ?thesis .
  qed
  from fx xK x2 t have "fl x < K" by linarith
  then have "fl (r * K) < K" by (simp add: x_def)
  then have "fl (r * of_int (f + 1)) < of_int (f + 1)" by (simp add: K_def)
  then have "\<lfloor>fl (r * of_int (f + 1))\<rfloor> < f + 1" by (simp only: floor_less_iff)
  then show "\<lfloor>fl (r * of_int (f + 1))\<rfloor> + 1 \<le> f + 1" by simp
qed

lemma calculateDrops_sum:
  assumes "unitRandoms w"
  shows "(let f = max 0 (min fortuneLevel 3);
              base = dropBase (randoms w) (drawn w) f;
              bonus = successes (randoms w) (drawn w + 1) (nat (3 + f))
          in calculateDrops fortuneLevel w
               = (Num (of_int (base + bonus)), w\<lparr>drawn := drawn w + 1 + nat (3 + f)\<rparr>)
             \<and> 1 \<le> base \<and> base \<le> f + 1
             \<and> 0 \<le> bonus \<and> bonus \<le> 3 + f
             \<and> 1 \<le> base + bonus \<and> base + bonus \<le> 4 + 2 * f)"
proof -
  define f where "f = max 0 (min fortuneLevel 3)"
  define r where "r = randoms w (drawn w)"
  define base where "base = dropBase (randoms w) (drawn w) f"
  define bonus where "bonus = successes (randoms w) (drawn w + 1) (nat (3 + f))"
  have f: "0 \<le> f" "f \<le> 3" by (simp_all add: f_def)
  from assms have r: "representable r" "0 \<le> r" "r < 1"
    by (simp_all add: unitRandoms_def r_def)
  note b = dropBase_bounds [OF r f(1)]
  then have b': "1 \<le> base" "base \<le> f + 1" by (simp_all add: base_def dropBase_def r_def)
  note s = successes_bounds [of "randoms w" "drawn w + 1" "nat (3 + f)", folded bonus_def]
  have loop: "additionalDropsLoop 0 (3 + f) 0 (w\<lparr>drawn := drawn w + 1\<rparr>)
      = (bonus, w\<lparr>drawn := drawn w + 1 + nat (3 + f)\<rparr>)"
    using f by (subst additionalDropsLoop_count) (simp_all add: bonus_def)
  have k: "toNum (f + 1) = Num (of_int (f + 1))"
    using f by (intro toNum_small) simp
  have "\<bar>r * of_int (f + 1)\<bar> \<le> 1 * 4"
    unfolding abs_mult using r f by (intro mult_mono) simp_all
  then have prod: "Num r * Num (of_int (f + 1)) = Num (fl (r * of_int (f + 1)))"
    by (simp add: rounded_finite)
  have "\<bar>base\<bar> \<le> 2 ^ 53" using b' f by simp
  from rounded_of_int [OF this]
  have initial: "Math_floor (Num (fl (r * of_int (f + 1)))) + Num 1 = Num (of_int base)"
    by (simp add: base_def dropBase_def r_def)
  have "\<bar>bonus\<bar> \<le> 2 ^ 53" using s f by simp
  then have bn: "toNum bonus = Num (of_int bonus)" by (rule toNum_small)
  have "\<bar>base + bonus\<bar> \<le> 2 ^ 53" using b' s f by simp
  from rounded_of_int [OF this]
  have total: "Num (of_int base) + Num (of_int bonus) = Num (of_int (base + bonus))"
    by simp
  have md: "Math_random w = (Num r, w\<lparr>drawn := drawn w + 1\<rparr>)"
    by (simp add: Math_random_def r_def)
  have "calculateDrops fortuneLevel w
      = (Math_floor (Num r * toNum (f + 1)) + Num 1 + toNum bonus,
         w\<lparr>drawn := drawn w + 1 + nat (3 + f)\<rparr>)"
    unfolding calculateDrops_def Let_def f_def [symmetric]
    by (simp only: md prod.case loop)
  then have "calculateDrops fortuneLevel w
      = (Num (of_int (base + bonus)), w\<lparr>drawn := drawn w + 1 + nat (3 + f)\<rparr>)"
    by (simp only: k prod initial bn total)
  with b' s f show ?thesis
    unfolding f_def [symmetric] Let_def base_def [symmetric] bonus_def [symmetric] by simp
qed

text \<open>
  C2 (as amended). With the fortune level clamped to \<open>f\<close> in \<open>[0, 3]\<close>, \<open>calculateDrops\<close>
  returns base plus bonus: the base is one more than the floor of the binary64 product
  of the first draw and \<open>f + 1\<close> and lies in \<open>[1, f + 1]\<close>, the bonus is the number of the
  next \<open>3 + f\<close> draws below the binary64 quotient \<open>8 / 15\<close>, and the count lies in
  \<open>[1, 4 + 2 f]\<close>.
\<close>

theorem calculateDrops_range:
  assumes "unitRandoms w"
  shows "(let f = max 0 (min fortuneLevel 3);
              base = \<lfloor>fl (randoms w (drawn w) * of_int (f + 1))\<rfloor> + 1;
              bonus = successes (randoms w) (drawn w + 1) (nat (3 + f))
          in calculateDrops fortuneLevel w
               = (Num (of_int (base + bonus)), w\<lparr>drawn := drawn w + 1 + nat (3 + f)\<rparr>)
             \<and> 1 \<le> base \<and> base \<le> f + 1
             \<and> 0 \<le> bonus \<and> bonus \<le> 3 + f
             \<and> 1 \<le> base + bonus \<and> base + bonus \<le> 4 + 2 * f)"
  using calculateDrops_sum [OF assms, of fortuneLevel] by (simp only: dropBase_def)

lemma unitRandoms_example: "unitRandoms (exampleWorld\<lparr>randoms := highThenLow\<rparr>)"
  by (simp add: unitRandoms_def highThenLow_def representable_examples)

lemma successes_highThenLow: "successes highThenLow (Suc 0) 4 = 4"
  by (simp add: successes_def highThenLow_def upt_rec fl_fractions)

lemma highThenLow_0 [simp]: "highThenLow 0 = 3 / 4"
  by (simp add: highThenLow_def)

lemma floor_three_halves [simp]: "\<lfloor>3 / 2 :: rat\<rfloor> = 1"
  by (simp add: floor_eq_iff)

lemma exampleWorld_drawn: "drawn exampleWorld = 0"
  by (simp add: exampleWorld_def)

lemma calculateDrops_example:
  "calculateDrops 1 (exampleWorld\<lparr>randoms := highThenLow\<rparr>)
     = (Num 6, exampleWorld\<lparr>randoms := highThenLow, drawn := 5\<rparr>)"
  using calculateDrops_sum [OF unitRandoms_example, of 1]
  by (simp add: Let_def dropBase_def exampleWorld_drawn successes_highThenLow highThenLow_0
        fl_fractions)

text \<open>
  C2 (as stated) fails: at fortune level 1 a first draw of \<open>0.75\<close> gives the base 2, four
  draws below \<open>8/15\<close> give the bonus 4, and the count 6 exceeds \<open>4 + 1\<close>.
\<close>

theorem calculateDrops_range_counterexample:
  "unitRandoms (exampleWorld\<lparr>randoms := highThenLow\<rparr>)
   \<and> fst (calculateDrops 1 (exampleWorld\<lparr>randoms := highThenLow\<rparr>)) = Num 6
   \<and> \<not> fst (calculateDrops 1 (exampleWorld\<lparr>randoms := highThenLow\<rparr>)) \<le> Num (4 + 1)"
  using unitRandoms_example by (simp add: calculateDrops_example)

theorem calculateDrops_range_witness:
  "unitRandoms (exampleWorld\<lparr>randoms := highThenLow\<rparr>)
   \<and> calculateDrops 1 (exampleWorld\<lparr>randoms := highThenLow\<rparr>)
       = (Num 6, exampleWorld\<lparr>randoms := highThenLow, drawn := 5\<rparr>)"
  using calculateDrops_range [OF unitRandoms_example, of 1] unitRandoms_example
  by (simp add: Let_def exampleWorld_drawn successes_highThenLow highThenLow_0 fl_fractions
       )

subsection \<open>Giving items to an entity\<close>

lemma availableSpace_foldl_mono:
  assumes "hostContainer h c"
    and "maxAmount itemstack = stackSize h (typeId itemstack) \<and> 0 \<le> maxAmount itemstack"
  shows "acc \<le> foldl (\<lambda>totalAvailableSpace (currentSlotItem, index).
                  case currentSlotItem of
                    None \<Rightarrow>
                      if \<not> only
                      then totalAvailableSpace + maxAmount itemstack
                      else totalAvailableSpace
                  | Some current \<Rightarrow>
                      if typeId current = typeId itemstack
                      then totalAvailableSpace + (maxAmount itemstack - amount current)
                      else totalAvailableSpace)
           acc (zip c ns)"
  using assms(1)
proof (induction c arbitrary: acc ns)
  case Nil
  then show ?case by simp
next
  case (Cons s c)
  show ?case
  proof (cases ns)
    case Nil
    then show ?thesis by simp
  next
    case (Cons n ns')
    from Cons.prems have c: "hostContainer h c"
      by (simp add: hostContainer_def)
    from Cons.prems assms(2) have step: "acc \<le> (case s of
                    None \<Rightarrow>
                      if \<not> only
                      then acc + maxAmount itemstack
                      else acc
                  | Some current \<Rightarrow>
                      if typeId current = typeId itemstack
                      then acc + (maxAmount itemstack - amount current)
                      else acc)"
      by (auto simp: hostContainer_def hostStack_def split: option.splits)
    show ?thesis
      using order_trans [OF step Cons.IH [OF c]] Cons by simp
  qed
qed

lemma availableSpace_nonneg:
  "hostContainer h c \<Longrightarrow>
   maxAmount itemstack = stackSize h (typeId itemstack) \<and> 0 \<le> maxAmount itemstack \<Longrightarrow>
   0 \<le> getAvailableSpaceForItemStack w (IsContainer c) itemstack only"
  unfolding getAvailableSpaceForItemStack_def getContainerSlots_def Let_def
  by (simp add: availableSpace_foldl_mono)


lemma hostStack_examples:
  "hostStack exampleHost ironScythe" "hostStack exampleHost (wheat 62)"
  "hostStack exampleHost (wheat 5)"
  by (simp_all add: hostStack_def exampleHost_def ironScythe_def wheat_def newItemStack_def)

lemma wheat_fields:
  "amount (wheat n) = n" "typeId (wheat n) = ''minecraft:wheat''" "maxAmount (wheat n) = 64"
  by (simp_all add: wheat_def newItemStack_def exampleHost_def)

lemma farmWorld_container:
  "getEntityContainer farmWorld 7 = Some [Some ironScythe, Some (wheat 62)]"
  by (simp add: getEntityContainer_def farmWorld_def)


subsection \<open>Ripeness, and crops that are not ripe\<close>

text \<open>
  C8. \<open>isCropRipe\<close> holds exactly when the growth state of the block is 7: it fails for
  the stages 0 to 6 and for a block without a growth state.
\<close>

theorem isCropRipe_iff:
  "(isCropRipe w crop \<longleftrightarrow> getBlockState w crop ''growth'' = Some 7)
   \<and> (\<forall>g. getBlockState w crop ''growth'' = Some g \<and> 0 \<le> g \<and> g \<le> 6 \<longrightarrow> \<not> isCropRipe w crop)
   \<and> (getBlockState w crop ''growth'' = None \<longrightarrow> \<not> isCropRipe w crop)"
  by (simp add: isCropRipe_def)

lemma farmWorld_growth:
  "getBlockState farmWorld (Vector3 2 64 0) ''growth'' = Some 7"
  "getBlockState farmWorld (Vector3 3 64 0) ''growth'' = Some 3"
  "getBlockState farmWorld (Vector3 0 0 0) ''growth'' = None"
  by (simp_all add: getBlockState_def farmWorld_def farmBlocks_def)

theorem isCropRipe_iff_witness:
  "isCropRipe farmWorld (Vector3 2 64 0)
   \<and> getBlockState farmWorld (Vector3 3 64 0) ''growth'' = Some 3
   \<and> \<not> isCropRipe farmWorld (Vector3 3 64 0)
   \<and> getBlockState farmWorld (Vector3 0 0 0) ''growth'' = None
   \<and> \<not> isCropRipe farmWorld (Vector3 0 0 0)"
  using isCropRipe_iff [of farmWorld "Vector3 2 64 0"]
    isCropRipe_iff [of farmWorld "Vector3 3 64 0"]
    isCropRipe_iff [of farmWorld "Vector3 0 0 0"]
  by (simp add: farmWorld_growth)

text \<open>
  C10. On a block that is not ripe \<open>harvestCrop\<close> leaves the world as it was: no item is
  added or spawned, no container and no block changes. It returns normally for a player
  with an inventory.
\<close>

theorem harvestCrop_unripe_noop:
  "\<not> isCropRipe w crop \<Longrightarrow>
   snd (harvestCrop h crop player w) = w
   \<and> (getEntityContainer w (entityId player) \<noteq> None
        \<longrightarrow> fst (harvestCrop h crop player w) = Inr ())"
  by (auto simp: harvestCrop_def getHeldItem_def getHeldSlot_def Let_def
           split: sum.splits option.splits)

theorem harvestCrop_unripe_noop_witness:
  "\<not> isCropRipe farmWorld (Vector3 3 64 0)
   \<and> getEntityContainer farmWorld (entityId examplePlayer) \<noteq> None
   \<and> harvestCrop exampleHost (Vector3 3 64 0) examplePlayer farmWorld = (Inr (), farmWorld)"
proof -
  have u: "\<not> isCropRipe farmWorld (Vector3 3 64 0)"
    by (simp add: isCropRipe_def farmWorld_growth)
  have c: "getEntityContainer farmWorld (entityId examplePlayer) \<noteq> None"
    by (simp add: examplePlayer_def farmWorld_container)
  show ?thesis
    using harvestCrop_unripe_noop [OF u, of exampleHost examplePlayer] u c
    by (simp add: prod_eq_iff)
qed

subsection \<open>Stacked plants\<close>

lemma Dimension_getBlock_shiftUp:
  "Dimension_getBlock w (Vector3 (of_int (vx b)) (of_int (vy b) + real k) (of_int (vz b)))
     = (if loaded w (shiftUp b k) then Some (shiftUp b k) else None)"
proof -
  have "\<lfloor>real_of_int (vy b) + real_of_int (int k)\<rfloor> = vy b + int k"
    by (simp only: of_int_add [symmetric] floor_of_int)
  then have "\<lfloor>real_of_int (vy b) + real k\<rfloor> = vy b + int k"
    by simp
  then show ?thesis
    by (simp add: Dimension_getBlock_def shiftUp_def)
qed

lemma stackedPlantLoop_column:
  assumes "plantColumn w bottom n"
  shows "1 \<le> k \<Longrightarrow> k \<le> n \<Longrightarrow>
         stackedPlantLoop w bottom (int k) acc = Inr (acc @ map (shiftUp bottom) [k ..< n])"
proof (induction "n - k" arbitrary: k acc)
  case 0
  then have k: "k = n" by simp
  from assms have top: "\<not> (loaded w (shiftUp bottom n)
           \<and> Block_typeId w (shiftUp bottom n) = Block_typeId w bottom)"
    by (simp add: plantColumn_def)
  show ?case
    unfolding k
    by (subst stackedPlantLoop.simps)
       (use top in \<open>simp add: addVectors_def Block_location_def Dimension_getBlock_shiftUp Let_def\<close>)
next
  case (Suc d)
  then have lt: "k < n" by simp
  from assms lt have here: "loaded w (shiftUp bottom k)"
    "Block_typeId w (shiftUp bottom k) = Block_typeId w bottom"
    by (simp_all add: plantColumn_def)
  from assms lt have "vy bottom + int k \<le> 319"
    by (simp add: plantColumn_def)
  then have "real_of_int (vy bottom + int k) \<le> 319"
    by (simp only: of_int_le_numeral_iff)
  then have y: "\<not> maxY < real_of_int (vy bottom) + real k"
    by (simp add: maxY_def)
  have "stackedPlantLoop w bottom (int (Suc k)) (acc @ [shiftUp bottom k])
      = Inr ((acc @ [shiftUp bottom k]) @ map (shiftUp bottom) [Suc k ..< n])"
    using Suc.hyps(2) Suc.prems lt by (intro Suc.hyps(1)) simp_all
  then have IH: "stackedPlantLoop w bottom (int k + 1) (acc @ [shiftUp bottom k])
      = Inr (acc @ map (shiftUp bottom) [k ..< n])"
    using lt by (simp add: upt_conv_Cons add.commute)
  show ?case
    by (subst stackedPlantLoop.simps)
       (simp add: addVectors_def Block_location_def Let_def Dimension_getBlock_shiftUp y here IH)
qed

lemma getStackedPlant_column:
  "plantColumn w bottom n \<Longrightarrow>
   getStackedPlant w (Some bottom) = Inr (map (shiftUp bottom) [1 ..< n])"
  using stackedPlantLoop_column [of w bottom n 1 "[]"]
  by (simp add: getStackedPlant_def plantColumn_def Suc_leI)

lemma farmWorld_cells:
  "cells farmWorld = farmBlocks" "loaded farmWorld = (\<lambda>b. True)"
  by (simp_all add: farmWorld_def exampleWorld_def)

lemma farmWorld_reeds:
  "Block_typeId farmWorld (Vector3 5 63 0) = ''minecraft:dirt''"
  "Block_typeId farmWorld (Vector3 5 64 0) = ''minecraft:reeds''"
  "Block_typeId farmWorld (Vector3 5 65 0) = ''minecraft:reeds''"
  "Block_typeId farmWorld (Vector3 5 66 0) = ''minecraft:reeds''"
  "Block_typeId farmWorld (Vector3 5 67 0) = ''minecraft:air''"
  by (simp_all add: Block_typeId_def farmWorld_cells farmBlocks_def)

lemma farmWorld_column: "plantColumn farmWorld (Vector3 5 64 0) 3"
  unfolding plantColumn_def
  by (auto simp: farmWorld_cells farmWorld_reeds shiftUp_def less_Suc_eq numeral_3_eq_3)

text \<open>
  C1. The claim asks for all \<open>n\<close> blocks of the column, bottom first. The loop of
  \<open>getStackedPlant\<close> starts one level above the block it is given: on the three reeds at
  \<open>(5, 64..66, 0)\<close>, called with the bottom reed, it returns the two upper reeds only.
\<close>

theorem getStackedPlant_skips_bottom:
  "Block_typeId farmWorld (Vector3 5 63 0) = ''minecraft:dirt''
   \<and> Block_typeId farmWorld (Vector3 5 64 0) = ''minecraft:reeds''
   \<and> Block_typeId farmWorld (Vector3 5 65 0) = ''minecraft:reeds''
   \<and> Block_typeId farmWorld (Vector3 5 66 0) = ''minecraft:reeds''
   \<and> Block_typeId farmWorld (Vector3 5 67 0) = ''minecraft:air''
   \<and> getStackedPlant farmWorld (Some (Vector3 5 64 0)) = Inr [Vector3 5 65 0, Vector3 5 66 0]"
  using getStackedPlant_column [OF farmWorld_column]
  by (simp add: farmWorld_reeds shiftUp_def upt_rec)

text \<open>
  C5. When the raycast of \<open>getSupportBlock\<close> hits nothing, the lookup returns \<open>undefined\<close>
  and logs a warning without throwing; \<open>harvestSugarcane\<close> and \<open>harvestBamboo\<close> then end
  (with the \<open>TypeError\<close> of \<open>supportBlock.above()\<close>) before any block is harvested: apart
  from the warning the world is unchanged.
\<close>

theorem stacked_harvest_without_support:
  assumes "getBlockFromRay h w (Block_center block) (Vector3 0 (- 1) 0) [Block_typeId w block] = None"
  shows "(let w' = w\<lparr>warnings := warnings w
                       @ [''Support block could not be found for: '' @ Block_typeId w block]\<rparr>
          in getSupportBlock h block w = (None, w')
             \<and> harvestSugarcane h block player w = (Inl TypeError, w')
             \<and> harvestBamboo h block player w = (Inl TypeError, w')
             \<and> cells w' = cells w \<and> containers w' = containers w
             \<and> deposits w' = deposits w \<and> spawnedItems w' = spawnedItems w)"
  using assms
  by (simp add: getSupportBlock_def harvestSugarcane_def harvestBamboo_def Let_def)

theorem stacked_harvest_without_support_witness:
  "getBlockFromRay exampleHost farmWorld (Block_center (Vector3 5 65 0)) (Vector3 0 (- 1) 0)
     [Block_typeId farmWorld (Vector3 5 65 0)] = None
   \<and> getSupportBlock exampleHost (Vector3 5 65 0) farmWorld
       = (None, farmWorld\<lparr>warnings := [''Support block could not be found for: minecraft:reeds'']\<rparr>)
   \<and> harvestSugarcane exampleHost (Vector3 5 65 0) examplePlayer farmWorld
       = (Inl TypeError,
          farmWorld\<lparr>warnings := [''Support block could not be found for: minecraft:reeds'']\<rparr>)"
proof -
  have ray: "getBlockFromRay exampleHost farmWorld (Block_center (Vector3 5 65 0))
     (Vector3 0 (- 1) 0) [Block_typeId farmWorld (Vector3 5 65 0)] = None"
    by (simp add: exampleHost_def)
  have warn: "warnings farmWorld = []"
    by (simp add: farmWorld_def exampleWorld_def)
  show ?thesis
    using stacked_harvest_without_support [OF ray, of examplePlayer] ray
    by (simp add: Let_def farmWorld_reeds warn)
qed

subsection \<open>Harvesting a ripe crop\<close>

lemma dropSample_bounds:
  assumes "\<forall>k. representable (rs k) \<and> 0 \<le> rs k \<and> rs k < 1" and "0 \<le> f"
  shows "1 \<le> dropSample rs pos f \<and> dropSample rs pos f \<le> 4 + 2 * f"
proof -
  from assms(1) have "representable (rs pos)" "0 \<le> rs pos" "rs pos < 1" by simp_all
  note b = dropBase_bounds [OF this assms(2)]
  note s = successes_bounds [of rs "pos + 1" "nat (3 + f)"]
  from b s assms(2) show ?thesis by (simp add: dropSample_def dropBase_def)
qed

lemma getDropCount_sample:
  assumes "unitRandoms w"
  shows "getDropCount scythe w
     = (Num (of_int (dropSample (randoms w) (drawn w) (clampedFortune scythe))),
        w\<lparr>drawn := drawn w + nat (4 + clampedFortune scythe)\<rparr>)"
proof -
  define level where "level = (case scythe of None \<Rightarrow> 0 | Some i \<Rightarrow> getFortuneLevel i)"
  define f where "f = max 0 (min level 3)"
  have f: "0 \<le> f" by (simp add: f_def)
  from calculateDrops_sum [OF assms, of level]
  have "calculateDrops level w
      = (Num (of_int (dropSample (randoms w) (drawn w) f)),
         w\<lparr>drawn := drawn w + 1 + nat (3 + f)\<rparr>)"
    unfolding Let_def f_def [symmetric] dropSample_def by simp
  moreover have "drawn w + 1 + nat (3 + f) = drawn w + nat (4 + f)"
    using f by simp
  moreover have "getDropCount scythe w = calculateDrops level w"
    by (simp add: getDropCount_def level_def)
  moreover have "clampedFortune scythe = f"
    by (simp add: clampedFortune_def getFortuneLevel_def f_def level_def
          split: option.splits)
  ultimately show ?thesis by simp
qed

lemma clampedFortune_nonneg: "0 \<le> clampedFortune scythe"
  by (simp add: clampedFortune_def)

lemma spaceFor_container:
  "containers w (entityId player) = Some c \<Longrightarrow>
   getAvailableSpaceForItemStack w (IsContainer c) (newItemStack h itemId n) False
     = spaceFor h w player itemId"
  by (simp add: spaceFor_def getAvailableSpaceForItemStack_def getContainerSlots_def
        getEntityContainer_def newItemStack_def Let_def cong: option.case_cong)

lemma giveEntityItems_effect:
  assumes "containers w (entityId player) = Some c" and "hostContainer h c"
    and "\<forall>t. 1 \<le> stackSize h t" and "0 \<le> n"
  shows "0 \<le> min n (spaceFor h w player itemId)"
    and "giveEntityItems h (entityId player) (newItemStack h itemId n) w
           = (n - min n (spaceFor h w player itemId),
              if 0 < min n (spaceFor h w player itemId)
              then container_addItem h (entityId player)
                     (newItemStack h itemId (min n (spaceFor h w player itemId))) w
              else w)"
proof -
  have "1 \<le> stackSize h itemId" using assms(3) by simp
  then have "0 \<le> getAvailableSpaceForItemStack w (IsContainer c) (newItemStack h itemId n) False"
    using assms(2) by (intro availableSpace_nonneg) (simp_all add: newItemStack_def)
  then have "0 \<le> spaceFor h w player itemId"
    by (simp add: spaceFor_container [OF assms(1)])
  with assms(4) show "0 \<le> min n (spaceFor h w player itemId)" by simp
  show "giveEntityItems h (entityId player) (newItemStack h itemId n) w
           = (n - min n (spaceFor h w player itemId),
              if 0 < min n (spaceFor h w player itemId)
              then container_addItem h (entityId player)
                     (newItemStack h itemId (min n (spaceFor h w player itemId))) w
              else w)"
    using assms(1)
    by (simp add: giveEntityItems_def getEntityContainer_def Let_def
          spaceFor_container [OF assms(1)])
       (simp add: newItemStack_def)
qed

lemma observers_drawn:
  "handedOut player block j (w\<lparr>drawn := k\<rparr>) = handedOut player block j w"
  "totalDeposited (w\<lparr>drawn := k\<rparr>) = totalDeposited w"
  "totalSpawned (w\<lparr>drawn := k\<rparr>) = totalSpawned w"
  "hasInventory h (w\<lparr>drawn := k\<rparr>) player = hasInventory h w player"
  "spaceFor h (w\<lparr>drawn := k\<rparr>) player itemId = spaceFor h w player itemId"
  "container_addItem h e s (w\<lparr>drawn := k\<rparr>) = (container_addItem h e s w)\<lparr>drawn := k\<rparr>"
  by (simp_all add: handedOut_def depositedTo_def spawnedAt_def totalDeposited_def
        totalSpawned_def hasInventory_def spaceFor_def getAvailableSpaceForItemStack_def
        getContainerSlots_def getEntityContainer_def container_addItem_def
        split: option.splits)

lemma observers_addItem:
  assumes "containers w (entityId player) = Some c"
  shows "handedOut player block j (container_addItem h (entityId player) (newItemStack h itemId d) w)
           = handedOut player block j w + (if j = itemId then d else 0)"
    and "totalDeposited (container_addItem h (entityId player) (newItemStack h itemId d) w)
           = totalDeposited w + d"
    and "totalSpawned (container_addItem h (entityId player) (newItemStack h itemId d) w)
           = totalSpawned w"
    and "randoms (container_addItem h (entityId player) (newItemStack h itemId d) w) = randoms w"
    and "drawn (container_addItem h (entityId player) (newItemStack h itemId d) w) = drawn w"
    and "cells (container_addItem h (entityId player) (newItemStack h itemId d) w) = cells w"
    and "containers (container_addItem h (entityId player) (newItemStack h itemId d) w)
           (entityId player) = Some (addItem h c (newItemStack h itemId d))"
    and "deposits (container_addItem h (entityId player) (newItemStack h itemId d) w)
           = deposits w @ [(entityId player, newItemStack h itemId d)]"
    and "spawnedItems (container_addItem h (entityId player) (newItemStack h itemId d) w)
           = spawnedItems w"
  using assms
  by (auto simp: handedOut_def depositedTo_def spawnedAt_def totalDeposited_def
        totalSpawned_def container_addItem_def newItemStack_def)

lemma observers_spawn:
  "handedOut player block j (spawnItems h block itemId r w)
     = handedOut player block j w + (if j = itemId then r else 0)"
  "totalDeposited (spawnItems h block itemId r w) = totalDeposited w"
  "totalSpawned (spawnItems h block itemId r w) = totalSpawned w + r"
  "randoms (spawnItems h block itemId r w) = randoms w"
  "drawn (spawnItems h block itemId r w) = drawn w"
  "hasInventory h' (spawnItems h block itemId r w) player = hasInventory h' w player"
  "cells (spawnItems h block itemId r w) = cells w"
  "deposits (spawnItems h block itemId r w) = deposits w"
  "containers (spawnItems h block itemId r w) = containers w"
  "spawnedItems (spawnItems h block itemId r w)
     = spawnedItems w @ [(newItemStack h itemId r, Block_center block)]"
  by (auto simp: handedOut_def depositedTo_def spawnedAt_def totalDeposited_def
        totalSpawned_def hasInventory_def spawnItems_def newItemStack_def)

lemma quantity_number:
  assumes "1 \<le> q0" and "q0 \<le> 2 ^ 52"
  shows "(if isItemSeed itemId then Num (of_int q0) - Num 1 else Num (of_int q0))
           = Num (of_int (q0 - seedShare itemId))"
proof -
  have "\<bar>q0 - 1\<bar> \<le> 2 ^ 53" using assms by simp
  from rounded_of_int [OF this] show ?thesis
    by (simp add: seedShare_def minus_jsnum_def)
qed

lemma harvestDrop_step:
  assumes host: "hostKeepsStacks h" and inv: "hasInventory h w player" and rnd: "unitRandoms w"
  shows "dropStep h player crop itemId (clampedFortune scythe) w
           (harvestDrop h crop player scythe itemId w)"
proof -
  define f where "f = clampedFortune scythe"
  define q0 where "q0 = dropSample (randoms w) (drawn w) f"
  define w1 where "w1 = w\<lparr>drawn := drawn w + nat (4 + f)\<rparr>"
  define q where "q = q0 - seedShare itemId"
  define d where "d = min q (spaceFor h w player itemId)"
  have dc: "getDropCount scythe w = (Num (of_int q0), w1)"
    by (simp add: getDropCount_sample [OF rnd] q0_def w1_def f_def)
  have f3: "0 \<le> f" "f \<le> 3" by (simp_all add: f_def clampedFortune_def)
  from rnd have q0: "1 \<le> q0" "q0 \<le> 4 + 2 * f"
    using dropSample_bounds [of "randoms w" f "drawn w"] f3
    by (simp_all add: unitRandoms_def q0_def)
  then have q: "0 \<le> q" by (simp add: q_def seedShare_def)
  have "q0 \<le> 2 ^ 52" using q0 f3 by simp
  from quantity_number [OF q0(1) this]
  have qq: "(if isItemSeed itemId then Num (of_int q0) - Num 1 else Num (of_int q0))
      = Num (of_int q)"
    by (simp add: q_def)
  from inv obtain c where c: "containers w (entityId player) = Some c" "hostContainer h c"
    by (auto simp: hasInventory_def split: option.splits)
  then have c1: "containers w1 (entityId player) = Some c"
    by (simp add: w1_def)
  from host have sizes: "\<forall>t. 1 \<le> stackSize h t"
    and keep: "hostContainer h (addItem h c s)" for s
    using c(2) by (simp_all add: hostKeepsStacks_def)
  have w1: "handedOut player crop j w1 = handedOut player crop j w"
    "totalDeposited w1 = totalDeposited w" "totalSpawned w1 = totalSpawned w"
    "randoms w1 = randoms w" "drawn w1 = drawn w + nat (4 + f)"
    "cells w1 = cells w" "hasInventory h w1 player"
    "deposits w1 = deposits w" "spawnedItems w1 = spawnedItems w"
    "containers w1 = containers w" "spaceFor h w1 player itemId = spaceFor h w player itemId" for j
    using inv by (simp_all add: w1_def observers_drawn)
  note give = giveEntityItems_effect [OF c1 c(2) sizes q, of itemId, unfolded w1(11),
      folded d_def]
  have d: "0 \<le> d" "d \<le> q" using give(1) by (simp_all add: d_def)
  define w2 where "w2 = (if 0 < d
                         then container_addItem h (entityId player) (newItemStack h itemId d) w1
                         else w1)"
  have w2: "handedOut player crop j w2 = handedOut player crop j w + (if j = itemId then d else 0)"
    "totalDeposited w2 = totalDeposited w + d" "totalSpawned w2 = totalSpawned w"
    "randoms w2 = randoms w" "drawn w2 = drawn w + nat (4 + f)"
    "cells w2 = cells w" "hasInventory h w2 player"
    "deposits w2 = deposits w @ (if 0 < d then [(entityId player, newItemStack h itemId d)] else [])"
    "spawnedItems w2 = spawnedItems w" for j
    using d(1) keep c(2)
    by (simp_all add: w2_def observers_addItem [OF c1] w1 hasInventory_def c1 c(1))
  have w2c: "containers w2
      = containers (if 0 < d
                    then container_addItem h (entityId player) (newItemStack h itemId d) w
                    else w)"
    by (simp add: w2_def w1_def observers_drawn)
  have res: "harvestDrop h crop player scythe itemId w
        = (if 0 < q - d then spawnItems h crop itemId (q - d) w2 else w2)"
  proof (cases "0 < q")
    case True
    then show ?thesis
      by (simp add: harvestDrop_def dc qq asInteger_def give(2) w2_def)
  next
    case False
    with q d have "q = 0" "d = 0" by simp_all
    then show ?thesis
      by (simp add: harvestDrop_def dc qq w2_def)
  qed
  have out: "handedOut player crop j (harvestDrop h crop player scythe itemId w)
        = handedOut player crop j w + (if j = itemId then q else 0)" for j
    using d by (simp add: res observers_spawn w2)
  have tot: "allHandedOutBy w (harvestDrop h crop player scythe itemId w) = q"
    using d by (simp add: res allHandedOutBy_def observers_spawn w2)
  have rest: "hasInventory h (harvestDrop h crop player scythe itemId w) player"
    "randoms (harvestDrop h crop player scythe itemId w) = randoms w"
    "drawn (harvestDrop h crop player scythe itemId w) = drawn w + nat (4 + f)"
    "cells (harvestDrop h crop player scythe itemId w) = cells w"
    by (simp_all add: res observers_spawn w2)
  have logs: "givenAndSpawned h player crop itemId q w (harvestDrop h crop player scythe itemId w)"
    unfolding givenAndSpawned_def Let_def d_def [symmetric]
    using d by (simp add: res observers_spawn w2 w2c)
  show ?thesis
    using rest tot logs
    by (simp add: dropStep_def handedOutBy_def out q_def q0_def f_def)
qed

lemma afterDrops_0 [simp]: "afterDrops h crop player scythe ids w 0 = w"
  by (simp add: afterDrops_def)

lemma afterDrops_Suc:
  "k < length ids \<Longrightarrow>
   afterDrops h crop player scythe ids w (Suc k)
     = harvestDrop h crop player scythe (ids ! k) (afterDrops h crop player scythe ids w k)"
  by (simp add: afterDrops_def take_Suc_conv_app_nth)

lemma afterDrops_all:
  "afterDrops h crop player scythe ids w (length ids)
     = foldl (\<lambda>w' itemId. harvestDrop h crop player scythe itemId w') w ids"
  by (simp add: afterDrops_def)

lemma afterDrops_state:
  assumes host: "hostKeepsStacks h" and inv: "hasInventory h w player" and rnd: "unitRandoms w"
  shows "k \<le> length ids \<Longrightarrow>
     hasInventory h (afterDrops h crop player scythe ids w k) player
     \<and> randoms (afterDrops h crop player scythe ids w k) = randoms w
     \<and> drawn (afterDrops h crop player scythe ids w k)
         = drawn w + k * nat (4 + clampedFortune scythe)"
proof (induction k)
  case 0
  with inv show ?case by simp
next
  case (Suc k)
  define wk where "wk = afterDrops h crop player scythe ids w k"
  from Suc have IH: "hasInventory h wk player" "randoms wk = randoms w"
    "drawn wk = drawn w + k * nat (4 + clampedFortune scythe)"
    by (simp_all add: wk_def)
  from rnd IH(2) have "unitRandoms wk" by (simp add: unitRandoms_def)
  from harvestDrop_step [OF host IH(1) this, of crop "ids ! k" scythe] Suc.prems IH
  show ?case
    by (simp add: afterDrops_Suc wk_def [symmetric] dropStep_def)
qed

lemma afterDrops_step:
  assumes host: "hostKeepsStacks h" and inv: "hasInventory h w player" and rnd: "unitRandoms w"
    and k: "k < length ids"
  shows "givenAndSpawned h player crop (ids ! k)
           (dropSample (randoms w) (drawn w + k * nat (4 + clampedFortune scythe))
              (clampedFortune scythe) - seedShare (ids ! k))
           (afterDrops h crop player scythe ids w k)
           (afterDrops h crop player scythe ids w (Suc k))"
proof -
  define wk where "wk = afterDrops h crop player scythe ids w k"
  from afterDrops_state [OF host inv rnd, of k ids crop scythe] k
  have st: "hasInventory h wk player" "randoms wk = randoms w"
    "drawn wk = drawn w + k * nat (4 + clampedFortune scythe)"
    by (simp_all add: wk_def)
  from rnd st(2) have "unitRandoms wk" by (simp add: unitRandoms_def)
  from harvestDrop_step [OF host st(1) this, of crop "ids ! k" scythe]
  show ?thesis
    by (simp add: afterDrops_Suc [OF k] wk_def [symmetric] dropStep_def st)
qed

lemma handedOutBy_trans:
  "handedOutBy player crop j w w'' = handedOutBy player crop j w w' + handedOutBy player crop j w' w''"
  "allHandedOutBy w w'' = allHandedOutBy w w' + allHandedOutBy w' w''"
  by (simp_all add: handedOutBy_def allHandedOutBy_def)

lemma foldl_harvestDrop:
  assumes host: "hostKeepsStacks h"
  shows "hasInventory h w player \<Longrightarrow> unitRandoms w \<Longrightarrow> distinct ids \<Longrightarrow>
     (let w' = foldl (\<lambda>w' itemId. harvestDrop h crop player scythe itemId w') w ids;
          f = clampedFortune scythe
      in hasInventory h w' player \<and> randoms w' = randoms w \<and> cells w' = cells w
         \<and> (\<forall>k < length ids.
               handedOutBy player crop (ids ! k) w w'
                 = dropSample (randoms w) (drawn w + k * nat (4 + f)) f - seedShare (ids ! k))
         \<and> (\<forall>j. j \<notin> set ids \<longrightarrow> handedOutBy player crop j w w' = 0)
         \<and> allHandedOutBy w w' = sum_list (map (\<lambda>itemId. handedOutBy player crop itemId w w') ids))"
proof (induction ids arbitrary: w)
  case Nil
  then show ?case by (simp add: handedOutBy_def allHandedOutBy_def)
next
  case (Cons a ids)
  define f where "f = clampedFortune scythe"
  define wa where "wa = harvestDrop h crop player scythe a w"
  define w' where "w' = foldl (\<lambda>w' itemId. harvestDrop h crop player scythe itemId w') wa ids"
  from harvestDrop_step [OF host Cons.prems(1,2), of crop a scythe]
  have step: "dropStep h player crop a f w wa"
    by (simp add: wa_def f_def)
  then have wa: "hasInventory h wa player" "randoms wa = randoms w" "cells wa = cells w"
    "drawn wa = drawn w + nat (4 + f)"
    and ga: "handedOutBy player crop a w wa = dropSample (randoms w) (drawn w) f - seedShare a"
    and others: "\<And>j. j \<noteq> a \<Longrightarrow> handedOutBy player crop j w wa = 0"
    and all_a: "allHandedOutBy w wa = handedOutBy player crop a w wa"
    by (simp_all add: dropStep_def)
  from Cons.prems(2) wa(2) have rnd: "unitRandoms wa" by (simp add: unitRandoms_def)
  from Cons.prems(3) have dist: "distinct ids" and a: "a \<notin> set ids" by simp_all
  from Cons.IH [OF wa(1) rnd dist]
  have IH: "hasInventory h w' player" "randoms w' = randoms wa" "cells w' = cells wa"
    "\<forall>k < length ids.
        handedOutBy player crop (ids ! k) wa w'
          = dropSample (randoms wa) (drawn wa + k * nat (4 + f)) f - seedShare (ids ! k)"
    "\<forall>j. j \<notin> set ids \<longrightarrow> handedOutBy player crop j wa w' = 0"
    "allHandedOutBy wa w' = sum_list (map (\<lambda>itemId. handedOutBy player crop itemId wa w') ids)"
    by (simp_all add: w'_def f_def Let_def)
  have first: "handedOutBy player crop a w w' = handedOutBy player crop a w wa"
    using IH(5) a by (simp add: handedOutBy_trans(1) [of player crop a w w' wa])
  have later: "handedOutBy player crop i w w' = handedOutBy player crop i wa w'" if "i \<in> set ids" for i
    using that a others [of i] by (auto simp: handedOutBy_trans(1) [of player crop i w w' wa])
  have outside: "handedOutBy player crop j w w' = 0" if "j \<noteq> a" "j \<notin> set ids" for j
    using that others [of j] IH(5) by (simp add: handedOutBy_trans(1) [of player crop j w w' wa])
  have each: "handedOutBy player crop ((a # ids) ! k) w w'
        = dropSample (randoms w) (drawn w + k * nat (4 + f)) f - seedShare ((a # ids) ! k)"
    if "k < length (a # ids)" for k
  proof (cases k)
    case 0
    then show ?thesis by (simp add: first ga)
  next
    case (Suc k')
    with that have k': "k' < length ids" by simp
    then have "ids ! k' \<in> set ids" by simp
    from later [OF this] IH(4) k'
    have "handedOutBy player crop (ids ! k') w w'
        = dropSample (randoms wa) (drawn wa + k' * nat (4 + f)) f - seedShare (ids ! k')"
      by simp
    moreover have "drawn wa + k' * nat (4 + f) = drawn w + Suc k' * nat (4 + f)"
      by (simp add: wa(4))
    ultimately show ?thesis by (simp add: Suc wa(2))
  qed
  have "sum_list (map (\<lambda>itemId. handedOutBy player crop itemId w w') ids)
      = sum_list (map (\<lambda>itemId. handedOutBy player crop itemId wa w') ids)"
    by (rule arg_cong [where f = sum_list], rule map_cong) (simp_all add: later)
  then have total: "allHandedOutBy w w'
      = sum_list (map (\<lambda>itemId. handedOutBy player crop itemId w w') (a # ids))"
    using all_a IH(6) first by (simp add: handedOutBy_trans(2) [of w w' wa])
  have "foldl (\<lambda>w' itemId. harvestDrop h crop player scythe itemId w') w (a # ids) = w'"
    by (simp add: w'_def wa_def)
  then show ?case
    unfolding Let_def f_def [symmetric]
    using IH(1,2,3) wa(2,3) each outside total by simp
qed

lemma getCropDropItemId_distinct: "distinct (getCropDropItemId w crop)"
  by (simp add: getCropDropItemId_def Let_def)

lemma observers_setType:
  "handedOut player block j (Block_setType h b t w) = handedOut player block j w"
  "totalDeposited (Block_setType h b t w) = totalDeposited w"
  "totalSpawned (Block_setType h b t w) = totalSpawned w"
  "Block_typeId (Block_setType h b t w) b = t"
  "b' \<noteq> b \<Longrightarrow> cells (Block_setType h b t w) b' = cells w b'"
  by (simp_all add: handedOut_def depositedTo_def spawnedAt_def totalDeposited_def
        totalSpawned_def Block_setType_def Block_typeId_def)

lemma crop_fakeVariant:
  "isBlockCrop w crop \<Longrightarrow>
   ''djc:fake_'' @ interpolate (element (split CHR '':'' (Block_typeId w crop)) 1)
     = fakeVariant (Block_typeId w crop)"
  by (auto simp: isBlockCrop_def fakeVariant_def interpolate_def element_def)


lemma placeInFirstEmpty_keeps:
  "hostStack h s \<Longrightarrow> hostContainer h c \<Longrightarrow> hostContainer h (placeInFirstEmpty s c)"
  by (induction s c rule: placeInFirstEmpty.induct) (simp_all add: hostContainer_def)

lemma exampleHost_keeps: "hostKeepsStacks exampleHost"
proof -
  have "hostStack exampleHost (s\<lparr>amount := max 1 (min (amount s) 64), maxAmount := 64\<rparr>)" for s
    by (simp add: hostStack_def exampleHost_def)
  then have "hostContainer exampleHost c \<Longrightarrow> hostContainer exampleHost (addItem exampleHost c s)"
    for c s
    using placeInFirstEmpty_keeps [of exampleHost _ c]
    by (simp add: exampleHost_def)
  then show ?thesis
    by (simp add: hostKeepsStacks_def) (simp add: exampleHost_def)
qed

lemma farmWorld_player:
  "hasInventory exampleHost farmWorld examplePlayer"
  "slot_getItem farmWorld (entityId examplePlayer, selectedSlotIndex examplePlayer) = Some ironScythe"
  "unitRandoms farmWorld"
  "randoms farmWorld = (\<lambda>k. 0)" "drawn farmWorld = 0"
  "deposits farmWorld = []" "spawnedItems farmWorld = []"
  by (simp_all add: hasInventory_def slot_getItem_def examplePlayer_def farmWorld_def
        hostContainer_def hostStack_examples unitRandoms_def exampleWorld_def
        representable_examples)

lemma fortuneFarm_player:
  "hasInventory exampleHost fortuneFarm examplePlayer"
  "slot_getItem fortuneFarm (entityId examplePlayer, selectedSlotIndex examplePlayer)
     = Some fortuneScythe"
  "unitRandoms fortuneFarm"
  "randoms fortuneFarm = (\<lambda>k. 0)" "drawn fortuneFarm = 0"
  "deposits fortuneFarm = []" "spawnedItems fortuneFarm = []"
  by (simp_all add: hasInventory_def slot_getItem_def examplePlayer_def farmWorld_def
        fortuneFarm_def hostContainer_def hostStack_def fortuneScythe_def ironScythe_def
        exampleHost_def unitRandoms_def exampleWorld_def representable_examples)

lemma farmWorld_wheat:
  "Block_typeId farmWorld (Vector3 2 64 0) = ''minecraft:wheat''"
  "isBlockCrop farmWorld (Vector3 2 64 0)"
  "isCropRipe farmWorld (Vector3 2 64 0)"
  by (simp_all add: isBlockCrop_def isCropRipe_def farmWorld_growth Block_typeId_def
        farmWorld_cells farmBlocks_def)

lemma fortuneFarm_wheat:
  "Block_typeId fortuneFarm (Vector3 2 64 0) = ''minecraft:wheat''"
  "isBlockCrop fortuneFarm (Vector3 2 64 0)"
  "isCropRipe fortuneFarm (Vector3 2 64 0)"
  by (simp_all add: isBlockCrop_def isCropRipe_def getBlockState_def Block_typeId_def
        fortuneFarm_def farmWorld_cells farmBlocks_def)

lemma dropSample_zero: "dropSample (\<lambda>k. 0) pos 0 = 4" "dropSample (\<lambda>k. 0) pos 3 = 7"
  by (simp_all add: dropSample_def dropBase_def successes_def fl_fractions)

lemma clampedFortune_examples:
  "clampedFortune (Some ironScythe) = 0" "clampedFortune (Some fortuneScythe) = 3"
  by (simp_all add: clampedFortune_def getFortuneLevel_def ironScythe_def fortuneScythe_def)

lemma spaceFor_example:
  "containers w 7 = Some [Some tool, Some (wheat n)] \<Longrightarrow> typeId tool \<noteq> ''minecraft:wheat'' \<Longrightarrow>
   spaceFor exampleHost w examplePlayer ''minecraft:wheat'' = 64 - n"
  "containers w 7 = Some [Some tool, Some (wheat n)] \<Longrightarrow> typeId tool \<noteq> ''minecraft:wheat_seeds'' \<Longrightarrow>
   spaceFor exampleHost w examplePlayer ''minecraft:wheat_seeds'' = 0"
  "containers w 7 = Some [Some tool, None] \<Longrightarrow> typeId tool \<noteq> ''minecraft:wheat'' \<Longrightarrow>
   spaceFor exampleHost w examplePlayer ''minecraft:wheat'' = 64"
  by (simp_all add: spaceFor_def getAvailableSpaceForItemStack_def getContainerSlots_def
        getEntityContainer_def newItemStack_def Let_def examplePlayer_def exampleHost_def
        wheat_def upt_rec cong: option.case_cong)

lemma example_fields:
  "entityId examplePlayer = 7"
  "addItem exampleHost c s
     = placeInFirstEmpty (s\<lparr>amount := max 1 (min (amount s) 64), maxAmount := 64\<rparr>) c"
  "containers farmWorld = [7 \<mapsto> [Some ironScythe, Some (wheat 62)]]"
  "containers fortuneFarm = [7 \<mapsto> [Some fortuneScythe, None]]"
  by (simp_all add: examplePlayer_def exampleHost_def farmWorld_def fortuneFarm_def)

lemma wheat_placed:
  "(wheat n)\<lparr>amount := max 1 (min (amount (wheat n)) 64), maxAmount := 64\<rparr>
     = wheat (max 1 (min n 64))"
  by (simp add: wheat_def newItemStack_def exampleHost_def)

lemma all2: "(\<forall>k < Suc (Suc 0). P k) \<longleftrightarrow> P 0 \<and> P (Suc 0)"
  by (auto simp: less_Suc_eq)


subsection \<open>The sweep straight ahead\<close>

lemma tiny_le: "tiny \<le> 1 / 1000"
  by (simp add: tiny_def)

lemma roundHalfEven_small: "\<bar>s\<bar> < 1 / 2 \<Longrightarrow> roundHalfEven s = 0"
proof -
  assume s: "\<bar>s\<bar> < 1 / 2"
  show ?thesis
  proof (cases "0 \<le> s")
    case True
    with s have "\<lfloor>s\<rfloor> = 0" by (simp add: floor_eq_iff)
    with s True show ?thesis by (simp add: roundHalfEven_def)
  next
    case False
    with s have "\<lfloor>s\<rfloor> = - 1" by (simp add: floor_eq_iff)
    with s False show ?thesis by (simp add: roundHalfEven_def)
  qed
qed

lemma fl_underflow:
  assumes "\<bar>r\<bar> < tiny"
  shows "fl r = 0"
proof (cases "r = 0")
  case True
  then show ?thesis by simp
next
  case False
  then have pos: "0 < \<bar>r\<bar>" by simp
  have "pow2 (ilog2 \<bar>r\<bar>) \<le> \<bar>r\<bar>" by (rule ilog2_bounds(1) [OF pos])
  also have "\<dots> < pow2 (- 1075)" using assms by (simp add: tiny_def pow2_def)
  finally have "ilog2 \<bar>r\<bar> < - 1075" by (rule pow2_less_cancel)
  then have e: "max (ilog2 \<bar>r\<bar>) (- 1022) - 52 = - 1074" by simp
  have "\<bar>r / pow2 (- 1074)\<bar> = \<bar>r\<bar> / pow2 (- 1074)"
    by (simp add: abs_divide abs_of_pos)
  also have "\<dots> < tiny / pow2 (- 1074)"
    using assms by (intro divide_strict_right_mono) simp_all
  also have "\<dots> = 1 / 2" by (simp add: tiny_eq [symmetric])
  finally have "roundHalfEven (r / pow2 (- 1074)) = 0" by (rule roundHalfEven_small)
  then show ?thesis by (simp add: fl_unfold [OF False] e)
qed

lemma direction_value:
  fixes a b :: rat
  assumes ba: "\<bar>b\<bar> \<le> \<bar>a\<bar>" and lo: "1 / 2 ^ 500 \<le> \<bar>a\<bar>" and hi: "\<bar>a\<bar> \<le> 2 ^ 500"
  shows "Num a / Math_sqrt (square (Num a) + square (Num b)) = Num (unitComponent a b)"
    and "Num b / Math_sqrt (square (Num a) + square (Num b)) = Num (unitComponent b a)"
    and "Num a / Math_sqrt (square (Num b) + square (Num a)) = Num (unitComponent a b)"
    and "Num b / Math_sqrt (square (Num b) + square (Num a)) = Num (unitComponent b a)"
proof -
  define S where "S = fl (fl (a * a) + fl (b * b))"
  define m where "m = sqrtRounded S"
  note n = normalise_bounds [OF ba lo hi, folded S_def m_def]
  have "\<bar>a\<bar> * \<bar>a\<bar> \<le> 2 ^ 500 * 2 ^ 500"
    using hi by (intro mult_mono) simp_all
  then have sqa: "square (Num a) = Num (fl (a * a))"
    by (simp add: square_def rounded_finite abs_mult)
  have "\<bar>b\<bar> * \<bar>b\<bar> \<le> 2 ^ 500 * 2 ^ 500"
    using ba hi by (intro mult_mono) simp_all
  then have sqb: "square (Num b) = Num (fl (b * b))"
    by (simp add: square_def rounded_finite abs_mult)
  have sum: "Num (fl (a * a)) + Num (fl (b * b)) = Num S"
    using n(3) by (simp add: rounded_finite S_def)
  have sum': "Num (fl (b * b)) + Num (fl (a * a)) = Num S"
    using n(3) by (simp add: rounded_finite S_def add.commute)
  have root: "Math_sqrt (Num S) = Num m"
    using n(4) by (simp add: m_def)
  have m0: "m \<noteq> 0" using n(6) by simp
  have qa: "\<bar>a / m\<bar> \<le> 102 / 100"
    using n(6,8) by (simp add: abs_divide abs_of_pos pos_divide_le_eq)
  have "\<bar>b\<bar> \<le> (102 / 100) * m" using ba n(8) by simp
  then have qb: "\<bar>b / m\<bar> \<le> 102 / 100"
    using n(6) by (simp add: abs_divide abs_of_pos pos_divide_le_eq)
  from qa have "\<bar>a / m\<bar> \<le> 2 ^ 1002" by (rule order_trans) simp
  from rounded_finite [OF this] have da: "Num a / Num m = Num (fl (a / m))"
    using m0 by simp
  from qb have "\<bar>b / m\<bar> \<le> 2 ^ 1002" by (rule order_trans) simp
  from rounded_finite [OF this] have db: "Num b / Num m = Num (fl (b / m))"
    using m0 by simp
  have ua: "unitComponent a b = fl (a / m)"
    by (simp add: unitComponent_def m_def S_def)
  have ub: "unitComponent b a = fl (b / m)"
    by (simp add: unitComponent_def m_def S_def add.commute)
  show "Num a / Math_sqrt (square (Num a) + square (Num b)) = Num (unitComponent a b)"
    by (simp only: sqa sqb sum root da ua)
  show "Num b / Math_sqrt (square (Num a) + square (Num b)) = Num (unitComponent b a)"
    by (simp only: sqa sqb sum root db ub)
  show "Num a / Math_sqrt (square (Num b) + square (Num a)) = Num (unitComponent a b)"
    by (simp only: sqa sqb sum' root da ua)
  show "Num b / Math_sqrt (square (Num b) + square (Num a)) = Num (unitComponent b a)"
    by (simp only: sqa sqb sum' root db ub)
qed

lemma unitComponent_bounds:
  fixes a b :: rat
  assumes ba: "\<bar>b\<bar> \<le> \<bar>a\<bar>" and lo: "1 / 2 ^ 500 \<le> \<bar>a\<bar>" and hi: "\<bar>a\<bar> \<le> 2 ^ 500"
  shows "0 < a \<Longrightarrow> 69 / 100 \<le> unitComponent a b \<and> unitComponent a b \<le> 103 / 100"
    and "a < 0 \<Longrightarrow> - (103 / 100) \<le> unitComponent a b \<and> unitComponent a b \<le> - (69 / 100)"
    and "0 \<le> b \<Longrightarrow> 0 \<le> unitComponent b a \<and> unitComponent b a \<le> 103 / 100"
    and "b \<le> 0 \<Longrightarrow> - (103 / 100) \<le> unitComponent b a \<and> unitComponent b a \<le> 0"
proof -
  define S where "S = fl (fl (a * a) + fl (b * b))"
  define m where "m = sqrtRounded S"
  note n = normalise_bounds [OF ba lo hi, folded S_def m_def]
  have ua: "unitComponent a b = fl (a / m)"
    by (simp add: unitComponent_def m_def S_def)
  have ub: "unitComponent b a = fl (b / m)"
    by (simp add: unitComponent_def m_def S_def add.commute)
  define p where "p = a / m"
  define q where "q = b / m"
  have ua': "unitComponent a b = fl p" by (simp add: ua p_def)
  have ub': "unitComponent b a = fl q" by (simp add: ub q_def)
  have absdiv: "\<bar>c / m\<bar> = \<bar>c\<bar> / m" for c
    using n(6) by (simp add: abs_divide abs_of_pos)
  have pa: "7 / 10 \<le> \<bar>p\<bar>" "\<bar>p\<bar> \<le> 102 / 100"
    unfolding p_def absdiv using n(6,7,8) by (simp_all add: pos_le_divide_eq pos_divide_le_eq)
  have "\<bar>b\<bar> \<le> (102 / 100) * m" using ba n(8) by simp
  then have qb: "\<bar>q\<bar> \<le> 102 / 100"
    unfolding q_def absdiv using n(6) by (simp add: pos_divide_le_eq)
  have ea: "fl p - p \<le> \<bar>p\<bar> / 1000 + tiny" "p - fl p \<le> \<bar>p\<bar> / 1000 + tiny"
    using fl_close [of p] by (simp_all add: abs_le_iff)
  have eb: "fl q - q \<le> \<bar>q\<bar> / 1000 + tiny" "q - fl q \<le> \<bar>q\<bar> / 1000 + tiny"
    using fl_close [of q] by (simp_all add: abs_le_iff)
  show "69 / 100 \<le> unitComponent a b \<and> unitComponent a b \<le> 103 / 100" if "0 < a"
  proof -
    from that n(6) have "0 < p" by (simp add: p_def)
    then have "\<bar>p\<bar> = p" by simp
    with ea pa tiny_le show ?thesis unfolding ua' by (intro conjI) linarith+
  qed
  show "- (103 / 100) \<le> unitComponent a b \<and> unitComponent a b \<le> - (69 / 100)" if "a < 0"
  proof -
    from that n(6) have "p < 0" by (simp add: p_def divide_less_0_iff)
    then have "\<bar>p\<bar> = - p" by simp
    with ea pa tiny_le show ?thesis unfolding ua' by (intro conjI) linarith+
  qed
  show "0 \<le> unitComponent b a \<and> unitComponent b a \<le> 103 / 100" if "0 \<le> b"
  proof -
    from that n(6) have q0: "0 \<le> q" by (simp add: q_def)
    then have "\<bar>q\<bar> = q" by simp
    moreover from q0 have "0 \<le> fl q" by (rule fl_nonneg)
    ultimately show ?thesis using eb qb tiny_le unfolding ub' by (intro conjI) linarith+
  qed
  show "- (103 / 100) \<le> unitComponent b a \<and> unitComponent b a \<le> 0" if "b \<le> 0"
  proof -
    from that n(6) have q0: "q \<le> 0" by (simp add: q_def divide_le_0_iff)
    then have "\<bar>q\<bar> = - q" by simp
    moreover from q0 have "fl q \<le> 0" by (rule fl_nonpos)
    ultimately show ?thesis using eb qb tiny_le unfolding ub' by (intro conjI) linarith+
  qed
qed

lemma unitComponent_representable:
  "\<bar>unitComponent a b\<bar> \<le> 2 \<Longrightarrow> rounded (unitComponent a b) = Num (unitComponent a b)"
  by (simp add: unitComponent_def rounded_def Let_def abs_le_iff)

lemma floor_half [simp]: "\<lfloor>1 / 2 :: rat\<rfloor> = 0"
  by (simp add: floor_eq_iff)

lemma horizontalStep_values:
  fixes a b :: rat
  assumes ba: "\<bar>b\<bar> \<le> \<bar>a\<bar>" and lo: "1 / 2 ^ 500 \<le> \<bar>a\<bar>" and hi: "\<bar>a\<bar> \<le> 2 ^ 500"
  shows "horizontalStep a b = (if 0 < a then 1 else - 1)"
    and "horizontalStep b a = 0 \<or> of_int (horizontalStep b a) = sgn b"
    and "\<bar>unitComponent a b\<bar> \<le> 2" and "\<bar>unitComponent b a\<bar> \<le> 2"
proof -
  note u = unitComponent_bounds [OF ba lo hi]
  from lo have a0: "a \<noteq> 0" by auto
  show major: "horizontalStep a b = (if 0 < a then 1 else - 1)"
  proof (cases "0 < a")
    case True
    with u(1) show ?thesis by (simp add: horizontalStep_def floor_eq_iff)
  next
    case False
    with a0 have "a < 0" by simp
    with u(2) show ?thesis by (simp add: horizontalStep_def floor_eq_iff)
  qed
  show "horizontalStep b a = 0 \<or> of_int (horizontalStep b a) = sgn b"
  proof (cases "b = 0")
    case True
    with u(3,4) have "unitComponent b a = 0" by simp
    then show ?thesis by (simp add: horizontalStep_def)
  next
    case False
    show ?thesis
    proof (cases "0 < b")
      case True
      with u(3) have "0 \<le> unitComponent b a" "unitComponent b a \<le> 103 / 100" by simp_all
      then have "\<lfloor>unitComponent b a + 1 / 2\<rfloor> = 0 \<or> \<lfloor>unitComponent b a + 1 / 2\<rfloor> = 1"
        by (simp add: floor_eq_iff) linarith
      with True show ?thesis by (auto simp: horizontalStep_def)
    next
      case neg: False
      with False have b: "b < 0" by simp
      with u(4) have "- (103 / 100) \<le> unitComponent b a" "unitComponent b a \<le> 0" by simp_all
      then have "\<lfloor>unitComponent b a + 1 / 2\<rfloor> = 0 \<or> \<lfloor>unitComponent b a + 1 / 2\<rfloor> = - 1"
        by (simp add: floor_eq_iff) linarith
      with b show ?thesis by (auto simp: horizontalStep_def)
    qed
  qed
  show "\<bar>unitComponent a b\<bar> \<le> 2"
    using u(1,2) a0 by (cases "0 < a") (simp_all add: abs_le_iff)
  show "\<bar>unitComponent b a\<bar> \<le> 2"
    using u(3,4) by (cases "0 \<le> b") (simp_all add: abs_le_iff)
qed

lemma horizontal_direction:
  fixes a b :: rat
  assumes lo: "1 / 2 ^ 500 \<le> max \<bar>a\<bar> \<bar>b\<bar>" and hi: "max \<bar>a\<bar> \<bar>b\<bar> \<le> 2 ^ 500"
  shows "Num a / Math_sqrt (square (Num a) + square (Num b)) = Num (unitComponent a b)"
    and "Num b / Math_sqrt (square (Num a) + square (Num b)) = Num (unitComponent b a)"
    and "\<bar>unitComponent a b\<bar> \<le> 2" and "\<bar>unitComponent b a\<bar> \<le> 2"
    and "horizontalStep a b \<noteq> 0 \<or> horizontalStep b a \<noteq> 0"
    and "\<bar>b\<bar> \<le> \<bar>a\<bar> \<longrightarrow> horizontalStep a b = (if 0 < a then 1 else - 1)"
    and "\<bar>a\<bar> \<le> \<bar>b\<bar> \<longrightarrow> horizontalStep b a = (if 0 < b then 1 else - 1)"
    and "horizontalStep a b = 0 \<or> of_int (horizontalStep a b) = sgn a"
    and "horizontalStep b a = 0 \<or> of_int (horizontalStep b a) = sgn b"
proof -
  have major: "of_int (horizontalStep c d) = sgn c"
    if "horizontalStep c d = (if 0 < c then 1 else - 1)" "c \<noteq> 0" for c d :: rat
    using that by (simp add: sgn_if)
  have *: "Num a / Math_sqrt (square (Num a) + square (Num b)) = Num (unitComponent a b)
      \<and> Num b / Math_sqrt (square (Num a) + square (Num b)) = Num (unitComponent b a)
      \<and> \<bar>unitComponent a b\<bar> \<le> 2 \<and> \<bar>unitComponent b a\<bar> \<le> 2
      \<and> (horizontalStep a b \<noteq> 0 \<or> horizontalStep b a \<noteq> 0)
      \<and> (\<bar>b\<bar> \<le> \<bar>a\<bar> \<longrightarrow> horizontalStep a b = (if 0 < a then 1 else - 1))
      \<and> (\<bar>a\<bar> \<le> \<bar>b\<bar> \<longrightarrow> horizontalStep b a = (if 0 < b then 1 else - 1))
      \<and> (horizontalStep a b = 0 \<or> of_int (horizontalStep a b) = sgn a)
      \<and> (horizontalStep b a = 0 \<or> of_int (horizontalStep b a) = sgn b)"
  proof (cases "\<bar>b\<bar> \<le> \<bar>a\<bar>")
    case True
    then have m: "max \<bar>a\<bar> \<bar>b\<bar> = \<bar>a\<bar>" by simp
    from lo hi have r: "1 / 2 ^ 500 \<le> \<bar>a\<bar>" "\<bar>a\<bar> \<le> 2 ^ 500" by (simp_all only: m)
    then have a0: "a \<noteq> 0" by auto
    note d = direction_value [OF True r]
    note s = horizontalStep_values [OF True r]
    have other: "horizontalStep b a = (if 0 < b then 1 else - 1)" if "\<bar>a\<bar> \<le> \<bar>b\<bar>"
    proof -
      from that True have "\<bar>a\<bar> \<le> \<bar>b\<bar>" "1 / 2 ^ 500 \<le> \<bar>b\<bar>" "\<bar>b\<bar> \<le> 2 ^ 500"
        using r by simp_all
      then show ?thesis by (rule horizontalStep_values(1))
    qed
    from s(1) have "horizontalStep a b \<noteq> 0" by (simp split: if_splits)
    with d(1,2) s major [OF s(1) a0] other show ?thesis by simp
  next
    case False
    then have le: "\<bar>a\<bar> \<le> \<bar>b\<bar>" and m: "max \<bar>a\<bar> \<bar>b\<bar> = \<bar>b\<bar>" by simp_all
    from lo hi have r: "1 / 2 ^ 500 \<le> \<bar>b\<bar>" "\<bar>b\<bar> \<le> 2 ^ 500" by (simp_all only: m)
    then have b0: "b \<noteq> 0" by auto
    note d = direction_value [OF le r]
    note s = horizontalStep_values [OF le r]
    from s(1) have "horizontalStep b a \<noteq> 0" by (simp split: if_splits)
    with d(3,4) s major [OF s(1) b0] False show ?thesis by simp
  qed
  then show "Num a / Math_sqrt (square (Num a) + square (Num b)) = Num (unitComponent a b)"
    and "Num b / Math_sqrt (square (Num a) + square (Num b)) = Num (unitComponent b a)"
    and "\<bar>unitComponent a b\<bar> \<le> 2" and "\<bar>unitComponent b a\<bar> \<le> 2"
    and "horizontalStep a b \<noteq> 0 \<or> horizontalStep b a \<noteq> 0"
    and "\<bar>b\<bar> \<le> \<bar>a\<bar> \<longrightarrow> horizontalStep a b = (if 0 < a then 1 else - 1)"
    and "\<bar>a\<bar> \<le> \<bar>b\<bar> \<longrightarrow> horizontalStep b a = (if 0 < b then 1 else - 1)"
    and "horizontalStep a b = 0 \<or> of_int (horizontalStep a b) = sgn a"
    and "horizontalStep b a = 0 \<or> of_int (horizontalStep b a) = sgn b"
    by blast+
qed

lemma getBlock_cell:
  "getBlock w (Vector3 (Num x) (Num y) (Num z)) = Inr (blockAt w (Vector3 \<lfloor>x\<rfloor> \<lfloor>y\<rfloor> \<lfloor>z\<rfloor>))"
  by (simp add: getBlock_def finitePosition_def Dimension_getBlock_def blockAt_def)

lemma getBlock_NaN: "getBlock w (Vector3 NaN y z) = Inl NaNLocation"
  by (simp add: getBlock_def finitePosition_def)

lemma angle_zero:
  "Num 0 / Num 2 = Num 0" "negate (Num 0) / Num 2 = Num 0"
  "Num 0 * (Math_PI / Num 180) = Num 0"
  "Num 0 + Num 1 = Num 1" "Num 1 + Num 1 = Num 2"
proof -
  have "Math_PI / Num 180 = Num (fl (884279719003555 / 2 ^ 48 / 180))"
    by (simp add: Math_PI_def rounded_finite)
  then show "Num 0 * (Math_PI / Num 180) = Num 0" by simp
qed (simp_all add: rounded_def fl_examples)

lemma sweepAngles_stop:
  "\<not> angle \<le> arcWidth / Num 2 \<Longrightarrow>
   sweepAngles h w center direction arcWidth distance angle found = Some (Inr found)"
  by (subst sweepAngles.simps) simp

lemma sweepAngles_straight:
  assumes "rounded p = Num p" and "rounded q = Num q"
    and "cx + Num (of_int \<lfloor>p + 1 / 2\<rfloor>) = Num X"
    and "cz + Num (of_int \<lfloor>q + 1 / 2\<rfloor>) = Num Z"
    and "Num Y + Num 1 = Num U"
  shows "sweepAngles h w (Vector3 cx (Num Y) cz) (Num p, Num q) (Num 0) (Num 1) (Num 0) []
     = Some (Inr [blockAt w (Vector3 \<lfloor>X\<rfloor> \<lfloor>Y\<rfloor> \<lfloor>Z\<rfloor>), blockAt w (Vector3 \<lfloor>X\<rfloor> \<lfloor>U\<rfloor> \<lfloor>Z\<rfloor>)])"
proof -
  have stop: "sweepAngles h w (Vector3 cx (Num Y) cz) (Num p, Num q) (Num 0) (Num 1) (Num 1) found
      = Some (Inr found)" for found
    by (rule sweepAngles_stop) (simp add: angle_zero)
  have one: "Num p * Num 1 = Num p" "Num q * Num 1 = Num q"
    using assms(1,2) by simp_all
  have x: "Num p - Num q * Num 0 = Num p"
    using assms(1) by (simp add: minus_jsnum_def)
  have z: "Num p * Num 0 + Num q = Num q"
    using assms(2) by simp
  have same: "someAt [] l = Inr False" for l
    by simp
  show ?thesis
    by (subst sweepAngles.simps)
       (simp add: Let_def angle_zero one x z assms(3,4,5) getBlock_cell stop
          del: times_jsnum.simps plus_jsnum.simps)
qed

lemma sweepAngles_NaN:
  "sweepAngles h w (Vector3 (Num cx) cy cz) (PosInf, NaN) (Num 0) (Num 1) (Num 0) []
     = Some (Inl NaNLocation)"
  by (subst sweepAngles.simps) (simp add: Let_def angle_zero minus_jsnum_def getBlock_NaN)

lemma sweepDistances_stop:
  "\<not> distance \<le> arcRange \<Longrightarrow>
   sweepDistances h w center direction arcWidth arcRange distance found = Some (Inr found)"
  by (subst sweepDistances.simps) simp

lemma sweepDistances_one:
  "sweepDistances h w center direction (Num 0) (Num 1) (Num 1) []
     = (case sweepAngles h w center direction (Num 0) (Num 1) (Num 0) [] of
          None \<Rightarrow> None
        | Some (Inl e) \<Rightarrow> Some (Inl e)
        | Some (Inr found) \<Rightarrow> Some (Inr found))"
proof -
  have "sweepDistances h w center direction (Num 0) (Num 1) (Num 2) found = Some (Inr found)"
    for found
    by (rule sweepDistances_stop) simp
  then show ?thesis
    by (subst sweepDistances.simps)
       (simp add: angle_zero del: plus_jsnum.simps split: option.splits sum.splits)
qed

lemma sweepDistances_none:
  "sweepDistances h w center direction arcWidth (Num 0) (Num 1) [] = Some (Inr [])"
  by (rule sweepDistances_stop) simp

lemma floor_within:
  fixes x :: rat
  assumes "\<bar>x\<bar> \<le> 2 ^ 52"
  shows "\<bar>\<lfloor>x\<rfloor>\<bar> \<le> 2 ^ 52"
proof -
  from assms have lower: "of_int (- (2 ^ 52)) \<le> x" and upper: "x \<le> of_int (2 ^ 52)"
    by (simp_all add: abs_le_iff)
  from lower have "- (2 ^ 52) \<le> \<lfloor>x\<rfloor>" by (simp only: le_floor_iff)
  moreover from upper have "\<lfloor>x\<rfloor> \<le> \<lfloor>of_int (2 ^ 52) :: rat\<rfloor>" by (rule floor_mono)
  then have "\<lfloor>x\<rfloor> \<le> 2 ^ 52" by (simp only: floor_of_int)
  ultimately show ?thesis by linarith
qed

lemma step_sum:
  assumes "\<bar>c\<bar> \<le> 2 ^ 52" and "\<bar>d\<bar> \<le> 1"
  shows "Num (of_int c) + Num (of_int d) = Num (of_int (c + d))"
proof -
  from assms have "\<bar>c + d\<bar> \<le> 2 ^ 53" by simp
  from rounded_of_int [OF this] show ?thesis by simp
qed

lemma above_bounds:
  fixes y :: rat
  assumes "\<bar>y\<bar> \<le> 2 ^ 52"
  shows "\<lfloor>y\<rfloor> + 1 \<le> \<lfloor>fl (y + 1)\<rfloor>" and "\<lfloor>fl (y + 1)\<rfloor> \<le> \<lfloor>y\<rfloor> + 2"
proof -
  from assms have small: "\<bar>y + 1\<bar> < 2 ^ 53" by (simp add: abs_less_iff abs_le_iff)
  have "of_int (\<lfloor>y\<rfloor> + 1) \<le> y + 1" by simp
  from fl_int_bounds(1) [OF small this] show "\<lfloor>y\<rfloor> + 1 \<le> \<lfloor>fl (y + 1)\<rfloor>"
    by (simp only: le_floor_iff)
  have "y + 1 \<le> of_int (\<lfloor>y\<rfloor> + 2)" by simp linarith
  from fl_int_bounds(2) [OF small this] have "fl (y + 1) \<le> of_int (\<lfloor>y\<rfloor> + 2)" .
  then have "\<lfloor>fl (y + 1)\<rfloor> \<le> \<lfloor>of_int (\<lfloor>y\<rfloor> + 2) :: rat\<rfloor>" by (rule floor_mono)
  then show "\<lfloor>fl (y + 1)\<rfloor> \<le> \<lfloor>y\<rfloor> + 2" by (simp only: floor_of_int)
qed

lemma getBlocksInSweep_forward:
  assumes view: "vx (viewDirection player) = Num a" "vz (viewDirection player) = Num b"
    and range: "1 / 2 ^ 500 \<le> max \<bar>a\<bar> \<bar>b\<bar>" "max \<bar>a\<bar> \<bar>b\<bar> \<le> 2 ^ 500"
    and loc: "vx (location player) = Num x" "vy (location player) = Num y"
      "vz (location player) = Num z"
    and rep: "representable x" "representable z"
    and tx: "Num (of_int \<lfloor>x\<rfloor>) + Num (of_int (horizontalStep a b)) = Num X"
    and tz: "Num (of_int \<lfloor>z\<rfloor>) + Num (of_int (horizontalStep b a)) = Num Z"
    and tu: "Num (of_int \<lfloor>y\<rfloor>) + Num 1 = Num U"
    and tv: "Num y + Num 1 = Num V"
  shows "getBlocksInSweep h w player (Num 0) (Num 1)
      = Some (Inr [blockAt w (Vector3 \<lfloor>X\<rfloor> \<lfloor>y\<rfloor> \<lfloor>Z\<rfloor>), blockAt w (Vector3 \<lfloor>X\<rfloor> \<lfloor>U\<rfloor> \<lfloor>Z\<rfloor>),
                   blockAt w (Vector3 \<lfloor>x\<rfloor> \<lfloor>V\<rfloor> \<lfloor>z\<rfloor>)])"
    and "getBlocksInSweep h w player (Num 0) (Num 0) = Some (Inr [blockAt w (Vector3 \<lfloor>x\<rfloor> \<lfloor>V\<rfloor> \<lfloor>z\<rfloor>)])"
proof -
  note d = horizontal_direction [OF range]
  have p: "rounded (unitComponent a b) = Num (unitComponent a b)"
    by (rule unitComponent_representable [OF d(3)])
  have q: "rounded (unitComponent b a) = Num (unitComponent b a)"
    by (rule unitComponent_representable [OF d(4)])
  have sweep: "sweepAngles h w (Vector3 (Num (of_int \<lfloor>x\<rfloor>)) (Num (of_int \<lfloor>y\<rfloor>)) (Num (of_int \<lfloor>z\<rfloor>)))
      (Num (unitComponent a b), Num (unitComponent b a)) (Num 0) (Num 1) (Num 0) []
    = Some (Inr [blockAt w (Vector3 \<lfloor>X\<rfloor> \<lfloor>y\<rfloor> \<lfloor>Z\<rfloor>), blockAt w (Vector3 \<lfloor>X\<rfloor> \<lfloor>U\<rfloor> \<lfloor>Z\<rfloor>)])"
    using sweepAngles_straight [OF p q tx [unfolded horizontalStep_def]
        tz [unfolded horizontalStep_def] tu, of h w]
    by (simp only: floor_of_int)
  have keep: "Num x + Num 0 = Num x" "Num z + Num 0 = Num z"
    using rep by (simp_all add: rounded_representable)
  have above: "addVectors (Some (location player)) (Some (Vector3 (Num 0) (Num 1) (Num 0)))
      = Inr (Vector3 (Num x) (Num V) (Num z))"
    by (simp add: addVectors_def loc keep tv del: plus_jsnum.simps)
  show "getBlocksInSweep h w player (Num 0) (Num 1)
      = Some (Inr [blockAt w (Vector3 \<lfloor>X\<rfloor> \<lfloor>y\<rfloor> \<lfloor>Z\<rfloor>), blockAt w (Vector3 \<lfloor>X\<rfloor> \<lfloor>U\<rfloor> \<lfloor>Z\<rfloor>),
                   blockAt w (Vector3 \<lfloor>x\<rfloor> \<lfloor>V\<rfloor> \<lfloor>z\<rfloor>)])"
    unfolding getBlocksInSweep_def Let_def
    by (simp add: view loc d(1,2) sweepDistances_one sweep above getBlock_cell)
  show "getBlocksInSweep h w player (Num 0) (Num 0) = Some (Inr [blockAt w (Vector3 \<lfloor>x\<rfloor> \<lfloor>V\<rfloor> \<lfloor>z\<rfloor>)])"
    unfolding getBlocksInSweep_def Let_def
    by (simp add: view loc sweepDistances_none above getBlock_cell)
qed

lemma step_unit:
  fixes d :: int and a :: rat
  assumes "d = 0 \<or> of_int d = sgn a"
  shows "\<bar>d\<bar> \<le> 1"
proof -
  have "\<bar>of_int d :: rat\<bar> \<le> 1" using assms by (auto simp: sgn_if split: if_splits)
  then have "\<bar>of_int d :: rat\<bar> \<le> of_int 1" by simp
  then show ?thesis by (simp only: of_int_abs [symmetric] of_int_le_iff)
qed


lemma example_view:
  "horizontalStep 1 0 = 1" "horizontalStep 0 1 = 0"
  "viewWithin examplePlayer" "viewWithin farPlayer"
proof -
  have r: "(1::rat) / 2 ^ 500 \<le> max \<bar>1\<bar> \<bar>0\<bar>" "max \<bar>1::rat\<bar> \<bar>0\<bar> \<le> 2 ^ 500" by simp_all
  from horizontal_direction(6) [OF r] show "horizontalStep 1 0 = 1" by simp
  from horizontal_direction(9) [OF r] show "horizontalStep 0 1 = 0" by simp
  show "viewWithin examplePlayer" "viewWithin farPlayer"
    by (simp_all add: viewWithin_def examplePlayer_def farPlayer_def representable_examples)
qed

lemma representable_heights:
  "representable (1 / 2)" "representable 64" "representable 65" "representable (1 / 2 ^ 600)"
proof -
  show "representable (1 / 2)" by (rule representable_examples)
  show "representable 64" using representable_of_int [of 64] by simp
  show "representable 65" using representable_of_int [of 65] by simp
  have "fl (of_int 1 * pow2 (- 548 - 52)) = of_int 1 * pow2 (- 548 - 52)"
    by (rule fl_of_multiple) simp_all
  then have "fl (1 / 2 ^ 600) = 1 / 2 ^ 600" by (simp add: pow2_def)
  moreover have "\<bar>1 / 2 ^ 600 :: rat\<bar> < 2 ^ 1024"
  proof -
    have "(1::rat) / 2 ^ 600 \<le> 1" by simp
    also have "(1::rat) < 2 ^ 1024" by simp
    finally show ?thesis by simp
  qed
  ultimately show "representable (1 / 2 ^ 600)" by (simp only: representable_def)
qed

lemma diagonal_view:
  "horizontalStep (1 / 2) (7800463371553963 / 2 ^ 53) = 1"
  "horizontalStep (7800463371553963 / 2 ^ 53) (1 / 2) = 1"
  "representable (7800463371553963 / 2 ^ 53)"
  by code_simp+

lemma edge_height:
  "representable (64 - 1 / 2 ^ 47)" "fl (64 - 1 / 2 ^ 47 + 1) = 65" "\<lfloor>64 - 1 / 2 ^ 47 :: rat\<rfloor> = 63"
  by code_simp+



subsection \<open>Tool wear\<close>

lemma harvestBlocks_count:
  "harvestBlocks h player bs k w = (Inr n, w') \<Longrightarrow> k \<le> n \<and> (n = k \<longrightarrow> w' = w)"
proof (induction h player bs k w arbitrary: n w' rule: harvestBlocks.induct)
  case (1 h player k w)
  then show ?case by simp
next
  case (2 h player rest k w)
  then show ?case by simp
next
  case (3 h player block rest k w)
  show ?case
  proof (cases "isBlockCrop w block")
    case True
    show ?thesis
    proof (cases "isCropRipe w block")
      case ripe: True
      with True "3.prems" obtain u w1 where
        "harvestCrop h block player w = (Inr u, w1)"
        "harvestBlocks h player rest (k + 1) w1 = (Inr n, w')"
        by (auto split: prod.splits sum.splits)
      with "3.IH"(1) [OF True ripe] have "k + 1 \<le> n" by force
      then show ?thesis by simp
    next
      case False
      with True "3.prems" "3.IH"(2) show ?thesis by simp
    qed
  next
    case notCrop: False
    show ?thesis
    proof (cases "isBlockSugarcane h w block")
      case True
      with notCrop "3.prems" obtain u w1 where
        "harvestSugarcane h block player w = (Inr u, w1)"
        "harvestBlocks h player rest (k + 1) w1 = (Inr n, w')"
        by (auto split: prod.splits sum.splits)
      with "3.IH"(3) [OF notCrop True] have "k + 1 \<le> n" by force
      then show ?thesis by simp
    next
      case notCane: False
      show ?thesis
      proof (cases "isBlockBamboo w block")
        case True
        with notCrop notCane "3.prems" obtain u w1 where
          "harvestBamboo h block player w = (Inr u, w1)"
          "harvestBlocks h player rest (k + 1) w1 = (Inr n, w')"
          by (auto split: prod.splits sum.splits)
        with "3.IH"(4) [OF notCrop notCane True] have "k + 1 \<le> n" by force
        then show ?thesis by simp
      next
        case notBamboo: False
        show ?thesis
        proof (cases "isBlockScytheDestructable h w block")
          case True
          with notCrop notCane notBamboo "3.prems"
          have "harvestBlocks h player rest (k + 1) (destroyBlock h block w) = (Inr n, w')"
            by simp
          with "3.IH"(5) [OF notCrop notCane notBamboo True] have "k + 1 \<le> n" by force
          then show ?thesis by simp
        next
          case False
          with notCrop notCane notBamboo "3.prems" "3.IH"(6) show ?thesis by simp
        qed
      qed
    qed
  qed
qed

lemma destroyBlocks_count:
  "destroyBlocks h bs k w = (Inr n, w') \<Longrightarrow> k \<le> n \<and> (n = k \<longrightarrow> w' = w)"
proof (induction h bs k w arbitrary: n w' rule: destroyBlocks.induct)
  case (3 h block rest k w)
  show ?case
  proof (cases "Block_typeId w block \<in> set (scytheDestructable h)")
    case True
    with "3.prems" have "destroyBlocks h rest (k + 1) (destroyBlock h block w) = (Inr n, w')"
      by simp
    with "3.IH"(1) [OF True] have "k + 1 \<le> n" by force
    then show ?thesis by simp
  next
    case False
    with "3.prems" "3.IH"(2) show ?thesis by simp
  qed
qed simp_all

lemma whoosh_containers:
  assumes "andThen (getRandomFloat (Num 1) (Num (3 / 2))) (\<lambda>pitch.
     andThen (effect (player_playSound player ''scythe.whoosh'')) (\<lambda>u. loop)) w = (Inr n, w1)"
  shows "\<exists>wA. containers wA = containers w \<and> loop wA = (Inr n, w1)"
proof -
  have "andThen (getRandomFloat (Num 1) (Num (3 / 2))) (\<lambda>pitch.
     andThen (effect (player_playSound player ''scythe.whoosh'')) (\<lambda>u. loop)) w
     = loop (player_playSound player ''scythe.whoosh'' (w\<lparr>drawn := drawn w + 1\<rparr>))"
    by (simp add: andThen_def getRandomFloat_def Math_random_def effect_def Let_def)
  with assms have "loop (player_playSound player ''scythe.whoosh'' (w\<lparr>drawn := drawn w + 1\<rparr>))
     = (Inr n, w1)"
    by simp
  moreover have "containers (player_playSound player ''scythe.whoosh'' (w\<lparr>drawn := drawn w + 1\<rparr>))
     = containers w"
    by (simp add: player_playSound_def)
  ultimately show ?thesis by blast
qed

lemma multiHarvestArc_none:
  assumes "multiHarvestArc h player arcWidth arcRange w = Some (Inr 0, w1)"
  shows "containers w1 = containers w"
proof -
  from assms obtain bs where
    "andThen (getRandomFloat (Num 1) (Num (3 / 2))) (\<lambda>pitch.
     andThen (effect (player_playSound player ''scythe.whoosh'')) (\<lambda>u.
     harvestBlocks h player bs 0)) w = (Inr 0, w1)"
    by (auto simp: multiHarvestArc_def split: option.splits sum.splits)
  from whoosh_containers [OF this] obtain wA where
    "containers wA = containers w" "harvestBlocks h player bs 0 wA = (Inr 0, w1)"
    by blast
  with harvestBlocks_count [of h player bs 0 wA 0 w1] show ?thesis by simp
qed

lemma destroyBlocksArc_none:
  assumes "destroyBlocksArc h player arcWidth arcRange w = Some (Inr 0, w1)"
  shows "containers w1 = containers w"
proof -
  from assms obtain bs where
    "andThen (getRandomFloat (Num 1) (Num (3 / 2))) (\<lambda>pitch.
     andThen (effect (player_playSound player ''scythe.whoosh'')) (\<lambda>u.
     destroyBlocks h bs 0)) w = (Inr 0, w1)"
    by (auto simp: destroyBlocksArc_def split: option.splits sum.splits)
  from whoosh_containers [OF this] obtain wA where
    "containers wA = containers w" "destroyBlocks h bs 0 wA = (Inr 0, w1)"
    by blast
  with destroyBlocks_count [of h bs 0 wA 0 w1] show ?thesis by simp
qed

lemma pass_count_nonneg:
  "multiHarvestArc h player arcWidth arcRange w = Some (Inr n, w1) \<Longrightarrow> 0 \<le> n"
  "destroyBlocksArc h player arcWidth arcRange w = Some (Inr n, w1) \<Longrightarrow> 0 \<le> n"
proof -
  assume "multiHarvestArc h player arcWidth arcRange w = Some (Inr n, w1)"
  then obtain bs where
    "andThen (getRandomFloat (Num 1) (Num (3 / 2))) (\<lambda>pitch.
     andThen (effect (player_playSound player ''scythe.whoosh'')) (\<lambda>u.
     harvestBlocks h player bs 0)) w = (Inr n, w1)"
    by (auto simp: multiHarvestArc_def split: option.splits sum.splits)
  from whoosh_containers [OF this] harvestBlocks_count [of h player bs 0 _ n w1]
  show "0 \<le> n" by blast
next
  assume "destroyBlocksArc h player arcWidth arcRange w = Some (Inr n, w1)"
  then obtain bs where
    "andThen (getRandomFloat (Num 1) (Num (3 / 2))) (\<lambda>pitch.
     andThen (effect (player_playSound player ''scythe.whoosh'')) (\<lambda>u.
     destroyBlocks h bs 0)) w = (Inr n, w1)"
    by (auto simp: destroyBlocksArc_def split: option.splits sum.splits)
  from whoosh_containers [OF this] destroyBlocks_count [of h bs 0 _ n w1]
  show "0 \<le> n" by blast
qed

lemma pitch_order: "\<not> rounded (7 / 5) < rounded (4 / 5)"
proof -
  have "of_int 1 \<le> fl (7 / 5)" by (rule fl_int_bounds(1)) simp_all
  moreover have "fl (4 / 5) \<le> of_int 1" by (rule fl_int_bounds(2)) simp_all
  moreover have "rounded (7 / 5) = Num (fl (7 / 5))" "rounded (4 / 5) = Num (fl (4 / 5))"
    by (simp_all add: rounded_finite)
  ultimately show ?thesis by simp
qed

lemma shingFeedback_effect:
  "\<exists>w2 ss. shingFeedback player scythe n w = (Inr (), w2)
     \<and> containers w2 = containers w \<and> cells w2 = cells w \<and> deposits w2 = deposits w
     \<and> spawnedItems w2 = spawnedItems w
     \<and> sounds w2 = sounds w @ ss \<and> (entityId player, ''random.break'') \<notin> set ss"
  by (auto simp: shingFeedback_def andThen_def getRandomInt_def pitch_order Math_random_def
        effect_def succeed_def player_playSound_def Let_def)

lemma wearHeldItem_outcome:
  assumes "durability tool = Some d" and "holdsSlot w player"
  shows "\<exists>w'. wearHeldItem player tool w = (Inr (), w')
     \<and> slot_getItem w' (heldSlotOf player) = wornTool tool
     \<and> containers w' = containers (slot_setItem (heldSlotOf player) (wornTool tool) w)
     \<and> cells w' = cells w \<and> deposits w' = deposits w \<and> spawnedItems w' = spawnedItems w
     \<and> sounds w' = sounds w @ (if breaks tool then [(entityId player, ''random.break'')] else [])"
  using assms
  by (auto simp: wearHeldItem_def wornTool_def breaks_def holdsSlot_def heldSlotOf_def
        andThen_def effect_def clearHeldItem_def setHeldItem_def getHeldSlot_def
        getEntityContainer_def slot_setItem_def slot_getItem_def player_playSound_def
        split: option.splits)

lemma wear_after_feedback:
  assumes d: "durability tool = Some d" and slot: "holdsSlot w1 player"
    and fb: "feedback w1 = (Inr (), w2)"
    and same: "containers w2 = containers w1" "cells w2 = cells w1" "deposits w2 = deposits w1"
      "spawnedItems w2 = spawnedItems w1"
    and snd: "sounds w2 = sounds w1 @ ss" "(entityId player, ''random.break'') \<notin> set ss"
  shows "fst (andThen feedback (\<lambda>u. wearHeldItem player tool) w1) = Inr ()
     \<and> wearOutcome player tool w1 (snd (andThen feedback (\<lambda>u. wearHeldItem player tool) w1))"
proof -
  from slot same(1) have "holdsSlot w2 player" by (simp add: holdsSlot_def)
  from wearHeldItem_outcome [OF d this] obtain w' where w':
    "wearHeldItem player tool w2 = (Inr (), w')"
    "slot_getItem w' (heldSlotOf player) = wornTool tool"
    "containers w' = containers (slot_setItem (heldSlotOf player) (wornTool tool) w2)"
    "cells w' = cells w2" "deposits w' = deposits w2" "spawnedItems w' = spawnedItems w2"
    "sounds w' = sounds w2 @ (if breaks tool then [(entityId player, ''random.break'')] else [])"
    by blast
  have run: "andThen feedback (\<lambda>u. wearHeldItem player tool) w1 = (Inr (), w')"
    by (simp add: andThen_def fb w'(1))
  have c: "containers (slot_setItem (heldSlotOf player) (wornTool tool) w2)
      = containers (slot_setItem (heldSlotOf player) (wornTool tool) w1)"
    by (simp add: slot_setItem_def same(1) split: option.splits)
  show ?thesis
    unfolding run fst_conv snd_conv wearOutcome_def
    using w'(2-7) c same snd by simp
qed

text \<open>
  C7. After a pass of \<open>multiHarvestArc\<close> (in \<open>onUseOn\<close>) or of \<open>destroyBlocksArc\<close> (in the
  \<open>entityHitBlock\<close> handler) that processed at least one block, the held slot holds a copy
  of the tool with its damage raised by exactly one; if that damage would exceed the
  maximum durability the slot is emptied instead and \<open>random.break\<close> is played, with no
  write-back. After a pass that processed no block the handler changes nothing and the
  held item is what it was before the pass.
\<close>

theorem tool_wear:
  assumes "durability tool = Some d"
  shows "(multiHarvestArc h player (Num 180) (parseInt h (getItemPropertyTag tool ''reach'')) w
            = Some (Inr n, w1)
           \<and> holdsSlot w1 player
          \<longrightarrow> (if 0 < n
               then (case onUseOn h player tool w of
                       None \<Rightarrow> False
                     | Some (r, w') \<Rightarrow> r = Inr () \<and> wearOutcome player tool w1 w')
               else onUseOn h player tool w = Some (Inr (), w1)
                    \<and> slot_getItem w1 (heldSlotOf player) = slot_getItem w (heldSlotOf player)))
     \<and> (destroyBlocksArc h player (Num 180) (parseInt h (getItemPropertyTag tool ''reach'')) w
            = Some (Inr n, w1)
           \<and> holdsSlot w1 player \<and> holdsSlot w player
           \<and> slot_getItem w (heldSlotOf player) = Some tool
           \<and> ''scythe'' \<in> set (tags tool) \<and> typeId tool \<noteq> ''djc:wooden_scythe''
          \<longrightarrow> (if 0 < n
               then (case entityHitBlock h ''minecraft:player'' player w of
                       None \<Rightarrow> False
                     | Some (r, w') \<Rightarrow> r = Inr () \<and> wearOutcome player tool w1 w')
               else entityHitBlock h ''minecraft:player'' player w = Some (Inr (), w1)
                    \<and> slot_getItem w1 (heldSlotOf player) = slot_getItem w (heldSlotOf player)))"
proof (intro conjI impI; elim conjE)
  assume pass: "multiHarvestArc h player (Num 180) (parseInt h (getItemPropertyTag tool ''reach'')) w
      = Some (Inr n, w1)"
    and slot: "holdsSlot w1 player"
  show "if 0 < n
        then (case onUseOn h player tool w of
                None \<Rightarrow> False
              | Some (r, w') \<Rightarrow> r = Inr () \<and> wearOutcome player tool w1 w')
        else onUseOn h player tool w = Some (Inr (), w1)
             \<and> slot_getItem w1 (heldSlotOf player) = slot_getItem w (heldSlotOf player)"
  proof (cases "0 < n")
    case True
    from shingFeedback_effect [of player tool n w1] obtain w2 ss where fb:
      "shingFeedback player tool n w1 = (Inr (), w2)"
      "containers w2 = containers w1" "cells w2 = cells w1" "deposits w2 = deposits w1"
      "spawnedItems w2 = spawnedItems w1"
      "sounds w2 = sounds w1 @ ss" "(entityId player, ''random.break'') \<notin> set ss"
      by blast
    have "onUseOn h player tool w
        = Some (andThen (shingFeedback player tool n) (\<lambda>u. wearHeldItem player tool) w1)"
      using True by (simp add: onUseOn_def Let_def pass)
    with wear_after_feedback [where feedback = "shingFeedback player tool n", OF assms slot fb]
      True
    show ?thesis by (simp add: case_prod_beta)
  next
    case False
    with pass_count_nonneg(1) [OF pass] have n: "n = 0" by simp
    from multiHarvestArc_none [OF pass [unfolded n]]
    have "slot_getItem w1 (heldSlotOf player) = slot_getItem w (heldSlotOf player)"
      by (simp add: slot_getItem_def)
    moreover have "onUseOn h player tool w = Some (Inr (), w1)"
      by (simp add: onUseOn_def Let_def pass n succeed_def)
    ultimately show ?thesis using n by simp
  qed
next
  assume pass: "destroyBlocksArc h player (Num 180) (parseInt h (getItemPropertyTag tool ''reach'')) w
      = Some (Inr n, w1)"
    and slot: "holdsSlot w1 player" and slot0: "holdsSlot w player"
    and held: "slot_getItem w (heldSlotOf player) = Some tool"
    and scythe: "''scythe'' \<in> set (tags tool)" "typeId tool \<noteq> ''djc:wooden_scythe''"
  from slot0 held have gh: "getHeldItem w player = Inr (Some tool)"
    by (auto simp: getHeldItem_def getHeldSlot_def getEntityContainer_def holdsSlot_def
          heldSlotOf_def split: option.splits)
  have run: "entityHitBlock h ''minecraft:player'' player w
      = Some (if 0 < n then wearHeldItem player tool w1 else (Inr (), w1))"
    using scythe by (simp add: entityHitBlock_def gh Let_def pass succeed_def)
  show "if 0 < n
        then (case entityHitBlock h ''minecraft:player'' player w of
                None \<Rightarrow> False
              | Some (r, w') \<Rightarrow> r = Inr () \<and> wearOutcome player tool w1 w')
        else entityHitBlock h ''minecraft:player'' player w = Some (Inr (), w1)
             \<and> slot_getItem w1 (heldSlotOf player) = slot_getItem w (heldSlotOf player)"
  proof (cases "0 < n")
    case True
    have "fst (andThen (succeed ()) (\<lambda>u. wearHeldItem player tool) w1) = Inr ()
       \<and> wearOutcome player tool w1 (snd (andThen (succeed ()) (\<lambda>u. wearHeldItem player tool) w1))"
      by (rule wear_after_feedback [where feedback = "succeed ()" and ss = "[]", OF assms slot])
         (simp_all add: succeed_def)
    then show ?thesis
      using True by (simp add: run andThen_def succeed_def case_prod_beta)
  next
    case False
    with pass_count_nonneg(2) [OF pass] have n: "n = 0" by simp
    from destroyBlocksArc_none [OF pass [unfolded n]]
    have "slot_getItem w1 (heldSlotOf player) = slot_getItem w (heldSlotOf player)"
      by (simp add: slot_getItem_def)
    then show ?thesis using n by (simp add: run)
  qed
qed

lemma farm_sweep:
  "getBlocksInSweep exampleHost farmWorld examplePlayer (Num 180) (Num 0)
     = Some (Inr [Some (Vector3 0 65 0)])"
proof -
  have e: "fl 65 = 65" "fl (1 / 2) = 1 / 2"
    using representable_heights(1,3) by (simp_all add: representable_def)
  show ?thesis
    by (simp add: getBlocksInSweep_def Let_def sweepDistances_none addVectors_def getBlock_cell
          blockAt_def examplePlayer_def farmWorld_cells rounded_def e)
qed

lemma farm_reach: "parseInt exampleHost (getItemPropertyTag ironScythe ''reach'') = Num 0"
  by (simp add: getItemPropertyTag_def ironScythe_def startsWith_def element_def exampleHost_def)

lemma farm_whoosh:
  "andThen (getRandomFloat (Num 1) (Num (3 / 2))) (\<lambda>pitch.
   andThen (effect (player_playSound examplePlayer ''scythe.whoosh'')) (\<lambda>u. loop)) farmWorld
     = loop (player_playSound examplePlayer ''scythe.whoosh'' (farmWorld\<lparr>drawn := 1\<rparr>))"
  by (simp add: andThen_def getRandomFloat_def Math_random_def effect_def Let_def
        farmWorld_def exampleWorld_def)

lemma farm_grass:
  "Block_typeId (player_playSound examplePlayer ''scythe.whoosh'' (farmWorld\<lparr>drawn := k\<rparr>))
     (Vector3 0 65 0) = ''minecraft:tallgrass''"
  by (simp add: Block_typeId_def player_playSound_def farmWorld_cells farmBlocks_def)

lemma farm_pass:
  "multiHarvestArc exampleHost examplePlayer (Num 180) (Num 0) farmWorld
     = Some (Inr 1, farmAfterPass)"
  "destroyBlocksArc exampleHost examplePlayer (Num 180) (Num 0) farmWorld
     = Some (Inr 1, farmAfterPass)"
  by (simp_all add: multiHarvestArc_def destroyBlocksArc_def farm_sweep farm_whoosh
        isBlockCrop_def isBlockSugarcane_def isBlockBamboo_def isBlockScytheDestructable_def
        farm_grass farmAfterPass_def)
     (simp_all add: exampleHost_def)

lemma farm_slots:
  "holdsSlot farmWorld examplePlayer" "holdsSlot farmAfterPass examplePlayer"
  "slot_getItem farmWorld (heldSlotOf examplePlayer) = Some ironScythe"
  by (simp_all add: holdsSlot_def heldSlotOf_def slot_getItem_def farmAfterPass_def
        destroyBlock_def Block_setType_def player_playSound_def examplePlayer_def farmWorld_def)

lemma worn_reach: "parseInt exampleHost (getItemPropertyTag wornScythe ''reach'') = Num 0"
  by (simp add: getItemPropertyTag_def wornScythe_def ironScythe_def startsWith_def element_def
        exampleHost_def)

theorem tool_wear_witness:
  "durability ironScythe = Some \<lparr>damage = 0, maxDurability = 250\<rparr>
   \<and> multiHarvestArc exampleHost examplePlayer (Num 180)
        (parseInt exampleHost (getItemPropertyTag ironScythe ''reach'')) farmWorld
       = Some (Inr 1, farmAfterPass)
   \<and> destroyBlocksArc exampleHost examplePlayer (Num 180)
        (parseInt exampleHost (getItemPropertyTag ironScythe ''reach'')) farmWorld
       = Some (Inr 1, farmAfterPass)
   \<and> holdsSlot farmAfterPass examplePlayer \<and> holdsSlot farmWorld examplePlayer
   \<and> slot_getItem farmWorld (heldSlotOf examplePlayer) = Some ironScythe
   \<and> map_option fst (onUseOn exampleHost examplePlayer ironScythe farmWorld) = Some (Inr ())
   \<and> map_option (\<lambda>r. slot_getItem (snd r) (heldSlotOf examplePlayer))
        (onUseOn exampleHost examplePlayer ironScythe farmWorld)
       = Some (Some (ironScythe\<lparr>durability := Some \<lparr>damage = 1, maxDurability = 250\<rparr>\<rparr>))
   \<and> map_option fst (entityHitBlock exampleHost ''minecraft:player'' examplePlayer farmWorld)
       = Some (Inr ())
   \<and> map_option (\<lambda>r. slot_getItem (snd r) (heldSlotOf examplePlayer))
        (entityHitBlock exampleHost ''minecraft:player'' examplePlayer farmWorld)
       = Some (Some (ironScythe\<lparr>durability := Some \<lparr>damage = 1, maxDurability = 250\<rparr>\<rparr>))
   \<and> durability wornScythe = Some \<lparr>damage = 250, maxDurability = 250\<rparr>
   \<and> multiHarvestArc exampleHost examplePlayer (Num 180)
        (parseInt exampleHost (getItemPropertyTag wornScythe ''reach'')) farmWorld
       = Some (Inr 1, farmAfterPass)
   \<and> map_option fst (onUseOn exampleHost examplePlayer wornScythe farmWorld) = Some (Inr ())
   \<and> map_option (\<lambda>r. slot_getItem (snd r) (heldSlotOf examplePlayer))
        (onUseOn exampleHost examplePlayer wornScythe farmWorld) = Some None
   \<and> map_option (\<lambda>r. last (sounds (snd r)))
        (onUseOn exampleHost examplePlayer wornScythe farmWorld)
       = Some (7, ''random.break'')"
proof -
  have d': "durability wornScythe = Some \<lparr>damage = 250, maxDurability = 250\<rparr>"
    by (simp add: wornScythe_def)
  have worn': "wornTool wornScythe = None" "breaks wornScythe"
    by (simp_all add: wornTool_def breaks_def d')
  have d: "durability ironScythe = Some \<lparr>damage = 0, maxDurability = 250\<rparr>"
    by (simp add: ironScythe_def)
  have t: "''scythe'' \<in> set (tags ironScythe)" "typeId ironScythe \<noteq> ''djc:wooden_scythe''"
    by (simp_all add: ironScythe_def)
  have worn: "wornTool ironScythe
      = Some (ironScythe\<lparr>durability := Some \<lparr>damage = 1, maxDurability = 250\<rparr>\<rparr>)"
    by (simp add: wornTool_def d)
  have id: "entityId examplePlayer = 7" by (simp add: examplePlayer_def)
  show ?thesis
    using tool_wear [OF d, of exampleHost examplePlayer farmWorld 1 farmAfterPass]
      tool_wear [OF d', of exampleHost examplePlayer farmWorld 1 farmAfterPass]
      farm_pass farm_slots t d d'
    by (auto simp: farm_reach worn_reach wearOutcome_def worn worn' id
          split: option.splits prod.splits)
qed

end
